(* ===== verification/Http_Prelude.thy ===== *)
theory Http_Prelude
  imports Main "HOL-Library.Word"
begin

text \<open>
  Shared vocabulary of the development: Rust's results and polls, byte strings and the ASCII
  helpers of \<^verbatim>\<open>core::str\<close> the crate calls, \<^verbatim>\<open>bitflags\<close> sets over machine words, and the generic
  list and word facts that more than one component uses.

  Text-level data (header names and values, the HTTP/1 wire format) is a \<^typ>\<open>string\<close>, a list of
  8-bit characters, so that literals read as they do in the source. Binary data (WebSocket frames)
  is a list of \<^typ>\<open>8 word\<close>.
\<close>

unbundle bit_operations_syntax

named_theorems flag_simps \<open>membership of single-bit flags after insert, remove and set\<close>
named_theorems ascii_simps \<open>ASCII classification and case folding\<close>

section \<open>Results, polls, integers\<close>

type_synonym u8 = "8 word"
type_synonym u16 = "16 word"
type_synonym u32 = "32 word"
type_synonym u64 = "64 word"

type_synonym bytes = string

text \<open>\<^verbatim>\<open>Result<T, E>\<close> is the sum type with the error on the left.\<close>

abbreviation Ok :: "'a \<Rightarrow> 'e + 'a" where
  "Ok \<equiv> Inr"

abbreviation Err :: "'e \<Rightarrow> 'e + 'a" where
  "Err \<equiv> Inl"

text \<open>\<^verbatim>\<open>core::task::Poll\<close>.\<close>

datatype 'a poll = Pending | Ready 'a

section \<open>ASCII text\<close>

definition byte_val :: "char \<Rightarrow> nat" where
  "byte_val c = of_char c"

lemma byte_val_less [simp]: "byte_val c < 256"
  by (simp add: byte_val_def)

lemma byte_val_inject: "byte_val a = byte_val b \<longleftrightarrow> a = b"
  by (simp add: byte_val_def)

abbreviation (input) CR :: char where "CR \<equiv> CHR 0x0D"
abbreviation (input) LF :: char where "LF \<equiv> CHR 0x0A"
abbreviation (input) SP :: char where "SP \<equiv> CHR 0x20"
abbreviation (input) HTAB :: char where "HTAB \<equiv> CHR 0x09"
abbreviation (input) CRLF :: string where "CRLF \<equiv> [CR, LF]"

text \<open>\<^verbatim>\<open>u8::to_ascii_lowercase\<close> and the comparison \<^verbatim>\<open>str::eq_ignore_ascii_case\<close>.\<close>

definition to_ascii_lowercase :: "char \<Rightarrow> char" where
  "to_ascii_lowercase c =
     (let n = byte_val c in if 65 \<le> n \<and> n \<le> 90 then char_of (n + 32) else c)"

definition eq_ignore_ascii_case :: "string \<Rightarrow> string \<Rightarrow> bool" where
  "eq_ignore_ascii_case a b \<longleftrightarrow> map to_ascii_lowercase a = map to_ascii_lowercase b"

text \<open>
  \<^verbatim>\<open>str::trim_start\<close> and \<^verbatim>\<open>str::trim\<close>. The crate only trims strings that
  \<^verbatim>\<open>HeaderValue::to_str\<close> has checked, where the Unicode white space that can occur is ASCII.
\<close>

definition is_whitespace :: "char \<Rightarrow> bool" where
  "is_whitespace c \<longleftrightarrow> byte_val c = 32 \<or> (9 \<le> byte_val c \<and> byte_val c \<le> 13)"

definition trim_start :: "string \<Rightarrow> string" where
  "trim_start s = dropWhile is_whitespace s"

definition trim :: "string \<Rightarrow> string" where
  "trim s = rev (dropWhile is_whitespace (rev (dropWhile is_whitespace s)))"

lemma eq_ignore_ascii_case_refl [simp]: "eq_ignore_ascii_case s s"
  by (simp add: eq_ignore_ascii_case_def)

lemma eq_ignore_ascii_case_sym: "eq_ignore_ascii_case a b \<longleftrightarrow> eq_ignore_ascii_case b a"
  by (auto simp: eq_ignore_ascii_case_def)

lemma eq_ignore_ascii_case_trans:
  "eq_ignore_ascii_case a b \<Longrightarrow> eq_ignore_ascii_case b c \<Longrightarrow> eq_ignore_ascii_case a c"
  by (simp add: eq_ignore_ascii_case_def)

lemma eq_ignore_ascii_case_length:
  "eq_ignore_ascii_case a b \<Longrightarrow> length a = length b"
  by (auto simp: eq_ignore_ascii_case_def dest: map_eq_imp_length_eq)

section \<open>Flag sets\<close>

text \<open>
  The \<^verbatim>\<open>bitflags\<close> types of the crate are words whose named constants are single bits (or unions
  of them); \<^verbatim>\<open>contains\<close>, \<^verbatim>\<open>insert\<close>, \<^verbatim>\<open>remove\<close> and \<^verbatim>\<open>set\<close> are the bitwise operations.
\<close>

definition fl_contains :: "'a::len word \<Rightarrow> 'a word \<Rightarrow> bool" where
  "fl_contains f x \<longleftrightarrow> f AND x = x"

definition fl_insert :: "'a::len word \<Rightarrow> 'a word \<Rightarrow> 'a word" where
  "fl_insert f x = f OR x"

definition fl_remove :: "'a::len word \<Rightarrow> 'a word \<Rightarrow> 'a word" where
  "fl_remove f x = f AND NOT x"

definition fl_set :: "'a::len word \<Rightarrow> 'a word \<Rightarrow> bool \<Rightarrow> 'a word" where
  "fl_set f x b = (if b then fl_insert f x else fl_remove f x)"

lemma fl_contains_insert_same [flag_simps]: "fl_contains (fl_insert f x) x"
  by (simp add: fl_contains_def fl_insert_def bit.conj_disj_distrib2)

lemma fl_contains_insert_other [flag_simps]:
  assumes "x AND y = 0"
  shows "fl_contains (fl_insert f x) y = fl_contains f y"
proof -
  have "(f OR x) AND y = f AND y"
    by (simp add: bit.conj_disj_distrib2 assms)
  then show ?thesis by (simp add: fl_contains_def fl_insert_def)
qed

lemma fl_contains_remove_same [flag_simps]:
  assumes "x \<noteq> 0"
  shows "\<not> fl_contains (fl_remove f x) x"
proof -
  have "(f AND NOT x) AND x = 0"
    by (simp add: and.assoc)
  then show ?thesis using assms by (simp add: fl_contains_def fl_remove_def)
qed

lemma fl_contains_remove_other [flag_simps]:
  fixes x y :: "'a::len word"
  assumes "x AND y = 0"
  shows "fl_contains (fl_remove f x) y = fl_contains f y"
proof -
  have "\<not> (bit x n \<and> bit y n)" for n
    using assms by (metis bit_0_eq bit_and_iff bot_apply bot_bool_def)
  then have "(f AND NOT x) AND y = f AND y"
    by (intro bit_word_eqI) (auto simp: bit_simps)
  then show ?thesis by (simp add: fl_contains_def fl_remove_def)
qed

lemma fl_contains_empty [flag_simps]: "x \<noteq> 0 \<Longrightarrow> \<not> fl_contains 0 x"
  by (simp add: fl_contains_def)

lemma fl_contains_set_same [flag_simps]:
  "x \<noteq> 0 \<Longrightarrow> fl_contains (fl_set f x b) x = b"
  by (simp add: fl_set_def flag_simps)

lemma fl_contains_set_other [flag_simps]:
  "x AND y = 0 \<Longrightarrow> fl_contains (fl_set f x b) y = fl_contains f y"
  by (simp add: fl_set_def flag_simps)

text \<open>Facts about lists without a simplification rule in the library.\<close>

lemma removeAll_eq_Nil [simp]: "removeAll x xs = [] \<longleftrightarrow> set xs \<subseteq> {x}"
  by (induction xs) auto

section \<open>Incremental decoders\<close>

text \<open>
  A decoder that is called until it asks for more input, reports the end of the message or fails
  delivers some output, a way it stopped, its next state and the input it left. \<open>prepend\<close> and
  \<open>resume\<close> compose such runs.
\<close>

datatype 'e drain_end = NeedMore | AtEof | Failed 'e

definition prepend :: "'o list \<Rightarrow> ('o list \<times> 'r) option \<Rightarrow> ('o list \<times> 'r) option" where
  "prepend b r = (case r of None \<Rightarrow> None | Some (out, x) \<Rightarrow> Some (b @ out, x))"

lemma prepend_simps [simp]:
  "prepend b None = None" "prepend b (Some (out, x)) = Some (b @ out, x)"
  "prepend [] r = r" "prepend b (prepend c r) = prepend (b @ c) r"
  by (auto simp: prepend_def split: option.splits)

lemma prepend_eq_None [simp]: "prepend b r = None \<longleftrightarrow> r = None"
  by (auto simp: prepend_def split: option.splits)

definition resume ::
  "('o list \<times> 'e drain_end \<times> 's \<times> 'i list) option \<Rightarrow>
   ('s \<Rightarrow> 'i list \<Rightarrow> ('o list \<times> 'e drain_end \<times> 's \<times> 'i list) option) \<Rightarrow>
   'i list \<Rightarrow> ('o list \<times> 'e drain_end \<times> 's \<times> 'i list) option" where
  "resume r k b =
     (case r of
        None \<Rightarrow> None
      | Some (out, NeedMore, s, left) \<Rightarrow> prepend out (k s (left @ b))
      | Some (out, e, s, left) \<Rightarrow> Some (out, e, s, left @ b))"

lemma resume_prepend: "resume (prepend o1 r) k b = prepend o1 (resume r k b)"
  by (auto simp: resume_def prepend_def split: option.splits drain_end.splits)

lemma resume_NeedMore [simp]: "resume (Some (out, NeedMore, s, left)) k b = prepend out (k s (left @ b))"
  by (simp add: resume_def)

lemma resume_AtEof [simp]: "resume (Some (out, AtEof, s, left)) k b = Some (out, AtEof, s, left @ b)"
  by (simp add: resume_def)

lemma resume_Failed [simp]:
  "resume (Some (out, Failed e, s, left)) k b = Some (out, Failed e, s, left @ b)"
  by (simp add: resume_def)

lemma resume_None [simp]: "resume None k b = None"
  by (simp add: resume_def)

text \<open>
  The input arrives in fragments: each is appended to what the last run left. After the end or an
  error the remaining fragments stay in the buffer.
\<close>

fun feed ::
  "('s \<Rightarrow> 'i list \<Rightarrow> ('o list \<times> 'e drain_end \<times> 's \<times> 'i list) option) \<Rightarrow> 's \<Rightarrow> 'i list \<Rightarrow>
   'i list list \<Rightarrow> ('o list \<times> 'e drain_end \<times> 's \<times> 'i list) option" where
  "feed run s buf [] = Some ([], NeedMore, s, buf)"
| "feed run s buf (f # fs) =
     (case run s (buf @ f) of
        None \<Rightarrow> None
      | Some (out, NeedMore, s', left) \<Rightarrow> prepend out (feed run s' left fs)
      | Some (out, e, s', left) \<Rightarrow> Some (out, e, s', left @ concat fs))"

text \<open>
  The interface of an incremental decoder \<open>run\<close> whose parameter \<open>p\<close> meets its contract: a run on an
  input is a run on its first part, resumed with the rest.
\<close>

locale incremental =
  fixes ok :: "'p \<Rightarrow> bool"
    and run :: "'p \<Rightarrow> 's \<Rightarrow> 'i list \<Rightarrow> ('o list \<times> 'e drain_end \<times> 's \<times> 'i list) option"
  assumes run_append: "ok p \<Longrightarrow> run p s (a @ b) = resume (run p s a) (run p) b"
begin

lemma feed_eq_run: "ok p \<Longrightarrow> feed (run p) s buf (f # fs) = run p s (buf @ concat (f # fs))"
proof (induction fs arbitrary: f s buf)
  case Nil
  then show ?case
    by (auto split: option.split drain_end.split)
next
  case (Cons g fs)
  have "run p s (buf @ concat (f # g # fs)) = resume (run p s (buf @ f)) (run p) (g @ concat fs)"
    using run_append [OF Cons.prems, of s "buf @ f" "g @ concat fs"] by simp
  also have "\<dots> = feed (run p) s buf (f # g # fs)"
    using Cons by (auto simp del: feed.simps(2) [of "run p" _ _ g]
        simp: resume_def split: option.split drain_end.split)
  finally show ?case by simp
qed

lemma feed_cut_irrelevant:
  "ok p \<Longrightarrow> concat (f # fs) = concat (g # gs) \<Longrightarrow>
   feed (run p) s buf (f # fs) = feed (run p) s buf (g # gs)"
  by (simp only: feed_eq_run)

end

end
