(* ===== verification/Header_Types.thy ===== *)
theory Header_Types
  imports Http_Prelude "HOL-Library.AList"
begin

text \<open>
  Header values, the header multimap and its iterators, and content encodings:
  \<^verbatim>\<open>geario-http/src/types/value.rs\<close>, \<^verbatim>\<open>types/map.rs\<close> and \<^verbatim>\<open>types/header.rs\<close>.

  A \<^verbatim>\<open>HeaderName\<close> belongs to the \<^verbatim>\<open>http\<close> crate; here it is the normalised (lower-case) name as a
  string, and \<^verbatim>\<open>HeaderName::try_from\<close> is the parameter \<open>parse_name\<close> of the operations that call
  it. The \<^verbatim>\<open>HashMap\<close> under \<^verbatim>\<open>HeaderMap\<close> is an association list with distinct keys; the position of an
  entry stands for the table's iteration order, so statements about all such lists hold for every
  order.
\<close>

section \<open>Header values (types/value.rs)\<close>

record header_value =
  hv_inner :: bytes
  hv_is_sensitive :: bool

datatype invalid_header_value = InvalidHeaderValue

datatype to_str_error = ToStrError

definition is_visible_ascii :: "char \<Rightarrow> bool" where
  "is_visible_ascii c = (let b = byte_val c in b \<ge> 32 \<and> b < 127 \<or> b = 9)"

definition is_valid :: "char \<Rightarrow> bool" where
  "is_valid c = (let b = byte_val c in b \<ge> 32 \<and> b \<noteq> 127 \<or> b = 9)"

text \<open>\<^verbatim>\<open>HeaderValue::from_static\<close>; the panic on an invalid byte is \<^const>\<open>None\<close>.\<close>

fun hv_from_static_loop :: "bytes \<Rightarrow> bool" where
  "hv_from_static_loop [] = True"
| "hv_from_static_loop (b # bs) = (if \<not> is_visible_ascii b then False else hv_from_static_loop bs)"

definition hv_from_static :: "string \<Rightarrow> header_value option" where
  "hv_from_static src =
     (if hv_from_static_loop src then Some \<lparr>hv_inner = src, hv_is_sensitive = False\<rparr> else None)"

fun hv_try_from_generic :: "bytes \<Rightarrow> bytes \<Rightarrow> invalid_header_value + header_value" where
  "hv_try_from_generic inner [] = Ok \<lparr>hv_inner = inner, hv_is_sensitive = False\<rparr>"
| "hv_try_from_generic inner (b # bs) =
     (if \<not> is_valid b then Err InvalidHeaderValue else hv_try_from_generic inner bs)"

definition hv_from_str :: "string \<Rightarrow> invalid_header_value + header_value" where
  "hv_from_str src = hv_try_from_generic src src"

definition hv_from_bytes :: "bytes \<Rightarrow> invalid_header_value + header_value" where
  "hv_from_bytes src = hv_try_from_generic src src"

definition hv_from_shared :: "bytes \<Rightarrow> invalid_header_value + header_value" where
  "hv_from_shared src = hv_try_from_generic src src"

definition hv_from_shared_unchecked :: "bytes \<Rightarrow> header_value" where
  "hv_from_shared_unchecked src = \<lparr>hv_inner = src, hv_is_sensitive = False\<rparr>"

fun hv_to_str_scan :: "bytes \<Rightarrow> bytes \<Rightarrow> to_str_error + string" where
  "hv_to_str_scan all [] = Ok all"
| "hv_to_str_scan all (b # bs) =
     (if \<not> is_visible_ascii b then Err ToStrError else hv_to_str_scan all bs)"

definition hv_to_str :: "header_value \<Rightarrow> to_str_error + string" where
  "hv_to_str v = hv_to_str_scan (hv_inner v) (hv_inner v)"

definition hv_len :: "header_value \<Rightarrow> nat" where
  "hv_len v = length (hv_inner v)"

definition hv_set_sensitive :: "bool \<Rightarrow> header_value \<Rightarrow> header_value" where
  "hv_set_sensitive b v = v\<lparr>hv_is_sensitive := b\<rparr>"

text \<open>\<^verbatim>\<open>PartialEq\<close>: sensitivity is not part of equality.\<close>

definition hv_eq :: "header_value \<Rightarrow> header_value \<Rightarrow> bool" where
  "hv_eq a b \<longleftrightarrow> hv_inner a = hv_inner b"

text \<open>
  \<^verbatim>\<open>Debug\<close>. The loop keeps the start \<open>from\<close> of the pending run of plain bytes; here the pending
  run itself is the accumulator. \<^verbatim>\<open>{b:x}\<close> prints lower-case hexadecimal without padding.
\<close>

definition hex_digit_lower :: "nat \<Rightarrow> char" where
  "hex_digit_lower n = (if n < 10 then char_of (48 + n) else char_of (87 + n))"

definition fmt_lower_hex :: "char \<Rightarrow> string" where
  "fmt_lower_hex c =
     (let b = byte_val c
      in (if b < 16 then [hex_digit_lower b]
          else [hex_digit_lower (b div 16), hex_digit_lower (b mod 16)]))"

fun hv_fmt_loop :: "bytes \<Rightarrow> bytes \<Rightarrow> string" where
  "hv_fmt_loop run [] = run"
| "hv_fmt_loop run (b # bs) =
     (if \<not> is_visible_ascii b \<or> b = CHR 0x22 then
        run @ (if b = CHR 0x22 then [CHR 0x5C, CHR 0x22]
               else [CHR 0x5C, CHR ''x''] @ fmt_lower_hex b)
        @ hv_fmt_loop [] bs
      else hv_fmt_loop (run @ [b]) bs)"

definition hv_fmt_debug :: "header_value \<Rightarrow> string" where
  "hv_fmt_debug v =
     (if hv_is_sensitive v then ''Sensitive''
      else [CHR 0x22] @ hv_fmt_loop [] (hv_inner v) @ [CHR 0x22])"

section \<open>Values of one key (types/map.rs, Value)\<close>

datatype hvalue = One header_value | Multi "header_value list"

text \<open>\<^verbatim>\<open>Value::get\<close>; indexing an empty deque panics, which is \<^const>\<open>None\<close>.\<close>

fun v_get :: "hvalue \<Rightarrow> header_value option" where
  "v_get (One val) = Some val"
| "v_get (Multi vals) = (case vals of [] \<Rightarrow> None | v # _ \<Rightarrow> Some v)"

fun v_append :: "hvalue \<Rightarrow> header_value \<Rightarrow> hvalue" where
  "v_append (Multi vec) val = Multi (vec @ [val])"
| "v_append (One prev_val) val = (let vec = [prev_val] in Multi (vec @ [val]))"

text \<open>\<^verbatim>\<open>ValueIntoIter::next\<close>: the state is the value still to be handed out.\<close>

fun v_into_next :: "hvalue \<Rightarrow> header_value option \<times> hvalue" where
  "v_into_next (One val) = (Some val, Multi [])"
| "v_into_next (Multi []) = (None, Multi [])"
| "v_into_next (Multi (v # vs)) = (Some v, Multi vs)"

fun v_weight :: "hvalue \<Rightarrow> nat" where
  "v_weight (One _) = 1"
| "v_weight (Multi vs) = length vs"

lemma v_into_next_weight: "v_into_next st = (Some v, st') \<Longrightarrow> v_weight st' < v_weight st"
  by (cases st rule: v_into_next.cases) auto

function v_into_list :: "hvalue \<Rightarrow> header_value list" where
  "v_into_list st = (case v_into_next st of (None, _) \<Rightarrow> [] | (Some v, st') \<Rightarrow> v # v_into_list st')"
  by pat_completeness auto
termination
  by (relation "measure v_weight") (auto dest: v_into_next_weight [OF sym])

declare v_into_list.simps [simp del]

definition v_extend :: "hvalue \<Rightarrow> header_value list \<Rightarrow> hvalue" where
  "v_extend v hs = foldl v_append v hs"

text \<open>\<^verbatim>\<open>FromIterator<HeaderValue> for Value\<close>; \<^verbatim>\<open>from_static("")\<close> cannot panic.\<close>

definition v_from_iter :: "header_value list \<Rightarrow> hvalue" where
  "v_from_iter hs =
     (case hs of
        [] \<Rightarrow> v_extend (One \<lparr>hv_inner = [], hv_is_sensitive = False\<rparr>) []
      | h # rest \<Rightarrow> v_extend (One h) rest)"

text \<open>\<^verbatim>\<open>str::split(',')\<close>.\<close>

fun split_on :: "char \<Rightarrow> string \<Rightarrow> string list" where
  "split_on sep [] = [[]]"
| "split_on sep (c # cs) =
     (if c = sep then [] # split_on sep cs
      else (case split_on sep cs of [] \<Rightarrow> [[c]] | w # ws \<Rightarrow> (c # w) # ws))"

definition v_try_from_str :: "string \<Rightarrow> hvalue" where
  "v_try_from_str value =
     v_from_iter
       (List.map_filter (\<lambda>v. case hv_from_str v of Ok h \<Rightarrow> Some h | Err _ \<Rightarrow> None)
         (map trim (filter (\<lambda>v. v \<noteq> []) (split_on (CHR '','') value))))"

section \<open>The header map (types/map.rs, HeaderMap)\<close>

type_synonym header_name = string

type_synonym header_map = "(header_name \<times> hvalue) list"

text \<open>\<^verbatim>\<open>AsName\<close>: a key is given as a parsed name or as text still to be parsed.\<close>

datatype key_arg = Left header_name | Right string

definition hm_new :: header_map where
  "hm_new = []"

definition hm_len :: "header_map \<Rightarrow> nat" where
  "hm_len m = length m"

definition hm_clear :: "header_map \<Rightarrow> header_map" where
  "hm_clear m = []"

fun hm_get2 :: "(string \<Rightarrow> header_name option) \<Rightarrow> header_map \<Rightarrow> key_arg \<Rightarrow> hvalue option" where
  "hm_get2 parse_name m (Left name) = map_of m name"
| "hm_get2 parse_name m (Right s) =
     (case parse_name s of Some name \<Rightarrow> map_of m name | None \<Rightarrow> None)"

definition hm_get ::
  "(string \<Rightarrow> header_name option) \<Rightarrow> header_map \<Rightarrow> key_arg \<Rightarrow> header_value option" where
  "hm_get parse_name m k = Option.bind (hm_get2 parse_name m k) v_get"

fun hm_contains_key :: "(string \<Rightarrow> header_name option) \<Rightarrow> header_map \<Rightarrow> key_arg \<Rightarrow> bool" where
  "hm_contains_key parse_name m (Left name) = (map_of m name \<noteq> None)"
| "hm_contains_key parse_name m (Right s) =
     (case parse_name s of Some name \<Rightarrow> map_of m name \<noteq> None | None \<Rightarrow> False)"

definition hm_insert :: "header_map \<Rightarrow> header_name \<Rightarrow> header_value \<Rightarrow> header_map" where
  "hm_insert m key val = AList.update key (One val) m"

definition hm_append :: "header_map \<Rightarrow> header_name \<Rightarrow> header_value \<Rightarrow> header_map" where
  "hm_append m key value =
     (case map_of m key of
        Some entry \<Rightarrow> AList.update key (v_append entry value) m
      | None \<Rightarrow> AList.update key (One value) m)"

fun hm_remove :: "(string \<Rightarrow> header_name option) \<Rightarrow> header_map \<Rightarrow> key_arg \<Rightarrow> header_map" where
  "hm_remove parse_name m (Left name) = AList.delete name m"
| "hm_remove parse_name m (Right s) =
     (case parse_name s of Some name \<Rightarrow> AList.delete name m | None \<Rightarrow> m)"

definition hm_keys :: "header_map \<Rightarrow> header_name list" where
  "hm_keys m = map fst m"

text \<open>\<^verbatim>\<open>GetAll\<close>: the iterator over the values of one key.\<close>

record get_all =
  ga_idx :: nat
  ga_item :: "hvalue option"

definition hm_get_all ::
  "(string \<Rightarrow> header_name option) \<Rightarrow> header_map \<Rightarrow> key_arg \<Rightarrow> get_all" where
  "hm_get_all parse_name m name = \<lparr>ga_idx = 0, ga_item = hm_get2 parse_name m name\<rparr>"

definition ga_next :: "get_all \<Rightarrow> header_value option \<times> get_all" where
  "ga_next g =
     (case ga_item g of
        Some (One val) \<Rightarrow> (Some val, g\<lparr>ga_item := None\<rparr>)
      | Some (Multi vec) \<Rightarrow>
          (if ga_idx g < length vec then (Some (vec ! ga_idx g), g\<lparr>ga_idx := ga_idx g + 1\<rparr>)
           else (None, g\<lparr>ga_item := None\<rparr>))
      | None \<Rightarrow> (None, g))"

definition ga_left :: "get_all \<Rightarrow> nat" where
  "ga_left g = (case ga_item g of None \<Rightarrow> 0 | Some (One _) \<Rightarrow> 1
                | Some (Multi vec) \<Rightarrow> length vec - ga_idx g)"

text \<open>Collecting the iterator, as \<^verbatim>\<open>for v in map.get_all(..)\<close> does.\<close>

function ga_collect :: "get_all \<Rightarrow> header_value list" where
  "ga_collect g = (case ga_next g of (None, _) \<Rightarrow> [] | (Some v, g') \<Rightarrow> v # ga_collect g')"
  by pat_completeness auto
termination
  by (relation "measure ga_left", simp)
     (auto simp: ga_next_def ga_left_def split: option.splits hvalue.splits if_splits)

declare ga_collect.simps [simp del]

text \<open>\<^verbatim>\<open>Iter\<close>: the iterator over all pairs; \<open>it_inner\<close> is what the table iterator has left.\<close>

record hm_iter =
  it_idx :: nat
  it_current :: "(header_name \<times> header_value list) option"
  it_inner :: header_map

definition hm_iter_new :: "header_map \<Rightarrow> hm_iter" where
  "hm_iter_new m = \<lparr>it_idx = 0, it_current = None, it_inner = m\<rparr>"

function it_next :: "hm_iter \<Rightarrow> (header_name \<times> header_value) option \<times> hm_iter" where
  "it_next it =
     (case it_current it of
        Some (k, vec) \<Rightarrow>
          if it_idx it < length vec then
            (Some (k, vec ! it_idx it), it\<lparr>it_idx := it_idx it + 1\<rparr>)
          else it_next (it\<lparr>it_idx := 0, it_current := None\<rparr>)
      | None \<Rightarrow>
          (case it_inner it of
             [] \<Rightarrow> (None, it)
           | (k, One value) # rest \<Rightarrow> (Some (k, value), it\<lparr>it_inner := rest\<rparr>)
           | (k, Multi vec) # rest \<Rightarrow>
               it_next (it\<lparr>it_current := Some (k, vec), it_inner := rest\<rparr>)))"
  by pat_completeness auto
termination
  by (relation "measures [\<lambda>it. length (it_inner it), \<lambda>it. if it_current it = None then 0 else 1]")
     auto

declare it_next.simps [simp del]

definition it_left :: "hm_iter \<Rightarrow> nat" where
  "it_left it =
     (case it_current it of None \<Rightarrow> 0 | Some (_, vec) \<Rightarrow> length vec - it_idx it)
     + sum_list (map (v_weight \<circ> snd) (it_inner it))"

text \<open>\<^verbatim>\<open>FromIterator<(N, V)>\<close>: pairs whose name or value does not parse are dropped.\<close>

definition hm_from_iter ::
  "('n \<Rightarrow> header_name option) \<Rightarrow> ('v \<Rightarrow> hvalue option) \<Rightarrow> ('n \<times> 'v) list \<Rightarrow> header_map" where
  "hm_from_iter parse_name parse_value iter =
     foldl (\<lambda>map (n, v). case map_of map n of
                Some oc \<Rightarrow> AList.update n (v_extend oc (v_into_list v)) map
              | None \<Rightarrow> AList.update n v map)
       [] (List.map_filter (\<lambda>(n, v). case (parse_name n, parse_value v) of
                                (Some n', Some v') \<Rightarrow> Some (n', v')
                              | _ \<Rightarrow> None) iter)"

text \<open>\<^verbatim>\<open>From<http::HeaderMap>\<close> (types/mod.rs): the foreign map is given by its entry sequence.\<close>

definition hm_from_http :: "(header_name \<times> header_value) list \<Rightarrow> header_map" where
  "hm_from_http entries = foldl (\<lambda>m (h, v). hm_append m h v) hm_new entries"

section \<open>Content encodings (types/header.rs)\<close>

datatype content_encoding = Auto | Br | Deflate | Gzip | Identity

fun ce_is_compressed :: "content_encoding \<Rightarrow> bool" where
  "ce_is_compressed Identity = False"
| "ce_is_compressed Auto = False"
| "ce_is_compressed _ = True"

fun ce_as_str :: "content_encoding \<Rightarrow> string" where
  "ce_as_str Br = ''br''"
| "ce_as_str Gzip = ''gzip''"
| "ce_as_str Deflate = ''deflate''"
| "ce_as_str Identity = ''identity''"
| "ce_as_str Auto = ''identity''"

definition ce_from :: "string \<Rightarrow> content_encoding" where
  "ce_from str =
     (let s = trim str
      in if eq_ignore_ascii_case s ''br'' then Br
         else if eq_ignore_ascii_case s ''gzip'' then Gzip
         else if eq_ignore_ascii_case s ''deflate'' then Deflate
         else Identity)"

section \<open>Facts about header values\<close>

lemma visible_is_valid: "is_visible_ascii c \<Longrightarrow> is_valid c"
  by (auto simp: is_visible_ascii_def is_valid_def Let_def)

lemma hv_from_static_loop_eq: "hv_from_static_loop bs = list_all is_visible_ascii bs"
  by (induction bs) auto

lemma hv_try_from_generic_eq:
  "hv_try_from_generic inner bs =
     (if list_all is_valid bs then Ok \<lparr>hv_inner = inner, hv_is_sensitive = False\<rparr>
      else Err InvalidHeaderValue)"
  by (induction bs) auto

lemma hv_to_str_scan_eq:
  "hv_to_str_scan s bs = (if list_all is_visible_ascii bs then Ok s else Err ToStrError)"
  by (induction bs) auto

lemmas hv_checks = hv_from_static_loop_eq hv_try_from_generic_eq hv_to_str_scan_eq
  hv_from_static_def hv_from_str_def hv_from_bytes_def hv_from_shared_def hv_to_str_def

lemma hv_to_str_Ok_iff:
  "hv_to_str v = Ok s \<longleftrightarrow> s = hv_inner v \<and> list_all is_visible_ascii (hv_inner v)"
  by (auto simp: hv_checks)

lemma hex_digit_visible: "n < 16 \<Longrightarrow> is_visible_ascii (hex_digit_lower n)"
  by (simp add: is_visible_ascii_def hex_digit_lower_def byte_val_def)

lemma fmt_lower_hex_visible: "list_all is_visible_ascii (fmt_lower_hex c)"
proof -
  have "byte_val c div 16 < 16"
    using byte_val_less [of c] by (simp add: less_mult_imp_div_less)
  then show ?thesis
    by (simp add: fmt_lower_hex_def Let_def hex_digit_visible)
qed

lemma hv_fmt_loop_visible:
  "list_all is_visible_ascii run \<Longrightarrow> list_all is_visible_ascii (hv_fmt_loop run bs)"
proof (induction run bs rule: hv_fmt_loop.induct)
  case (1 run)
  then show ?case by simp
next
  case (2 run b bs)
  have "is_visible_ascii (CHR 0x5C)" "is_visible_ascii (CHR 0x22)" "is_visible_ascii (CHR ''x'')"
    by (simp_all add: is_visible_ascii_def byte_val_def)
  with 2 show ?case by (auto simp: fmt_lower_hex_visible)
qed

section \<open>Facts about the values of one key\<close>

fun v_values :: "hvalue \<Rightarrow> header_value list" where
  "v_values (One v) = [v]"
| "v_values (Multi vs) = vs"

definition v_wf :: "hvalue \<Rightarrow> bool" where
  "v_wf v \<longleftrightarrow> v_values v \<noteq> []"

lemma v_wf_One [simp]: "v_wf (One v)"
  by (simp add: v_wf_def)

lemma v_values_append [simp]: "v_values (v_append v h) = v_values v @ [h]"
  by (cases v) simp_all

lemma v_values_extend [simp]: "v_values (v_extend v hs) = v_values v @ hs"
  by (induction hs arbitrary: v) (simp_all add: v_extend_def)

lemma v_into_list_eq [simp]: "v_into_list v = v_values v"
proof (induction v rule: v_into_list.induct)
  case (1 st)
  then show ?case
    by (cases st rule: v_into_next.cases; subst v_into_list.simps) simp_all
qed

lemma v_get_wf: "v_wf v \<Longrightarrow> v_get v = Some (hd (v_values v))"
  by (cases v) (auto simp: v_wf_def split: list.splits)

lemma v_from_iter_values: "hs \<noteq> [] \<Longrightarrow> v_values (v_from_iter hs) = hs"
  by (cases hs) (simp_all add: v_from_iter_def)

section \<open>The multimap contract\<close>

text \<open>
  What the clients of \<^verbatim>\<open>HeaderMap\<close> (the message decoder and encoder, the codecs) rely on: the list
  of values of each key, seen through \<open>vals\<close>, and how every update changes it.
\<close>

locale multimap =
  fixes empty :: "'m"
    and append :: "'m \<Rightarrow> 'k \<Rightarrow> 'v \<Rightarrow> 'm"
    and insert :: "'m \<Rightarrow> 'k \<Rightarrow> 'v \<Rightarrow> 'm"
    and remove :: "'m \<Rightarrow> 'k \<Rightarrow> 'm"
    and vals :: "'m \<Rightarrow> 'k \<Rightarrow> 'v list"
    and invar :: "'m \<Rightarrow> bool"
  assumes invar_empty: "invar empty"
    and invar_append: "invar m \<Longrightarrow> invar (append m k v)"
    and invar_insert: "invar m \<Longrightarrow> invar (insert m k v)"
    and invar_remove: "invar m \<Longrightarrow> invar (remove m k)"
    and vals_empty: "vals empty k = []"
    and vals_append: "invar m \<Longrightarrow>
          vals (append m k v) k' = (if k' = k then vals m k @ [v] else vals m k')"
    and vals_insert: "invar m \<Longrightarrow> vals (insert m k v) k' = (if k' = k then [v] else vals m k')"
    and vals_remove: "invar m \<Longrightarrow> vals (remove m k) k' = (if k' = k then [] else vals m k')"
begin

lemma invar_append_all: "invar m \<Longrightarrow> invar (foldl (\<lambda>m (k, v). append m k v) m kvs)"
  by (induction kvs arbitrary: m) (auto simp: invar_append)

lemma vals_append_all:
  "invar m \<Longrightarrow>
   vals (foldl (\<lambda>m (k, v). append m k v) m kvs) k = vals m k @ map snd (filter (\<lambda>kv. fst kv = k) kvs)"
  by (induction kvs arbitrary: m) (auto simp: invar_append vals_append)

lemma append_commute:
  "invar m \<Longrightarrow> k \<noteq> k' \<Longrightarrow>
   vals (append (append m k v) k' v') j = vals (append (append m k' v') k v) j"
  by (auto simp: vals_append invar_append)

end

definition hm_invar :: "header_map \<Rightarrow> bool" where
  "hm_invar m \<longleftrightarrow> distinct (map fst m) \<and> list_all (v_wf \<circ> snd) m"

definition hm_values :: "header_map \<Rightarrow> header_name \<Rightarrow> header_value list" where
  "hm_values m k = (case map_of m k of None \<Rightarrow> [] | Some v \<Rightarrow> v_values v)"

lemma hm_invar_wf: "hm_invar m \<Longrightarrow> map_of m k = Some v \<Longrightarrow> v_wf v"
  by (auto simp: hm_invar_def list_all_iff dest!: map_of_SomeD)

lemma hm_invar_update:
  assumes "hm_invar m" "v_wf v"
  shows "hm_invar (AList.update k v m)"
proof -
  have "v_wf v'" if "(k', v') \<in> set (AList.update k v m)" for k' v'
    using that assms by (induction m) (auto simp: hm_invar_def list_all_iff split: if_splits)
  then show ?thesis
    using assms by (auto simp: hm_invar_def list_all_iff AList.distinct_update)
qed

lemma hm_invar_delete: "hm_invar m \<Longrightarrow> hm_invar (AList.delete k m)"
  using AList.distinct_delete [of m k]
  by (auto simp: hm_invar_def list_all_iff AList.delete_eq)

lemma v_wf_append: "v_wf (v_append v h)"
  by (simp add: v_wf_def)

interpretation hm: multimap hm_new hm_append hm_insert "\<lambda>m k. hm_remove p m (Left k)" hm_values hm_invar
proof unfold_locales
  fix m :: header_map and k k' :: header_name and v :: header_value
  assume inv: "hm_invar m"
  show "hm_invar (hm_append m k v)"
    using inv by (auto simp: hm_append_def v_wf_append intro: hm_invar_update split: option.split)
  show "hm_invar (hm_insert m k v)"
    using inv by (simp add: hm_insert_def hm_invar_update)
  show "hm_invar (hm_remove p m (Left k))"
    using inv by (simp add: hm_invar_delete)
  show "hm_values (hm_append m k v) k' = (if k' = k then hm_values m k @ [v] else hm_values m k')"
    by (auto simp: hm_values_def hm_append_def update_conv split: option.split)
  show "hm_values (hm_insert m k v) k' = (if k' = k then [v] else hm_values m k')"
    by (auto simp: hm_values_def hm_insert_def update_conv)
  show "hm_values (hm_remove p m (Left k)) k' = (if k' = k then [] else hm_values m k')"
    by (auto simp: hm_values_def delete_conv)
qed (simp_all add: hm_invar_def hm_new_def hm_values_def)

lemma hm_get_values:
  assumes "hm_invar m"
  shows "hm_get p m (Left k) = (case hm_values m k of [] \<Rightarrow> None | v # _ \<Rightarrow> Some v)"
proof (cases "map_of m k")
  case None
  then show ?thesis by (simp add: hm_get_def hm_values_def)
next
  case (Some v)
  with assms have "v_wf v" by (rule hm_invar_wf)
  with Some show ?thesis
    by (cases "v_values v") (simp_all add: hm_get_def hm_values_def v_get_wf v_wf_def)
qed

lemma hm_contains_values:
  assumes "hm_invar m"
  shows "hm_contains_key p m (Left k) \<longleftrightarrow> hm_values m k \<noteq> []"
  using hm_invar_wf [OF assms, of k] by (auto simp: hm_values_def v_wf_def split: option.split)

section \<open>Iterators\<close>

lemma ga_collect_Some_Multi:
  "ga_collect \<lparr>ga_idx = i, ga_item = Some (Multi vec)\<rparr> = drop i vec"
proof (induction "length vec - i" arbitrary: i)
  case 0
  then show ?case by (subst ga_collect.simps) (simp add: ga_next_def)
next
  case (Suc n)
  then have "i < length vec" and "n = length vec - (i + 1)" by simp_all
  with Suc.hyps(1) [of "i + 1"] show ?case
    by (subst ga_collect.simps) (simp add: ga_next_def Cons_nth_drop_Suc)
qed

lemma ga_collect_None [simp]: "ga_collect \<lparr>ga_idx = i, ga_item = None\<rparr> = []"
  by (subst ga_collect.simps) (simp add: ga_next_def)

lemma ga_collect_One [simp]: "ga_collect \<lparr>ga_idx = i, ga_item = Some (One v)\<rparr> = [v]"
  by (subst ga_collect.simps) (simp add: ga_next_def)

lemma ga_collect_get_all: "ga_collect (hm_get_all p m (Left k)) = hm_values m k"
proof (cases "map_of m k")
  case None
  then show ?thesis by (simp add: hm_get_all_def hm_values_def)
next
  case (Some v)
  then show ?thesis by (cases v) (simp_all add: hm_get_all_def hm_values_def ga_collect_Some_Multi)
qed

lemma it_next_left: "it_next it = (Some x, it') \<Longrightarrow> it_left it' < it_left it"
proof (induction it rule: it_next.induct)
  case (1 it)
  show ?case
  proof (cases "it_current it")
    case None
    note cur = this
    show ?thesis
    proof (cases "it_inner it" rule: list.exhaust [case_names Nil Cons])
      case Nil
      with 1 cur show ?thesis by (simp add: it_next.simps [of it])
    next
      case (Cons kv rest)
      obtain k v where kv: "kv = (k, v)" by (cases kv)
      show ?thesis
      proof (cases v)
        case (One h)
        with 1 cur Cons kv show ?thesis by (auto simp: it_next.simps [of it] it_left_def)
      next
        case (Multi vec)
        let ?it = "it\<lparr>it_current := Some (k, vec), it_inner := rest\<rparr>"
        have "it_next ?it = (Some x, it')"
          using "1.prems" cur Cons kv Multi by (simp add: it_next.simps [of it])
        then have "it_left it' < it_left ?it"
          using "1.IH"(1) cur Cons kv Multi by blast
        also have "it_left ?it \<le> it_left it"
          using cur Cons kv Multi by (simp add: it_left_def)
        finally show ?thesis .
      qed
    qed
  next
    case (Some kv)
    with 1 show ?thesis
      by (cases kv) (auto simp: it_next.simps [of it] it_left_def split: if_splits)
  qed
qed

function it_collect :: "hm_iter \<Rightarrow> (header_name \<times> header_value) list" where
  "it_collect it = (case it_next it of (None, _) \<Rightarrow> [] | (Some x, it') \<Rightarrow> x # it_collect it')"
  by pat_completeness auto
termination
  by (relation "measure it_left") (auto dest: it_next_left [OF sym])

declare it_collect.simps [simp del]

definition hm_pairs :: "header_map \<Rightarrow> (header_name \<times> header_value) list" where
  "hm_pairs m = concat (map (\<lambda>(k, v). map (Pair k) (v_values v)) m)"

definition it_rest :: "hm_iter \<Rightarrow> (header_name \<times> header_value) list" where
  "it_rest it =
     (case it_current it of None \<Rightarrow> [] | Some (k, vec) \<Rightarrow> map (Pair k) (drop (it_idx it) vec))
     @ hm_pairs (it_inner it)"

definition it_ok :: "hm_iter \<Rightarrow> bool" where
  "it_ok it \<longleftrightarrow> (it_current it = None \<longrightarrow> it_idx it = 0)"

lemma it_next_rest:
  "it_ok it \<Longrightarrow> it_next it = (r, it') \<Longrightarrow>
     it_ok it' \<and> it_rest it = (case r of None \<Rightarrow> [] | Some x \<Rightarrow> x # it_rest it')"
proof (induction it rule: it_next.induct)
  case (1 it)
  show ?case
  proof (cases "it_current it")
    case None
    with 1 show ?thesis
      by (auto simp: it_next.simps [of it] it_rest_def it_ok_def hm_pairs_def
            split: list.splits hvalue.splits)
  next
    case (Some kv)
    with 1 show ?thesis
      by (cases kv) (auto simp: it_next.simps [of it] it_rest_def it_ok_def hm_pairs_def
            Cons_nth_drop_Suc [symmetric] split: if_splits)
  qed
qed

lemma it_collect_rest: "it_ok it \<Longrightarrow> it_collect it = it_rest it"
proof (induction it rule: it_collect.induct)
  case (1 it)
  obtain r it' where n: "it_next it = (r, it')" by (cases "it_next it")
  with it_next_rest [OF "1.prems" n] 1 show ?case
    by (subst it_collect.simps) (auto split: option.splits)
qed

section \<open>Properties\<close>

lemma hm_pairs_values:
  "hm_invar m \<Longrightarrow> map snd (filter (\<lambda>kv. fst kv = k) (hm_pairs m)) = hm_values m k"
proof (induction m)
  case Nil
  then show ?case by (simp add: hm_pairs_def hm_values_def)
next
  case (Cons e m)
  obtain k' v where e: "e = (k', v)" by (cases e)
  have "hm_invar m" using Cons.prems by (simp add: hm_invar_def)
  with Cons.IH have ih: "map snd (filter (\<lambda>kv. fst kv = k) (hm_pairs m)) = hm_values m k" .
  have "hm_pairs (e # m) = map (Pair k') (v_values v) @ hm_pairs m"
    by (simp add: hm_pairs_def e)
  moreover have "map snd (filter (\<lambda>kv. fst kv = k) (map (Pair k') (v_values v))) =
      (if k' = k then v_values v else [])"
    by (auto simp: filter_map comp_def)
  moreover have "map_of m k = None" if "k' = k"
    using Cons.prems that by (simp add: hm_invar_def e map_of_eq_None_iff)
  ultimately show ?case
    using ih by (auto simp: hm_values_def e)
qed

definition two_cookies :: header_map where
  "two_cookies =
     [(''set-cookie'', Multi [\<lparr>hv_inner = ''a'', hv_is_sensitive = False\<rparr>,
                            \<lparr>hv_inner = ''b'', hv_is_sensitive = True\<rparr>])]"

text \<open>
  C18: A header map behaves as a multimap from names to non-empty lists of values: \<^verbatim>\<open>append\<close> adds a
  value after those of its name, \<^verbatim>\<open>insert\<close> replaces them, \<^verbatim>\<open>remove\<close> drops them, none touches another
  name, \<^verbatim>\<open>get\<close> returns the first value and \<^verbatim>\<open>get_all\<close> all of them in order; and every operation
  keeps the representation invariant.
\<close>

theorem header_map_multimap:
  assumes "hm_invar m"
  shows "hm_invar (hm_append m k v) \<and> hm_invar (hm_insert m k v) \<and>
    hm_invar (hm_remove p m (Left k)) \<and>
    hm_values (hm_append m k v) = (hm_values m)(k := hm_values m k @ [v]) \<and>
    hm_values (hm_insert m k v) = (hm_values m)(k := [v]) \<and>
    hm_values (hm_remove p m (Left k)) = (hm_values m)(k := []) \<and>
    hm_get p m (Left k) = (case hm_values m k of [] \<Rightarrow> None | v # _ \<Rightarrow> Some v) \<and>
    ga_collect (hm_get_all p m (Left k)) = hm_values m k"
  using hm.invar_append [OF assms] hm.invar_insert [OF assms] hm.invar_remove [OF assms]
    hm.vals_append [OF assms, of k v] hm.vals_insert [OF assms, of k v]
    hm.vals_remove [OF assms, of p k] hm_get_values [OF assms, of p k] ga_collect_get_all [of p m k]
  by (simp add: fun_eq_iff del: hm_remove.simps)

theorem header_map_multimap_witness:
  "hm_values (hm_append two_cookies ''set-cookie'' \<lparr>hv_inner = ''c'', hv_is_sensitive = False\<rparr>) ''set-cookie'' =
     [\<lparr>hv_inner = ''a'', hv_is_sensitive = False\<rparr>, \<lparr>hv_inner = ''b'', hv_is_sensitive = True\<rparr>,
      \<lparr>hv_inner = ''c'', hv_is_sensitive = False\<rparr>]"
proof -
  have inv: "hm_invar two_cookies" by (simp add: two_cookies_def hm_invar_def v_wf_def)
  have "hm_values two_cookies ''set-cookie'' =
      [\<lparr>hv_inner = ''a'', hv_is_sensitive = False\<rparr>, \<lparr>hv_inner = ''b'', hv_is_sensitive = True\<rparr>]"
    by (simp add: hm_values_def two_cookies_def)
  with header_map_multimap [OF inv, of "''set-cookie''" _ "\<lambda>_. None"] show ?thesis by simp
qed

text \<open>
  Iterating over a header map to the end yields, for every name, exactly the values of that
  name in their order, each once, including the second and later values of a repeated name.
\<close>

lemma header_map_iteration:
  assumes "hm_invar m"
  shows "map snd (filter (\<lambda>kv. fst kv = k) (it_collect (hm_iter_new m))) = hm_values m k"
proof -
  have "it_collect (hm_iter_new m) = hm_pairs m"
    using it_collect_rest [of "hm_iter_new m"] by (simp add: hm_iter_new_def it_ok_def it_rest_def)
  with hm_pairs_values [OF assms] show ?thesis by simp
qed

text \<open>
  The debug form of a header value consists of printable ASCII characters, spaces and
  tabs, whatever bytes the value holds, so it cannot break a log line; and of a value marked
  sensitive it shows nothing.
\<close>

lemma header_value_debug_safe:
  "list_all is_visible_ascii (hv_fmt_debug v) \<and>
   hv_fmt_debug (hv_set_sensitive True v) = hv_fmt_debug (hv_set_sensitive True w)"
proof -
  have "list_all is_visible_ascii ''Sensitive''" "is_visible_ascii (CHR 0x22)"
    by (simp_all add: is_visible_ascii_def byte_val_def)
  then show ?thesis
    using hv_fmt_loop_visible [of "[]" "hv_inner v"]
    by (auto simp: hv_fmt_debug_def hv_set_sensitive_def)
qed

end
