(* ===== verification/Message_Heads.thy ===== *)
theory Message_Heads
  imports Header_Types
begin

text \<open>
  Request and response heads and the pool they are recycled through:
  \<^verbatim>\<open>geario-http/src/message.rs\<close>, the error types of \<^verbatim>\<open>error.rs\<close>, \<^verbatim>\<open>HeaderItem\<close> of \<^verbatim>\<open>lib.rs\<close> and the
  accessors of \<^verbatim>\<open>request.rs\<close>.

  A \<^verbatim>\<open>Uri\<close>, a \<^verbatim>\<open>Method\<close> and a \<^verbatim>\<open>StatusCode\<close> belong to the \<^verbatim>\<open>http\<close> crate and are represented by their text
  or number; IO handles and the boxed values of \<^verbatim>\<open>Extensions\<close> are opaque numbers.
\<close>

section \<open>Versions, connection types, errors\<close>

datatype version = HTTP_09 | HTTP_10 | HTTP_11 | HTTP_2 | HTTP_3

fun version_rank :: "version \<Rightarrow> nat" where
  "version_rank HTTP_09 = 0"
| "version_rank HTTP_10 = 1"
| "version_rank HTTP_11 = 2"
| "version_rank HTTP_2 = 3"
| "version_rank HTTP_3 = 4"

instantiation version :: linorder
begin

definition less_eq_version :: "version \<Rightarrow> version \<Rightarrow> bool" where
  "less_eq_version a b \<longleftrightarrow> version_rank a \<le> version_rank b"

definition less_version :: "version \<Rightarrow> version \<Rightarrow> bool" where
  "less_version a b \<longleftrightarrow> version_rank a < version_rank b"

instance
proof
  fix x y z :: version
  show "(x < y) = (x \<le> y \<and> \<not> y \<le> x)"
    by (auto simp: less_version_def less_eq_version_def)
  show "x \<le> x"
    by (simp add: less_eq_version_def)
  show "x \<le> y \<Longrightarrow> y \<le> z \<Longrightarrow> x \<le> z"
    by (simp add: less_eq_version_def)
  show "x \<le> y \<Longrightarrow> y \<le> x \<Longrightarrow> x = y"
    by (cases x; cases y) (simp_all add: less_eq_version_def)
  show "x \<le> y \<or> y \<le> x"
    by (auto simp: less_eq_version_def)
qed

end

datatype connection_type = Close | KeepAlive | Upgrade

datatype decode_error =
    DMethod
  | DUri
  | DVersion
  | DHeader
  | MaxHeaders
  | TooLarge nat
  | Incomplete
  | DStatus
  | InvalidInput string
  | Utf8

datatype httparse_error =
    HE_HeaderName
  | HE_HeaderValue
  | HE_NewLine
  | HE_Status
  | HE_Token
  | HE_TooManyHeaders
  | HE_Version

fun decode_error_from_httparse :: "httparse_error \<Rightarrow> decode_error" where
  "decode_error_from_httparse HE_HeaderName = DHeader"
| "decode_error_from_httparse HE_HeaderValue = DHeader"
| "decode_error_from_httparse HE_NewLine = DHeader"
| "decode_error_from_httparse HE_Token = DHeader"
| "decode_error_from_httparse HE_Status = DStatus"
| "decode_error_from_httparse HE_TooManyHeaders = TooLarge 0"
| "decode_error_from_httparse HE_Version = DVersion"

datatype encode_error = UnsupportedVersion version | UnexpectedEof | Fmt

section \<open>Heads\<close>

type_synonym uri = string
type_synonym http_method = string
type_synonym status_code = nat
type_synonym io_handle = nat
type_synonym extension = nat

record header_item =
  hi_name :: header_name
  hi_origin :: string
  hi_value :: header_value

datatype current_io = IoRef io_handle | IoAccess io_handle | IoNone

abbreviation MF_CLOSE :: u8 where "MF_CLOSE \<equiv> 0x01"
abbreviation MF_KEEP_ALIVE :: u8 where "MF_KEEP_ALIVE \<equiv> 0x02"
abbreviation MF_UPGRADE :: u8 where "MF_UPGRADE \<equiv> 0x04"
abbreviation MF_EXPECT :: u8 where "MF_EXPECT \<equiv> 0x08"
abbreviation MF_NO_CHUNKING :: u8 where "MF_NO_CHUNKING \<equiv> 0x10"
abbreviation MF_ABSOLUTE_URI :: u8 where "MF_ABSOLUTE_URI \<equiv> 0x20"

record request_head =
  rq_id :: nat
  rq_uri :: uri
  rq_method :: http_method
  rq_version :: version
  rq_headers :: header_map
  rq_headers_vec :: "header_item list"
  rq_extensions :: "extension list"
  rq_io :: current_io
  rq_flags :: u8

text \<open>\<^verbatim>\<open>Uri::default()\<close> is \<^verbatim>\<open>/\<close> and \<^verbatim>\<open>Method::default()\<close> is \<^verbatim>\<open>GET\<close>.\<close>

definition rq_default :: request_head where
  "rq_default =
     \<lparr>rq_id = 0, rq_uri = ''/'', rq_method = ''GET'', rq_version = HTTP_11,
      rq_headers = hm_new, rq_headers_vec = [], rq_extensions = [], rq_io = IoNone,
      rq_flags = 0\<rparr>"

definition rq_clear :: "request_head \<Rightarrow> request_head" where
  "rq_clear h =
     h\<lparr>rq_io := IoNone, rq_flags := 0, rq_version := HTTP_11,
       rq_headers := hm_clear (rq_headers h), rq_headers_vec := [], rq_extensions := []\<rparr>"

definition rq_set_absolute_uri :: "bool \<Rightarrow> request_head \<Rightarrow> request_head" where
  "rq_set_absolute_uri on h = h\<lparr>rq_flags := fl_set (rq_flags h) MF_ABSOLUTE_URI on\<rparr>"

definition rq_absolute_uri :: "request_head \<Rightarrow> bool" where
  "rq_absolute_uri h = fl_contains (rq_flags h) MF_ABSOLUTE_URI"

fun rq_set_connection_type :: "connection_type \<Rightarrow> request_head \<Rightarrow> request_head" where
  "rq_set_connection_type Close h = h\<lparr>rq_flags := fl_insert (rq_flags h) MF_CLOSE\<rparr>"
| "rq_set_connection_type KeepAlive h = h\<lparr>rq_flags := fl_insert (rq_flags h) MF_KEEP_ALIVE\<rparr>"
| "rq_set_connection_type Upgrade h = h\<lparr>rq_flags := fl_insert (rq_flags h) MF_UPGRADE\<rparr>"

definition rq_connection_type :: "request_head \<Rightarrow> connection_type" where
  "rq_connection_type h =
     (if fl_contains (rq_flags h) MF_CLOSE then Close
      else if fl_contains (rq_flags h) MF_KEEP_ALIVE then KeepAlive
      else if fl_contains (rq_flags h) MF_UPGRADE then Upgrade
      else if rq_version h < HTTP_11 then Close
      else KeepAlive)"

definition rq_upgrade :: "request_head \<Rightarrow> bool" where
  "rq_upgrade h = fl_contains (rq_flags h) MF_UPGRADE"

definition rq_expect :: "request_head \<Rightarrow> bool" where
  "rq_expect h = fl_contains (rq_flags h) MF_EXPECT"

definition rq_chunked :: "request_head \<Rightarrow> bool" where
  "rq_chunked h = (\<not> fl_contains (rq_flags h) MF_NO_CHUNKING)"

definition rq_no_chunking :: "bool \<Rightarrow> request_head \<Rightarrow> request_head" where
  "rq_no_chunking val h =
     (if val then h\<lparr>rq_flags := fl_insert (rq_flags h) MF_NO_CHUNKING\<rparr>
      else h\<lparr>rq_flags := fl_remove (rq_flags h) MF_NO_CHUNKING\<rparr>)"

definition rq_set_expect :: "request_head \<Rightarrow> request_head" where
  "rq_set_expect h = h\<lparr>rq_flags := fl_insert (rq_flags h) MF_EXPECT\<rparr>"

definition rq_set_upgrade :: "request_head \<Rightarrow> request_head" where
  "rq_set_upgrade h = h\<lparr>rq_flags := fl_insert (rq_flags h) MF_UPGRADE\<rparr>"

definition rq_remove_io :: "request_head \<Rightarrow> request_head" where
  "rq_remove_io h = h\<lparr>rq_io := IoNone\<rparr>"

text \<open>\<^verbatim>\<open>Request::upgrade\<close> (request.rs): \<^verbatim>\<open>CONNECT\<close> always counts as an upgrade.\<close>

definition request_upgrade :: "request_head \<Rightarrow> bool" where
  "request_upgrade h \<longleftrightarrow> rq_upgrade h \<or> rq_method h = ''CONNECT''"

record response_head =
  rs_version :: version
  rs_status :: status_code
  rs_headers :: header_map
  rs_headers_vec :: "header_item list"
  rs_reason :: "string option"
  rs_io :: current_io
  rs_extensions :: "extension list"
  rs_flags :: u8

definition rs_new :: "status_code \<Rightarrow> version \<Rightarrow> response_head" where
  "rs_new status version =
     \<lparr>rs_version = version, rs_status = status, rs_headers = hm_new, rs_headers_vec = [],
      rs_reason = None, rs_io = IoNone, rs_extensions = [], rs_flags = 0\<rparr>"

text \<open>\<^verbatim>\<open>StatusCode::default()\<close> is 200 and \<^verbatim>\<open>Version::default()\<close> is HTTP/1.1.\<close>

definition rs_default :: response_head where
  "rs_default = rs_new 200 HTTP_11"

definition rs_clear :: "response_head \<Rightarrow> response_head" where
  "rs_clear h =
     h\<lparr>rs_reason := None, rs_headers := hm_clear (rs_headers h), rs_headers_vec := [],
       rs_io := IoNone, rs_flags := 0, rs_extensions := []\<rparr>"

fun rs_set_connection_type :: "connection_type \<Rightarrow> response_head \<Rightarrow> response_head" where
  "rs_set_connection_type Close h = h\<lparr>rs_flags := fl_insert (rs_flags h) MF_CLOSE\<rparr>"
| "rs_set_connection_type KeepAlive h = h\<lparr>rs_flags := fl_insert (rs_flags h) MF_KEEP_ALIVE\<rparr>"
| "rs_set_connection_type Upgrade h = h\<lparr>rs_flags := fl_insert (rs_flags h) MF_UPGRADE\<rparr>"

definition rs_connection_type :: "response_head \<Rightarrow> connection_type" where
  "rs_connection_type h =
     (if fl_contains (rs_flags h) MF_CLOSE then Close
      else if fl_contains (rs_flags h) MF_KEEP_ALIVE then KeepAlive
      else if fl_contains (rs_flags h) MF_UPGRADE then Upgrade
      else if rs_version h < HTTP_11 then Close
      else KeepAlive)"

definition rs_keep_alive :: "response_head \<Rightarrow> bool" where
  "rs_keep_alive h \<longleftrightarrow> rs_connection_type h = KeepAlive"

definition rs_upgrade :: "response_head \<Rightarrow> bool" where
  "rs_upgrade h \<longleftrightarrow> rs_connection_type h = Upgrade"

text \<open>\<^verbatim>\<open>StatusCode::canonical_reason\<close> is the parameter \<open>canonical_reason\<close>.\<close>

definition rs_reason_str :: "(status_code \<Rightarrow> string option) \<Rightarrow> response_head \<Rightarrow> string" where
  "rs_reason_str canonical_reason h =
     (case rs_reason h of
        Some reason \<Rightarrow> reason
      | None \<Rightarrow> (case canonical_reason (rs_status h) of
                   Some r \<Rightarrow> r
                 | None \<Rightarrow> ''<unknown status code>''))"

definition rs_ctype :: "response_head \<Rightarrow> connection_type option" where
  "rs_ctype h =
     (if fl_contains (rs_flags h) MF_CLOSE then Some Close
      else if fl_contains (rs_flags h) MF_KEEP_ALIVE then Some KeepAlive
      else if fl_contains (rs_flags h) MF_UPGRADE then Some Upgrade
      else None)"

definition rs_chunked :: "response_head \<Rightarrow> bool" where
  "rs_chunked h = (\<not> fl_contains (rs_flags h) MF_NO_CHUNKING)"

definition rs_no_chunking :: "bool \<Rightarrow> response_head \<Rightarrow> response_head" where
  "rs_no_chunking val h =
     (if val then h\<lparr>rs_flags := fl_insert (rs_flags h) MF_NO_CHUNKING\<rparr>
      else h\<lparr>rs_flags := fl_remove (rs_flags h) MF_NO_CHUNKING\<rparr>)"

section \<open>The message pool\<close>

text \<open>
  \<^verbatim>\<open>MessagePool::get_message\<close> and \<^verbatim>\<open>Drop for Message\<close>, for a head type given by its \<open>clear\<close> and
  \<open>dflt\<close>. A pooled head has exactly one owner, so \<^verbatim>\<open>Rc::get_mut\<close> succeeds there; dropping a
  message with other owners (\<open>strong_count \<noteq> 1\<close>) leaves the pool alone.
\<close>

fun get_message :: "('h \<Rightarrow> 'h) \<Rightarrow> 'h \<Rightarrow> 'h list \<Rightarrow> 'h \<times> 'h list" where
  "get_message clear dflt pool =
     (case rev pool of
        [] \<Rightarrow> (dflt, [])
      | msg # rest \<Rightarrow> (clear msg, rev rest))"

definition drop_message :: "('h \<Rightarrow> 'h) \<Rightarrow> nat \<Rightarrow> 'h \<Rightarrow> 'h list \<Rightarrow> 'h list" where
  "drop_message clear strong_count head pool =
     (if strong_count = 1 then
        (if length pool < 128 then pool @ [clear head] else pool)
      else pool)"

definition rs_with_status :: "status_code \<Rightarrow> response_head list \<Rightarrow> response_head \<times> response_head list" where
  "rs_with_status status pool =
     (let (msg, pool') = get_message rs_clear rs_default pool
      in (msg\<lparr>rs_status := status\<rparr>, pool'))"

section \<open>Facts\<close>

lemmas rq_flag_defs = rq_connection_type_def rq_upgrade_def rq_expect_def rq_chunked_def
  rq_no_chunking_def rq_set_expect_def rq_set_upgrade_def rq_absolute_uri_def
  rq_set_absolute_uri_def

lemmas rs_flag_defs = rs_connection_type_def rs_ctype_def rs_chunked_def rs_no_chunking_def
  rs_keep_alive_def rs_upgrade_def

text \<open>\<^verbatim>\<open>ctype\<close> is the explicit part of \<^verbatim>\<open>connection_type\<close>; the version decides the rest.\<close>

lemma rs_connection_type_ctype:
  "rs_connection_type h =
     (case rs_ctype h of Some ct \<Rightarrow> ct
      | None \<Rightarrow> if rs_version h < HTTP_11 then Close else KeepAlive)"
  by (simp add: rs_flag_defs)

lemma rs_set_connection_type_ctype:
  "rs_flags h = 0 \<Longrightarrow> rs_ctype (rs_set_connection_type ct h) = Some ct"
  by (cases ct) (simp_all add: rs_ctype_def flag_simps)

lemma rq_set_connection_type_sticky:
  "rq_connection_type h = Close \<Longrightarrow> rq_version h \<ge> HTTP_11 \<Longrightarrow>
   rq_connection_type (rq_set_connection_type ct h) = Close"
  by (cases ct) (auto simp: rq_connection_type_def flag_simps split: if_splits)

text \<open>
  A head type that can be recycled: after \<open>clear\<close> everything a previous message left behind is
  gone, as far as \<open>carried\<close> (the per-message fields) can see.
\<close>

locale recyclable_head =
  fixes clear :: "'h \<Rightarrow> 'h" and dflt :: "'h" and carried :: "'h \<Rightarrow> 'c"
  assumes clear_carried: "carried (clear h) = carried dflt"
    and clear_idem: "clear (clear h) = clear h"
begin

lemma get_message_carried: "carried (fst (get_message clear dflt pool)) = carried dflt"
  by (simp add: clear_carried split: list.split)

lemma get_message_shrinks: "length (snd (get_message clear dflt pool)) = length pool - 1"
  by (cases pool rule: rev_exhaust) simp_all

lemma drop_message_bound:
  "length pool \<le> 128 \<Longrightarrow> length (drop_message clear n h pool) \<le> 128"
  by (simp add: drop_message_def)

lemma drop_then_get:
  "length pool < 128 \<Longrightarrow>
   get_message clear dflt (drop_message clear 1 h pool) = (clear h, pool)"
  by (simp add: drop_message_def clear_idem)

end

definition rq_carried ::
  "request_head \<Rightarrow> version \<times> header_map \<times> header_item list \<times> extension list \<times> current_io \<times> u8" where
  "rq_carried h = (rq_version h, rq_headers h, rq_headers_vec h, rq_extensions h, rq_io h, rq_flags h)"

definition rs_carried ::
  "response_head \<Rightarrow> header_map \<times> header_item list \<times> string option \<times> current_io \<times> extension list \<times> u8" where
  "rs_carried h = (rs_headers h, rs_headers_vec h, rs_reason h, rs_io h, rs_extensions h, rs_flags h)"

interpretation rq_pool: recyclable_head rq_clear rq_default rq_carried
  by unfold_locales
    (simp_all add: rq_clear_def rq_default_def rq_carried_def hm_clear_def hm_new_def)

interpretation rs_pool: recyclable_head rs_clear rs_default rs_carried
  by unfold_locales
    (simp_all add: rs_clear_def rs_default_def rs_new_def rs_carried_def hm_clear_def hm_new_def)

section \<open>Properties\<close>

text \<open>
  A request or response head taken from the pool carries nothing of the message that used it
  before: version, headers, header items, extensions, IO handle and flags (for a response: headers,
  header items, reason, IO handle, extensions and flags) are those of a fresh head, whatever the
  pool holds. Putting heads back never grows the pool beyond 128.
\<close>

lemma message_pool_clean:
  "rq_carried (fst (get_message rq_clear rq_default rpool)) = rq_carried rq_default \<and>
   rs_carried (fst (rs_with_status status pool)) = rs_carried rs_default \<and>
   rs_status (fst (rs_with_status status pool)) = status \<and>
   length (drop_message rq_clear n h rpool) \<le> max 128 (length rpool)"
proof -
  have "rs_carried (fst (rs_with_status status pool)) =
      rs_carried (fst (get_message rs_clear rs_default pool))"
    by (simp add: rs_with_status_def rs_carried_def case_prod_unfold Let_def)
  then show ?thesis
    using rq_pool.get_message_carried rs_pool.get_message_carried
    by (simp add: rs_with_status_def case_prod_unfold Let_def drop_message_def)
qed

end
