(* ===== verification/Utf8.thy ===== *)
theory Utf8
  imports Http_Prelude
begin

text \<open>
  The part of Rust's \<^verbatim>\<open>str\<close> the WebSocket code uses: UTF-8 validation and
  \<^verbatim>\<open>String::from_utf8_lossy\<close>. A Rust string is the list of its bytes. The lossy conversion copies the
  valid sequences and writes U+FFFD for every maximal prefix of a sequence that cannot be completed.
\<close>

definition in_range :: "u8 \<Rightarrow> u8 \<Rightarrow> u8 \<Rightarrow> bool" where
  "in_range lo hi b \<longleftrightarrow> lo \<le> b \<and> b \<le> hi"

definition cont_byte :: "u8 \<Rightarrow> bool" where
  "cont_byte b \<longleftrightarrow> in_range 0x80 0xBF b"

definition seq_width :: "u8 \<Rightarrow> nat" where
  "seq_width b =
     (if b < 0x80 then 1 else if in_range 0xC2 0xDF b then 2 else if in_range 0xE0 0xEF b then 3
      else if in_range 0xF0 0xF4 b then 4 else 0)"

text \<open>The second byte is restricted so that no code point is overlong, a surrogate or too large.\<close>

definition second_ok :: "u8 \<Rightarrow> u8 \<Rightarrow> bool" where
  "second_ok b c \<longleftrightarrow>
     in_range (if b = 0xE0 then 0xA0 else if b = 0xF0 then 0x90 else 0x80)
       (if b = 0xED then 0x9F else if b = 0xF4 then 0x8F else 0xBF) c"

text \<open>
  The next sequence: whether it is valid, and how many bytes it has (of an invalid one: how many are
  skipped).
\<close>

fun next_seq :: "u8 list \<Rightarrow> bool \<times> nat" where
  "next_seq [] = (True, 0)"
| "next_seq (b # bs) =
     (if seq_width b = 0 then (False, 1)
      else if seq_width b = 1 then (True, 1)
      else case bs of
        [] \<Rightarrow> (False, 1)
      | c # cs \<Rightarrow>
          if \<not> second_ok b c then (False, 1)
          else if seq_width b = 2 then (True, 2)
          else case cs of
            [] \<Rightarrow> (False, 2)
          | d # ds \<Rightarrow>
              if \<not> cont_byte d then (False, 2)
              else if seq_width b = 3 then (True, 3)
              else case ds of
                [] \<Rightarrow> (False, 3)
              | e # _ \<Rightarrow> if cont_byte e then (True, 4) else (False, 3))"

definition replacement :: "u8 list" where
  "replacement = [0xEF, 0xBF, 0xBD]"

lemma next_seq_pos: "0 < snd (next_seq (b # bs))"
  by (simp split: list.split)

function utf8_lossy :: "u8 list \<Rightarrow> u8 list" where
  "utf8_lossy bs =
     (if bs = [] then []
      else let (ok, n) = next_seq bs in
        (if ok then take n bs else replacement) @ utf8_lossy (drop n bs))"
  by pat_completeness auto
termination
proof (relation "measure length", goal_cases)
  case (2 bs p ok n)
  then have "0 < n" using next_seq_pos [of "hd bs" "tl bs"] by (cases "next_seq bs") simp
  with 2 show ?case by simp
qed simp

function utf8_valid :: "u8 list \<Rightarrow> bool" where
  "utf8_valid bs =
     (if bs = [] then True
      else let (ok, n) = next_seq bs in ok \<and> utf8_valid (drop n bs))"
  by pat_completeness auto
termination
proof (relation "measure length", goal_cases)
  case (2 bs p ok n)
  then have "0 < n" using next_seq_pos [of "hd bs" "tl bs"] by (cases "next_seq bs") simp
  with 2 show ?case by simp
qed simp

declare utf8_lossy.simps [simp del] utf8_valid.simps [simp del]

lemma utf8_Nil [simp]: "utf8_lossy [] = []" "utf8_valid []"
  by (simp_all add: utf8_lossy.simps utf8_valid.simps)

lemma utf8_lossy_valid: "utf8_valid bs \<Longrightarrow> utf8_lossy bs = bs"
proof (induction bs rule: utf8_lossy.induct)
  case (1 bs)
  show ?case
  proof (cases "bs = []")
    case False
    obtain ok n where n: "next_seq bs = (ok, n)" by force
    with 1 False have "ok" "utf8_valid (drop n bs)" by (simp_all add: utf8_valid.simps [of bs])
    with 1 False n show ?thesis by (simp add: utf8_lossy.simps [of bs])
  qed simp
qed

text \<open>A valid sequence is recognised whatever follows it.\<close>

lemma next_seq_append:
  "next_seq bs = (True, n) \<Longrightarrow> bs \<noteq> [] \<Longrightarrow> n \<le> length bs \<and> next_seq (take n bs @ cs) = (True, n)"
  by (cases bs) (auto simp: eq_commute [of "Suc 0" "seq_width _"] split: list.splits if_splits)

lemma utf8_valid_seq:
  assumes "next_seq bs = (True, n)" "bs \<noteq> []" "utf8_valid cs"
  shows "utf8_valid (take n bs @ cs)"
proof -
  note seq = next_seq_append [OF assms(1,2), of cs]
  with assms(2,3) show ?thesis
    by (subst utf8_valid.simps) simp
qed

lemma utf8_valid_replacement: "utf8_valid cs \<Longrightarrow> utf8_valid (replacement @ cs)"
  using utf8_valid_seq [of replacement 3 cs]
  by (simp add: replacement_def seq_width_def second_ok_def cont_byte_def in_range_def)

lemma utf8_valid_lossy: "utf8_valid (utf8_lossy bs)"
proof (induction bs rule: utf8_lossy.induct)
  case (1 bs)
  show ?case
  proof (cases "bs = []")
    case False
    obtain ok n where n: "next_seq bs = (ok, n)" by force
    with 1 False have v: "utf8_valid (utf8_lossy (drop n bs))" by simp
    show ?thesis
      using n False utf8_valid_seq [of bs n, OF _ False v] utf8_valid_replacement [OF v]
      by (simp add: utf8_lossy.simps [of bs])
  qed simp
qed

text \<open>ASCII text is valid.\<close>

lemma utf8_valid_ascii: "(\<forall>b\<in>set bs. b < 0x80) \<Longrightarrow> utf8_valid bs"
  by (induction bs) (simp_all add: utf8_valid.simps [of "_ # _"] seq_width_def)

end
