(* ===== verification/Http_Request.thy ===== *)
theory Http_Request
  imports Message_Heads Utf8 "HOL-Library.Sublist"
begin

text \<open>
  Requests (\<^verbatim>\<open>geario-http/src/request.rs\<close>), their payloads (\<^verbatim>\<open>payload.rs\<close>, \<^verbatim>\<open>PayloadError\<close> of \<^verbatim>\<open>error.rs\<close>) and
  the trait \<^verbatim>\<open>HttpMessage\<close> (\<^verbatim>\<open>httpmessage.rs\<close>).

  The receiving half of an HTTP/1 payload is the \<^verbatim>\<open>bstream\<close> channel of the \<^verbatim>\<open>geario\<close> crate; it is known
  by its number, and what its \<^verbatim>\<open>poll_read\<close> answers is an argument. A stream is the list of the answers
  its polls give. Media types, character encodings and cookies are parsed by third-party crates, which
  are arguments as well.
\<close>

section \<open>Payload errors\<close>

datatype io_error = IoTimedOut string | IoInterrupted string | IoOther nat

datatype payload_error =
    PeIncomplete "io_error option"
  | PeEncodingCorrupted
  | PeOverflow
  | PeUnknownLength
  | PeDecode decode_error
  | PeIo io_error

datatype 'e blocking_error = BeError 'e | BeCanceled

definition pe_from_either :: "payload_error + io_error \<Rightarrow> payload_error" where
  "pe_from_either err = (case err of Inl e \<Rightarrow> e | Inr e \<Rightarrow> PeIo e)"

fun pe_from_blocking :: "io_error blocking_error \<Rightarrow> payload_error" where
  "pe_from_blocking (BeError e) = PeIo e"
| "pe_from_blocking BeCanceled = PeIo (IoInterrupted ''Operation is canceled'')"

definition pe_from_join_error :: payload_error where
  "pe_from_join_error = PeIo (IoInterrupted ''Operation is canceled'')"

section \<open>Payloads\<close>

type_synonym chan = nat
type_synonym recv_answer = "(payload_error + bytes) option poll"

datatype payload = PlNone | PlH1 chan | PlStream "recv_answer list"

definition pl_take :: "payload \<Rightarrow> payload \<times> payload" where
  "pl_take p = (p, PlNone)"

definition pl_from_stream :: "recv_answer list \<Rightarrow> payload" where
  "pl_from_stream s = PlStream s"

fun pl_poll_recv :: "(chan \<Rightarrow> recv_answer) \<Rightarrow> payload \<Rightarrow> recv_answer \<times> payload" where
  "pl_poll_recv poll_read PlNone = (Ready None, PlNone)"
| "pl_poll_recv poll_read (PlH1 ch) = (poll_read ch, PlH1 ch)"
| "pl_poll_recv poll_read (PlStream []) = (Ready None, PlStream [])"
| "pl_poll_recv poll_read (PlStream (a # s)) = (a, PlStream s)"

section \<open>Requests\<close>

record request =
  req_payload :: payload
  req_head :: request_head

definition req_from_head :: "request_head \<Rightarrow> request" where
  "req_from_head head = \<lparr>req_payload = PlNone, req_head = head\<rparr>"

definition req_new :: "request_head list \<Rightarrow> request" where
  "req_new pool = \<lparr>req_payload = PlNone, req_head = fst (get_message rq_clear rq_default pool)\<rparr>"

definition req_with_payload :: "request_head list \<Rightarrow> payload \<Rightarrow> request" where
  "req_with_payload pool p = \<lparr>req_payload = p, req_head = fst (get_message rq_clear rq_default pool)\<rparr>"

definition req_upgrade :: "request \<Rightarrow> bool" where
  "req_upgrade r = request_upgrade (req_head r)"

definition req_take_payload :: "request \<Rightarrow> payload \<times> request" where
  "req_take_payload r = (req_payload r, r\<lparr>req_payload := PlNone\<rparr>)"

definition req_replace_payload :: "request \<Rightarrow> payload \<Rightarrow> payload \<times> request" where
  "req_replace_payload r p = (req_payload r, r\<lparr>req_payload := p\<rparr>)"

definition req_into_parts :: "request \<Rightarrow> request_head \<times> payload" where
  "req_into_parts r = (req_head r, req_payload r)"

section \<open>HttpMessage\<close>

datatype content_type_error = CteParseError | CteUnknownEncoding | CteUnexpected | CteExpected

definition N_CONTENT_TYPE :: header_name where "N_CONTENT_TYPE = ''content-type''"
definition N_TRANSFER_ENCODING :: header_name where "N_TRANSFER_ENCODING = ''transfer-encoding''"
definition N_COOKIE :: header_name where "N_COOKIE = ''cookie''"

definition msg_content_type :: "(string \<Rightarrow> header_name option) \<Rightarrow> header_map \<Rightarrow> string" where
  "msg_content_type parse_name hs =
     (case hm_get parse_name hs (Left N_CONTENT_TYPE) of
        Some v \<Rightarrow> (case hv_to_str v of
                     Ok s \<Rightarrow> trim (hd (split_on (CHR '';'') s))
                   | Err _ \<Rightarrow> [])
      | None \<Rightarrow> [])"

text \<open>\<open>parse_mime\<close> is \<^verbatim>\<open>str::parse::<Mime>\<close>.\<close>

definition msg_mime_type ::
  "(string \<Rightarrow> header_name option) \<Rightarrow> (string \<Rightarrow> 'm option) \<Rightarrow> header_map \<Rightarrow> content_type_error + 'm option" where
  "msg_mime_type parse_name parse_mime hs =
     (case hm_get parse_name hs (Left N_CONTENT_TYPE) of
        Some v \<Rightarrow>
          (case hv_to_str v of
             Ok s \<Rightarrow> (case parse_mime s of Some mt \<Rightarrow> Ok (Some mt) | None \<Rightarrow> Err CteParseError)
           | Err _ \<Rightarrow> Err CteParseError)
      | None \<Rightarrow> Ok None)"

text \<open>
  \<open>charset\<close> is \<^verbatim>\<open>Mime::get_param("charset")\<close> and \<open>for_label\<close> is \<^verbatim>\<open>Encoding::for_label_no_replacement\<close>;
  \<open>utf8\<close> is the encoding \<^verbatim>\<open>UTF_8\<close>.
\<close>

definition msg_encoding ::
  "(string \<Rightarrow> header_name option) \<Rightarrow> (string \<Rightarrow> 'm option) \<Rightarrow> ('m \<Rightarrow> string option) \<Rightarrow> (string \<Rightarrow> 'enc option) \<Rightarrow> 'enc \<Rightarrow>
   header_map \<Rightarrow> content_type_error + 'enc" where
  "msg_encoding parse_name parse_mime charset for_label utf8 hs =
     (case msg_mime_type parse_name parse_mime hs of
        Err e \<Rightarrow> Err e
      | Ok (Some mt) \<Rightarrow>
          (case charset mt of
             Some label \<Rightarrow> (case for_label label of Some enc \<Rightarrow> Ok enc | None \<Rightarrow> Err CteUnknownEncoding)
           | None \<Rightarrow> Ok utf8)
      | Ok None \<Rightarrow> Ok utf8)"

text \<open>A string that \<^verbatim>\<open>to_str\<close> has checked is ASCII, so \<^verbatim>\<open>to_lowercase\<close> acts on its bytes.\<close>

definition msg_chunked :: "(string \<Rightarrow> header_name option) \<Rightarrow> header_map \<Rightarrow> decode_error + bool" where
  "msg_chunked parse_name hs =
     (case hm_get parse_name hs (Left N_TRANSFER_ENCODING) of
        Some v \<Rightarrow>
          (case hv_to_str v of
             Ok s \<Rightarrow> Ok (sublist ''chunked'' (map to_ascii_lowercase s))
           | Err _ \<Rightarrow> Err DHeader)
      | None \<Rightarrow> Ok False)"

text \<open>
  \<^verbatim>\<open>cookies\<close>: \<open>parse_encoded\<close> is \<^verbatim>\<open>Cookie::parse_encoded\<close> and \<open>cached\<close> the \<^verbatim>\<open>Cookies\<close> value among the extensions;
  the new value of it is the second result.
\<close>

text \<open>
  \<^verbatim>\<open>str::trim\<close> on text that need not be ASCII: the characters of the Unicode property White_Space, as UTF-8
  sequences, are stripped at both ends.
\<close>

definition white_space :: "string list" where
  "white_space =
     map (\<lambda>n. [char_of n]) [9, 10, 11, 12, 13, 32 :: nat] @
     map (\<lambda>n. [CHR 0xC2, char_of n]) [0x85, 0xA0 :: nat] @
     [[CHR 0xE1, CHR 0x9A, CHR 0x80]] @
     map (\<lambda>n. [CHR 0xE2, CHR 0x80, char_of n])
       [0x80, 0x81, 0x82, 0x83, 0x84, 0x85, 0x86, 0x87, 0x88, 0x89, 0x8A, 0xA8, 0xA9, 0xAF :: nat] @
     [[CHR 0xE2, CHR 0x81, CHR 0x9F], [CHR 0xE3, CHR 0x80, CHR 0x80]]"

function strip_prefixes :: "string list \<Rightarrow> string \<Rightarrow> string" where
  "strip_prefixes ws s =
     (case find (\<lambda>w. w \<noteq> [] \<and> take (length w) s = w) ws of
        None \<Rightarrow> s
      | Some w \<Rightarrow> strip_prefixes ws (drop (length w) s))"
  by pat_completeness auto
termination
proof (relation "measure (\<lambda>(ws, s). length s)")
  fix ws s and w :: string
  assume "find (\<lambda>w. w \<noteq> [] \<and> take (length w) s = w) ws = Some w"
  then have "w \<noteq> []" "take (length w) s = w" by (auto simp: find_Some_iff)
  then show "((ws, drop (length w) s), ws, s) \<in> measure (\<lambda>(ws, s). length s)"
    by (cases s; cases w) auto
qed simp

declare strip_prefixes.simps [simp del]

definition utf8_trim :: "string \<Rightarrow> string" where
  "utf8_trim s = rev (strip_prefixes (map rev white_space) (rev (strip_prefixes white_space s)))"

fun parse_cookie_strs :: "(string \<Rightarrow> 'e + 'c) \<Rightarrow> string list \<Rightarrow> 'e + 'c list" where
  "parse_cookie_strs parse_encoded [] = Ok []"
| "parse_cookie_strs parse_encoded (s # ss) =
     (if s = [] then parse_cookie_strs parse_encoded ss
      else case parse_encoded s of
        Err e \<Rightarrow> Err e
      | Ok c \<Rightarrow> (case parse_cookie_strs parse_encoded ss of Err e \<Rightarrow> Err e | Ok cs \<Rightarrow> Ok (c # cs)))"

fun parse_cookie_headers :: "'e \<Rightarrow> (string \<Rightarrow> 'e + 'c) \<Rightarrow> header_value list \<Rightarrow> 'e + 'c list" where
  "parse_cookie_headers utf8_error parse_encoded [] = Ok []"
| "parse_cookie_headers utf8_error parse_encoded (hdr # hdrs) =
     (if \<not> utf8_valid (map of_char (hv_inner hdr)) then Err utf8_error
      else case parse_cookie_strs parse_encoded (map utf8_trim (split_on (CHR '';'') (hv_inner hdr))) of
        Err e \<Rightarrow> Err e
      | Ok cs \<Rightarrow>
          (case parse_cookie_headers utf8_error parse_encoded hdrs of Err e \<Rightarrow> Err e | Ok cs' \<Rightarrow> Ok (cs @ cs')))"

definition msg_cookies ::
  "(string \<Rightarrow> header_name option) \<Rightarrow> 'e \<Rightarrow> (string \<Rightarrow> 'e + 'c) \<Rightarrow> header_map \<Rightarrow> 'c list option \<Rightarrow>
   ('e + 'c list) \<times> 'c list option" where
  "msg_cookies parse_name utf8_error parse_encoded hs cached =
     (case cached of
        Some cs \<Rightarrow> (Ok cs, cached)
      | None \<Rightarrow>
          (case parse_cookie_headers utf8_error parse_encoded (ga_collect (hm_get_all parse_name hs (Left N_COOKIE))) of
             Err e \<Rightarrow> (Err e, None)
           | Ok cs \<Rightarrow> (Ok cs, Some cs)))"

definition msg_cookie ::
  "(string \<Rightarrow> header_name option) \<Rightarrow> 'e \<Rightarrow> (string \<Rightarrow> 'e + 'c) \<Rightarrow> ('c \<Rightarrow> string) \<Rightarrow> string \<Rightarrow> header_map \<Rightarrow> 'c list option \<Rightarrow>
   'c option \<times> 'c list option" where
  "msg_cookie parse_name utf8_error parse_encoded cookie_name name hs cached =
     (case msg_cookies parse_name utf8_error parse_encoded hs cached of
        (Ok cs, cached') \<Rightarrow> (find (\<lambda>c. cookie_name c = name) cs, cached')
      | (Err _, cached') \<Rightarrow> (None, cached'))"

section \<open>Facts\<close>

text \<open>Loading the cookies is idempotent: once they are cached, the headers are not read again.\<close>

lemma msg_cookies_cached:
  "msg_cookies p u pe hs cached = (Ok cs, cached') \<Longrightarrow> msg_cookies p u pe hs' cached' = (Ok cs, cached')"
  by (auto simp: msg_cookies_def split: option.splits sum.splits)

text \<open>A payload that has been taken is at its end.\<close>

lemma pl_take_empty: "pl_poll_recv poll_read (snd (pl_take p)) = (Ready None, PlNone)"
  by (simp add: pl_take_def)

end
