(* ===== verification/H1_Payload.thy ===== *)
theory H1_Payload
  imports Message_Heads
begin

text \<open>
  The HTTP/1 payload decoder of \<^verbatim>\<open>geario-http/src/h1/decoder.rs\<close>: \<^verbatim>\<open>PayloadDecoder\<close>, \<^verbatim>\<open>Kind\<close> and the
  \<^verbatim>\<open>ChunkedState\<close> machine. \<^verbatim>\<open>httparse::parse_chunk_size\<close> is the parameter \<open>pcs\<close>; a result \<open>None\<close> is
  the panic of \<^verbatim>\<open>BytesMut::advance_to\<close> on a position beyond the buffer. The \<^verbatim>\<open>u64\<close> counters only ever
  decrease by the length of data read and are natural numbers.
\<close>

section \<open>Model\<close>

datatype 'a hp_status = Complete 'a | Partial

type_synonym chunk_size_fun = "bytes \<Rightarrow> unit + (nat \<times> nat) hp_status"

datatype payload_item = Chunk bytes | Eof

datatype chunked_state = CS_Size | CS_Body | CS_BodyCr | CS_BodyLf | CS_EndCr | CS_EndLf | CS_End

datatype kind = KLength nat | KChunked chunked_state nat | KEof

record payload_decoder =
  pd_kind :: kind

definition pd_length :: "nat \<Rightarrow> payload_decoder" where
  "pd_length x = \<lparr>pd_kind = KLength x\<rparr>"

definition pd_chunked :: payload_decoder where
  "pd_chunked = \<lparr>pd_kind = KChunked CS_Size 0\<rparr>"

definition pd_eof :: payload_decoder where
  "pd_eof = \<lparr>pd_kind = KEof\<rparr>"

type_synonym step_result = "(decode_error + chunked_state) poll"

definition read_body :: "bytes \<Rightarrow> nat \<Rightarrow> step_result \<times> bytes \<times> nat \<times> bytes option" where
  "read_body rdr rem =
     (let len = length rdr in
      if len = 0 then (Ready (Ok CS_Body), rdr, rem, None)
      else
        let (slice, rdr', rem') =
              (if rem > len then (rdr, [], rem - len) else (take rem rdr, drop rem rdr, 0))
        in if rem' > 0 then (Ready (Ok CS_Body), rdr', rem', Some slice)
           else (Ready (Ok CS_BodyCr), rdr', rem', Some slice))"

text \<open>The four single-byte states differ in the byte they expect, the next state and the message.\<close>

fun read_body_cr :: "bytes \<Rightarrow> step_result \<times> bytes" where
  "read_body_cr [] = (Pending, [])"
| "read_body_cr (b # rdr) =
     (if b = CR then (Ready (Ok CS_BodyLf), rdr)
      else (Ready (Err (InvalidInput ''Invalid chunk body CR'')), rdr))"

fun read_body_lf :: "bytes \<Rightarrow> step_result \<times> bytes" where
  "read_body_lf [] = (Pending, [])"
| "read_body_lf (b # rdr) =
     (if b = LF then (Ready (Ok CS_Size), rdr)
      else (Ready (Err (InvalidInput ''Invalid chunk body LF'')), rdr))"

fun read_end_cr :: "bytes \<Rightarrow> step_result \<times> bytes" where
  "read_end_cr [] = (Pending, [])"
| "read_end_cr (b # rdr) =
     (if b = CR then (Ready (Ok CS_EndLf), rdr)
      else (Ready (Err (InvalidInput ''Invalid chunk end CR'')), rdr))"

fun read_end_lf :: "bytes \<Rightarrow> step_result \<times> bytes" where
  "read_end_lf [] = (Pending, [])"
| "read_end_lf (b # rdr) =
     (if b = LF then (Ready (Ok CS_End), rdr)
      else (Ready (Err (InvalidInput ''Invalid chunk end LF'')), rdr))"

fun chunked_step ::
  "chunk_size_fun \<Rightarrow> chunked_state \<Rightarrow> bytes \<Rightarrow> nat \<Rightarrow> (step_result \<times> bytes \<times> nat \<times> bytes option) option"
where
  "chunked_step pcs CS_Size body csize =
     (case pcs body of
        Ok (Complete (pos, sz)) \<Rightarrow>
          (if pos > length body then None
           else if sz > 0 then Some (Ready (Ok CS_Body), drop pos body, sz, None)
           else Some (Ready (Ok CS_EndCr), drop pos body, sz, None))
      | Ok Partial \<Rightarrow> Some (Pending, body, csize, None)
      | Err _ \<Rightarrow>
          Some (Ready (Err (InvalidInput ''Invalid chunk size line: Invalid Size'')), body, csize, None))"
| "chunked_step pcs CS_Body body csize = Some (read_body body csize)"
| "chunked_step pcs CS_BodyCr body csize = (let (r, body') = read_body_cr body in Some (r, body', csize, None))"
| "chunked_step pcs CS_BodyLf body csize = (let (r, body') = read_body_lf body in Some (r, body', csize, None))"
| "chunked_step pcs CS_EndCr body csize = (let (r, body') = read_end_cr body in Some (r, body', csize, None))"
| "chunked_step pcs CS_EndLf body csize = (let (r, body') = read_end_lf body in Some (r, body', csize, None))"
| "chunked_step pcs CS_End body csize = Some (Ready (Ok CS_End), body, csize, None)"

text \<open>A rank for the states that may move on without reading a byte.\<close>

fun cs_rank :: "chunked_state \<Rightarrow> nat" where
  "cs_rank CS_Size = 2"
| "cs_rank CS_Body = 1"
| "cs_rank _ = 0"

lemma chunked_step_progress:
  assumes "chunked_step pcs st src sz = Some (Ready (Ok st'), src', sz', buf)"
    and "st' \<noteq> CS_End" "buf \<noteq> None \<or> src' \<noteq> []"
  shows "3 * length src' + cs_rank st' < 3 * length src + cs_rank st"
  using assms
  by (cases st; cases src)
    (auto simp: read_body_def Let_def split: sum.splits hp_status.splits if_splits prod.splits)

text \<open>The loop of \<^verbatim>\<open>PayloadDecoder::decode\<close> for \<^verbatim>\<open>Kind::Chunked\<close>.\<close>

function chunked_loop ::
  "chunk_size_fun \<Rightarrow> chunked_state \<Rightarrow> nat \<Rightarrow> bytes \<Rightarrow>
     ((decode_error + payload_item option) \<times> chunked_state \<times> nat \<times> bytes) option"
where
  "chunked_loop pcs state csize src =
     (case chunked_step pcs state src csize of
        None \<Rightarrow> None
      | Some (Pending, src', csize', _) \<Rightarrow> Some (Ok None, state, csize', src')
      | Some (Ready (Err e), src', csize', _) \<Rightarrow> Some (Err e, state, csize', src')
      | Some (Ready (Ok state'), src', csize', buf) \<Rightarrow>
          (if state' = CS_End then Some (Ok (Some Eof), state', csize', src')
           else case buf of
             Some b \<Rightarrow> Some (Ok (Some (Chunk b)), state', csize', src')
           | None \<Rightarrow>
               (if src' = [] then Some (Ok None, state', csize', src')
                else chunked_loop pcs state' csize' src')))"
  by pat_completeness auto
termination
  by (relation "measure (\<lambda>(pcs, st, sz, src). 3 * length src + cs_rank st)")
    (auto dest!: chunked_step_progress)

declare chunked_loop.simps [simp del]

fun pd_decode ::
  "chunk_size_fun \<Rightarrow> payload_decoder \<Rightarrow> bytes \<Rightarrow>
     ((decode_error + payload_item option) \<times> payload_decoder \<times> bytes) option"
where
  "pd_decode pcs pd src =
     (case pd_kind pd of
        KLength remaining \<Rightarrow>
          (if remaining = 0 then Some (Ok (Some Eof), pd, src)
           else if src = [] then Some (Ok None, pd, src)
           else
             let len = length src in
             if remaining > len then
               Some (Ok (Some (Chunk src)), pd\<lparr>pd_kind := KLength (remaining - len)\<rparr>, [])
             else
               Some (Ok (Some (Chunk (take remaining src))), pd\<lparr>pd_kind := KLength 0\<rparr>,
                     drop remaining src))
      | KChunked state csize \<Rightarrow>
          (case chunked_loop pcs state csize src of
             None \<Rightarrow> None
           | Some (result, state', csize', src') \<Rightarrow>
               Some (result, pd\<lparr>pd_kind := KChunked state' csize'\<rparr>, src'))
      | KEof \<Rightarrow>
          (if src = [] then Some (Ok None, pd, src)
           else Some (Ok (Some (Chunk src)), pd, [])))"

section \<open>Draining a buffer\<close>

text \<open>
  The callers of the decoder call it until it asks for more data, reports the end or fails. The
  specification side: a run of the chunked machine over the whole buffer that collects the data.
\<close>

fun pd_measure :: "payload_decoder \<Rightarrow> nat" where
  "pd_measure pd = (case pd_kind pd of KChunked st _ \<Rightarrow> cs_rank st | _ \<Rightarrow> 0)"

lemma chunked_run_induct [case_names step]:
  assumes "\<And>st sz src. (\<And>st' sz' src' buf.
      chunked_step pcs st src sz = Some (Ready (Ok st'), src', sz', buf) \<Longrightarrow> st' \<noteq> CS_End \<Longrightarrow>
      buf \<noteq> None \<or> src' \<noteq> [] \<Longrightarrow> P st' sz' src') \<Longrightarrow> P st sz src"
  shows "P st sz src"
proof (induction "3 * length src + cs_rank st" arbitrary: st sz src rule: less_induct)
  case less
  show ?case by (rule assms) (metis less chunked_step_progress)
qed

lemma chunked_loop_chunk_progress:
  "chunked_loop pcs st sz src = Some (Ok (Some (Chunk b)), st', sz', src') \<Longrightarrow>
   3 * length src' + cs_rank st' < 3 * length src + cs_rank st"
proof (induction st sz src rule: chunked_run_induct [of pcs])
  case (step st sz src)
  from step.prems show ?case
    by (subst (asm) chunked_loop.simps)
      (auto split: option.splits poll.splits sum.splits if_splits prod.splits
        dest: chunked_step_progress intro: less_trans [OF step.IH])
qed

lemma pd_decode_chunk_progress:
  assumes "pd_decode pcs pd src = Some (Ok (Some (Chunk b)), pd', src')"
  shows "3 * length src' + pd_measure pd' < 3 * length src + pd_measure pd"
  using assms
  by (auto split: kind.splits if_splits option.splits prod.splits
      dest: chunked_loop_chunk_progress simp: Let_def)

function drain ::
  "chunk_size_fun \<Rightarrow> payload_decoder \<Rightarrow> bytes \<Rightarrow> (bytes \<times> decode_error drain_end \<times> payload_decoder \<times> bytes) option"
where
  "drain pcs pd src =
     (case pd_decode pcs pd src of
        None \<Rightarrow> None
      | Some (Err e, pd', src') \<Rightarrow> Some ([], Failed e, pd', src')
      | Some (Ok None, pd', src') \<Rightarrow> Some ([], NeedMore, pd', src')
      | Some (Ok (Some Eof), pd', src') \<Rightarrow> Some ([], AtEof, pd', src')
      | Some (Ok (Some (Chunk b)), pd', src') \<Rightarrow>
          (case drain pcs pd' src' of
             None \<Rightarrow> None
           | Some (out, r) \<Rightarrow> Some (b @ out, r)))"
  by pat_completeness auto
termination
  by (relation "measure (\<lambda>(pcs, pd, src). 3 * length src + pd_measure pd)")
    (auto simp del: pd_decode.simps pd_measure.simps dest!: pd_decode_chunk_progress)

declare drain.simps [simp del]

function chunked_run ::
  "chunk_size_fun \<Rightarrow> chunked_state \<Rightarrow> nat \<Rightarrow> bytes \<Rightarrow>
     (bytes \<times> decode_error drain_end \<times> chunked_state \<times> nat \<times> bytes) option"
where
  "chunked_run pcs st sz src =
     (case chunked_step pcs st src sz of
        None \<Rightarrow> None
      | Some (Pending, src', sz', _) \<Rightarrow> Some ([], NeedMore, st, sz', src')
      | Some (Ready (Err e), src', sz', _) \<Rightarrow> Some ([], Failed e, st, sz', src')
      | Some (Ready (Ok st'), src', sz', buf) \<Rightarrow>
          (if st' = CS_End then Some ([], AtEof, st', sz', src')
           else if buf = None \<and> src' = [] then Some ([], NeedMore, st', sz', src')
           else prepend (case buf of None \<Rightarrow> [] | Some b \<Rightarrow> b) (chunked_run pcs st' sz' src')))"
  by pat_completeness auto
termination
  by (relation "measure (\<lambda>(pcs, st, sz, src). 3 * length src + cs_rank st)")
    (auto dest!: chunked_step_progress)

declare chunked_run.simps [simp del]

lemma drain_prepend:
  "pd_decode pcs pd src = Some (Ok (Some (Chunk b)), pd', src') \<Longrightarrow>
   drain pcs pd src = prepend b (drain pcs pd' src')"
  by (subst drain.simps) (simp add: prepend_def del: pd_decode.simps)

lemma drain_chunked_loop:
  "chunked_loop pcs st sz src = chunked_loop pcs st' sz' src' \<Longrightarrow>
   drain pcs \<lparr>pd_kind = KChunked st sz\<rparr> src = drain pcs \<lparr>pd_kind = KChunked st' sz'\<rparr> src'"
  by (subst (1 2) drain.simps) (simp split: option.split)

abbreviation as_drained ::
  "(bytes \<times> decode_error drain_end \<times> chunked_state \<times> nat \<times> bytes) \<Rightarrow> bytes \<times> decode_error drain_end \<times> payload_decoder \<times> bytes" where
  "as_drained \<equiv> \<lambda>(out, e, st, sz, src). (out, e, \<lparr>pd_kind = KChunked st sz\<rparr>, src)"

lemma map_prepend [simp]: "map_option as_drained (prepend b r) = prepend b (map_option as_drained r)"
  by (auto simp: prepend_def split: option.splits)

lemma drain_chunked:
  "drain pcs \<lparr>pd_kind = KChunked st sz\<rparr> src = map_option as_drained (chunked_run pcs st sz src)"
proof (induction st sz src rule: chunked_run_induct [of pcs])
  case (step st sz src)
  show ?case
  proof (cases "\<exists>st' src' sz' buf. chunked_step pcs st src sz = Some (Ready (Ok st'), src', sz', buf) \<and>
      st' \<noteq> CS_End \<and> (buf \<noteq> None \<or> src' \<noteq> [])")
    case True
    then obtain st' src' sz' buf where s:
      "chunked_step pcs st src sz = Some (Ready (Ok st'), src', sz', buf)" "st' \<noteq> CS_End"
      "buf \<noteq> None \<or> src' \<noteq> []" by blast
    note ih = step [OF s]
    show ?thesis
    proof (cases buf)
      case None
      then have "chunked_loop pcs st sz src = chunked_loop pcs st' sz' src'"
        using s by (subst chunked_loop.simps) simp
      from drain_chunked_loop [OF this] ih s None show ?thesis
        by (subst chunked_run.simps) simp
    next
      case (Some b)
      with s have "chunked_loop pcs st sz src = Some (Ok (Some (Chunk b)), st', sz', src')"
        by (subst chunked_loop.simps) simp
      then have "drain pcs \<lparr>pd_kind = KChunked st sz\<rparr> src =
          prepend b (drain pcs \<lparr>pd_kind = KChunked st' sz'\<rparr> src')"
        by (intro drain_prepend) simp
      with ih s Some show ?thesis by (subst chunked_run.simps) simp
    qed
  next
    case False
    then show ?thesis
      by (subst drain.simps, subst chunked_run.simps)
        (auto simp: chunked_loop.simps [of pcs st sz src]
          split: option.splits poll.splits sum.splits prod.splits)
  qed
qed

section \<open>Independence of how the input is cut\<close>

text \<open>
  What the decoder relies on of \<^verbatim>\<open>parse_chunk_size\<close>: nothing is parsed from nothing, a position lies
  within the input, and data after a parsed or a malformed size line changes nothing.
\<close>

definition chunk_size_contract :: "chunk_size_fun \<Rightarrow> bool" where
  "chunk_size_contract pcs \<longleftrightarrow> pcs [] = Ok Partial \<and>
     (\<forall>src x pos sz. pcs src = Ok (Complete (pos, sz)) \<longrightarrow>
        pos \<le> length src \<and> pcs (src @ x) = Ok (Complete (pos, sz))) \<and>
     (\<forall>src x e. pcs src = Err e \<longrightarrow> pcs (src @ x) = Err e)"

lemma contract_Complete:
  "chunk_size_contract pcs \<Longrightarrow> pcs src = Ok (Complete (pos, sz)) \<Longrightarrow>
   pos \<le> length src \<and> pcs (src @ x) = Ok (Complete (pos, sz))"
  by (simp add: chunk_size_contract_def)

lemma contract_Err: "chunk_size_contract pcs \<Longrightarrow> pcs src = Err e \<Longrightarrow> pcs (src @ x) = Err e"
  by (simp add: chunk_size_contract_def)

lemma contract_Nil: "chunk_size_contract pcs \<Longrightarrow> pcs [] = Ok Partial"
  by (simp add: chunk_size_contract_def)

lemma chunked_step_Some: "chunk_size_contract pcs \<Longrightarrow> chunked_step pcs st src sz \<noteq> None"
  by (cases st)
    (auto split: sum.splits hp_status.splits prod.splits if_splits dest: contract_Complete)

lemma chunked_step_Pending:
  "chunked_step pcs st src sz = Some (Pending, src', sz', buf) \<Longrightarrow> src' = src \<and> sz' = sz"
  by (cases st; cases src)
    (auto simp: read_body_def Let_def split: sum.splits hp_status.splits prod.splits if_splits)

lemma chunked_step_Size_append:
  assumes "chunk_size_contract pcs"
    "chunked_step pcs CS_Size a sz = Some (Ready r, a', sz', buf)"
  shows "chunked_step pcs CS_Size (a @ b) sz = Some (Ready r, a' @ b, sz', buf) \<and> buf = None"
proof (cases "pcs a")
  case (Inl e)
  with assms(2) contract_Err [OF assms(1) Inl, of b] show ?thesis by auto
next
  case (Inr s)
  with assms(2) obtain pos n where s: "pcs a = Ok (Complete (pos, n))"
    by (cases s) auto
  with assms(2) contract_Complete [OF assms(1) s, of b] show ?thesis by (auto split: if_splits)
qed

lemma chunked_step_append:
  assumes "chunk_size_contract pcs" "st \<noteq> CS_Body"
    "chunked_step pcs st a sz = Some (Ready r, a', sz', buf)"
  shows "chunked_step pcs st (a @ b) sz = Some (Ready r, a' @ b, sz', buf) \<and> buf = None"
proof (cases "st = CS_Size")
  case True
  with chunked_step_Size_append [OF assms(1)] assms(3) show ?thesis by blast
next
  case False
  with assms(2,3) show ?thesis by (cases st; cases a) (auto split: if_splits)
qed

lemma chunked_run_Body_Nil: "chunked_run pcs CS_Body sz [] = Some ([], NeedMore, CS_Body, sz, [])"
  by (subst chunked_run.simps) (simp add: read_body_def)

lemma chunked_run_Body:
  "src \<noteq> [] \<Longrightarrow> chunked_run pcs CS_Body sz src =
     prepend (take sz src)
       (if sz > length src then chunked_run pcs CS_Body (sz - length src) []
        else chunked_run pcs CS_BodyCr 0 (drop sz src))"
  by (subst chunked_run.simps) (simp add: read_body_def)

lemma chunked_run_Body_split:
  "length a < sz \<Longrightarrow>
   chunked_run pcs CS_Body sz (a @ b) = prepend a (chunked_run pcs CS_Body (sz - length a) b)"
  by (cases "a = []"; cases "b = []")
    (auto simp: chunked_run_Body chunked_run_Body_Nil)

lemma drain_chunked_step:
  assumes "chunked_step pcs st src sz = Some (r, src', sz', buf)"
  shows "drain pcs \<lparr>pd_kind = KChunked st sz\<rparr> src =
    (case r of
       Pending \<Rightarrow> Some ([], NeedMore, \<lparr>pd_kind = KChunked st sz'\<rparr>, src')
     | Ready (Err e) \<Rightarrow> Some ([], Failed e, \<lparr>pd_kind = KChunked st sz'\<rparr>, src')
     | Ready (Ok st') \<Rightarrow>
         (if st' = CS_End then Some ([], AtEof, \<lparr>pd_kind = KChunked st' sz'\<rparr>, src')
          else if buf = None \<and> src' = [] then Some ([], NeedMore, \<lparr>pd_kind = KChunked st' sz'\<rparr>, src')
          else prepend (case buf of None \<Rightarrow> [] | Some b \<Rightarrow> b)
                 (drain pcs \<lparr>pd_kind = KChunked st' sz'\<rparr> src')))"
  using assms
  by (auto simp: drain_chunked chunked_run.simps [of pcs st sz src] split: poll.split sum.split)

lemma drain_chunked_Nil:
  assumes "chunk_size_contract pcs" "st \<noteq> CS_End"
  shows "drain pcs \<lparr>pd_kind = KChunked st sz\<rparr> [] =
    Some ([], NeedMore, \<lparr>pd_kind = KChunked st sz\<rparr>, [])"
  using assms(2) contract_Nil [OF assms(1)]
  by (cases st) (simp_all add: drain_chunked chunked_run.simps [of pcs _ sz "[]"] read_body_def)

lemma drain_Body_split:
  "length a < sz \<Longrightarrow> drain pcs \<lparr>pd_kind = KChunked CS_Body sz\<rparr> (a @ b) =
     prepend a (drain pcs \<lparr>pd_kind = KChunked CS_Body (sz - length a)\<rparr> b)"
  by (simp add: drain_chunked chunked_run_Body_split)

lemma drain_Body_whole:
  "sz \<le> length a \<Longrightarrow> a \<noteq> [] \<Longrightarrow> drain pcs \<lparr>pd_kind = KChunked CS_Body sz\<rparr> a =
     prepend (take sz a) (drain pcs \<lparr>pd_kind = KChunked CS_BodyCr 0\<rparr> (drop sz a))"
  by (simp add: drain_chunked chunked_run_Body)

lemma drain_chunked_append:
  assumes c: "chunk_size_contract pcs"
  shows "drain pcs \<lparr>pd_kind = KChunked st sz\<rparr> (a @ b) =
    resume (drain pcs \<lparr>pd_kind = KChunked st sz\<rparr> a) (drain pcs) b"
proof (induction st sz a rule: chunked_run_induct [of pcs])
  case (step st sz a)
  show ?case
  proof (cases "st = CS_Body")
    case True
    consider "a = []" | "length a < sz" "a \<noteq> []" | "sz \<le> length a" "a \<noteq> []" by linarith
    then show ?thesis
    proof cases
      case 1
      then show ?thesis using drain_chunked_Nil [OF c, of CS_Body sz] True by simp
    next
      case 2
      then show ?thesis
        using drain_Body_split [of a sz pcs "[]"] drain_Body_split [of a sz pcs b]
          drain_chunked_Nil [OF c] True by (simp add: resume_prepend)
    next
      case 3
      then have "chunked_step pcs st a sz =
          Some (Ready (Ok CS_BodyCr), drop sz a, 0, Some (take sz a))"
        using True by (simp add: read_body_def)
      from step [OF this] 3 True show ?thesis
        by (simp add: drain_Body_whole resume_prepend)
    qed
  next
    case False
    obtain r a' sz' buf where s: "chunked_step pcs st a sz = Some (r, a', sz', buf)"
      using chunked_step_Some [OF c] by (metis not_None_eq prod_cases4)
    show ?thesis
    proof (cases r)
      case Pending
      then show ?thesis
        using s chunked_step_Pending [of pcs st a sz] drain_chunked_step [OF s] by auto
    next
      case (Ready q)
      from chunked_step_append [OF c False s [unfolded Ready], of b]
      have s': "chunked_step pcs st (a @ b) sz = Some (Ready q, a' @ b, sz', None)" and "buf = None"
        by auto
      with drain_chunked_step [OF s'] drain_chunked_step [OF s] Ready show ?thesis
        using step [of _ a' sz' buf] drain_chunked_Nil [OF c, of _ sz'] s
        by (cases q) auto
    qed
  qed
qed

lemma drain_length:
  "drain pcs \<lparr>pd_kind = KLength n\<rparr> src =
     Some (take n src, if n \<le> length src then AtEof else NeedMore,
           \<lparr>pd_kind = KLength (n - length src)\<rparr>, drop n src)"
proof (cases "n = 0 \<or> src = []")
  case True
  then show ?thesis by (subst drain.simps) auto
next
  case False
  let ?d = "\<lparr>pd_kind = KLength (n - length src)\<rparr>"
  have "pd_decode pcs \<lparr>pd_kind = KLength n\<rparr> src = Some (Ok (Some (Chunk (take n src))), ?d, drop n src)"
    using False by (simp add: Let_def)
  from drain_prepend [OF this] show ?thesis
    using False by (simp add: drain.simps [of pcs ?d "drop n src"])
qed

lemma drain_eof:
  "drain pcs \<lparr>pd_kind = KEof\<rparr> src = Some (src, NeedMore, \<lparr>pd_kind = KEof\<rparr>, [])"
proof (cases "src = []")
  case True
  then show ?thesis by (subst drain.simps) simp
next
  case False
  then have "pd_decode pcs \<lparr>pd_kind = KEof\<rparr> src =
      Some (Ok (Some (Chunk src)), \<lparr>pd_kind = KEof\<rparr>, [])" by simp
  from drain_prepend [OF this] show ?thesis
    by (simp add: drain.simps [of pcs "\<lparr>pd_kind = KEof\<rparr>" "[]"])
qed

lemma drain_append:
  assumes "chunk_size_contract pcs"
  shows "drain pcs pd (a @ b) = resume (drain pcs pd a) (drain pcs) b"
proof (cases pd)
  case (fields k)
  then show ?thesis
    using drain_chunked_append [OF assms]
    by (cases k) (auto simp: drain_length drain_eof)
qed

interpretation payload: incremental chunk_size_contract drain
  by unfold_locales (rule drain_append)

lemma drain_total: "chunk_size_contract pcs \<Longrightarrow> drain pcs pd src \<noteq> None"
proof (cases pd)
  case (fields k)
  assume c: "chunk_size_contract pcs"
  have "drain pcs \<lparr>pd_kind = KChunked st sz\<rparr> src \<noteq> None" for st sz
  proof (induction st sz src rule: chunked_run_induct [of pcs])
    case (step st sz src)
    obtain r src' sz' buf where s: "chunked_step pcs st src sz = Some (r, src', sz', buf)"
      using chunked_step_Some [OF c] by (metis not_None_eq prod_cases4)
    show ?case
      using step [of _ src' sz' buf] s
      by (subst drain_chunked_step [OF s]) (auto split: poll.split sum.split)
  qed
  with fields show ?thesis by (cases k) (simp_all add: drain_length drain_eof)
qed

section \<open>A parser that meets the contract\<close>

text \<open>Hexadecimal digits and a line end, without extensions: an instance of the parameter \<open>pcs\<close>.\<close>

definition hex_value :: "char \<Rightarrow> nat option" where
  "hex_value c =
     (let v = byte_val c in
      if 48 \<le> v \<and> v \<le> 57 then Some (v - 48)
      else if 65 \<le> v \<and> v \<le> 70 then Some (v - 55)
      else if 97 \<le> v \<and> v \<le> 102 then Some (v - 87)
      else None)"

fun simple_chunk_size_go :: "nat \<Rightarrow> nat \<Rightarrow> chunk_size_fun" where
  "simple_chunk_size_go acc n [] = Ok Partial"
| "simple_chunk_size_go acc n (c # cs) =
     (case hex_value c of
        Some d \<Rightarrow> simple_chunk_size_go (16 * acc + d) (Suc n) cs
      | None \<Rightarrow>
          (if c = CR \<and> n > 0 then
             (case cs of
                [] \<Rightarrow> Ok Partial
              | l # _ \<Rightarrow> if l = LF then Ok (Complete (n + 2, acc)) else Err ())
           else Err ()))"

definition simple_chunk_size :: chunk_size_fun where
  "simple_chunk_size = simple_chunk_size_go 0 0"

lemma simple_chunk_size_go_Complete:
  "simple_chunk_size_go acc n src = Ok (Complete (pos, sz)) \<Longrightarrow>
   pos \<le> n + length src \<and> simple_chunk_size_go acc n (src @ x) = Ok (Complete (pos, sz))"
  by (induction acc n src rule: simple_chunk_size_go.induct)
    (auto split: option.splits list.splits if_splits)

lemma simple_chunk_size_go_Err:
  "simple_chunk_size_go acc n src = Err e \<Longrightarrow> simple_chunk_size_go acc n (src @ x) = Err e"
  by (induction acc n src rule: simple_chunk_size_go.induct)
    (auto split: option.splits list.splits if_splits)

lemma simple_chunk_size_contract: "chunk_size_contract simple_chunk_size"
  using simple_chunk_size_go_Complete [of 0 0] simple_chunk_size_go_Err [of 0 0]
  by (auto simp: chunk_size_contract_def simple_chunk_size_def)

lemma feed_length:
  "feed (drain pcs) \<lparr>pd_kind = KLength n\<rparr> buf (f # fs) =
     (let stream = buf @ concat (f # fs) in
      Some (take n stream, if n \<le> length stream then AtEof else NeedMore,
            \<lparr>pd_kind = KLength (n - length stream)\<rparr>, drop n stream))"
proof (induction fs arbitrary: n buf f)
  case Nil
  then show ?case by (simp add: drain_length)
next
  case (Cons g fs)
  define x where "x = buf @ f"
  define y where "y = concat (g # fs)"
  have "feed (drain pcs) \<lparr>pd_kind = KLength n\<rparr> buf (f # g # fs) =
      (if n \<le> length x then Some (take n x, AtEof, \<lparr>pd_kind = KLength 0\<rparr>, drop n x @ y)
       else prepend x (feed (drain pcs) \<lparr>pd_kind = KLength (n - length x)\<rparr> [] (g # fs)))"
    by (subst feed.simps(2)) (simp add: drain_length x_def y_def del: feed.simps(2))
  also have "feed (drain pcs) \<lparr>pd_kind = KLength (n - length x)\<rparr> [] (g # fs) =
      Some (take (n - length x) y, if n - length x \<le> length y then AtEof else NeedMore,
            \<lparr>pd_kind = KLength (n - length x - length y)\<rparr>, drop (n - length x) y)"
    using Cons [of "n - length x" "[]" g] by (simp add: y_def Let_def del: feed.simps)
  finally have "feed (drain pcs) \<lparr>pd_kind = KLength n\<rparr> buf (f # g # fs) =
      Some (take n (x @ y), if n \<le> length (x @ y) then AtEof else NeedMore,
            \<lparr>pd_kind = KLength (n - length (x @ y))\<rparr>, drop n (x @ y))"
    by auto
  then show ?case by (simp add: x_def y_def Let_def del: feed.simps)
qed

section \<open>Properties\<close>

text \<open>
  C14: However the bytes of a message body arrive, the payload decoder delivers the same data and ends
  in the same state with the same bytes left over as if they had arrived at once, and it never
  panics; for every kind of body, given what \<^verbatim>\<open>parse_chunk_size\<close> promises.
\<close>

theorem payload_fragmentation:
  assumes "chunk_size_contract pcs"
  shows "feed (drain pcs) pd buf (f # fs) = drain pcs pd (buf @ concat (f # fs)) \<and>
    (\<exists>r. drain pcs pd (buf @ concat (f # fs)) = Some r)"
  using payload.feed_eq_run [OF assms] drain_total [OF assms] by blast

theorem payload_fragmentation_witness:
  "feed (drain simple_chunk_size) pd_chunked [] [''3'' @ [CR], [LF] @ ''a'', ''bc'' @ CRLF @ ''0''] =
   drain simple_chunk_size pd_chunked (''3'' @ CRLF @ ''abc'' @ CRLF @ ''0'')"
  using payload_fragmentation [OF simple_chunk_size_contract, of pd_chunked "[]" "''3'' @ [CR]"
      "[[LF] @ ''a'', ''bc'' @ CRLF @ ''0'']"]
  by simp

text \<open>
  A body with a content length of \<open>n\<close>, in whatever fragments, delivers exactly the first \<open>n\<close>
  bytes of the stream, reports the end as soon as they are there, and leaves every byte after them
  in the buffer for the next message.
\<close>

lemma content_length_exact:
  "feed (drain pcs) (pd_length n) [] (f # fs) =
     Some (take n (concat (f # fs)), if n \<le> length (concat (f # fs)) then AtEof else NeedMore,
           pd_length (n - length (concat (f # fs))), drop n (concat (f # fs)))"
  using feed_length [of pcs n "[]" f fs] by (simp add: pd_length_def Let_def del: feed.simps)

end
