(* ===== verification/H1_Headers.thy ===== *)
theory H1_Headers
  imports H1_Payload
begin

text \<open>
  How the HTTP/1 decoder interprets headers (\<^verbatim>\<open>geario-http/src/h1/decoder.rs\<close>): the \<^verbatim>\<open>State\<close> it keeps
  while it reads a head, \<^verbatim>\<open>MessageType::set_header\<close>, \<^verbatim>\<open>payload_length\<close>, \<^verbatim>\<open>connection_type\<close> and the two
  \<^verbatim>\<open>set_payload_length\<close>. A trait becomes a record of its operations; \<^verbatim>\<open>atoi_simd::parse\<close> is the
  parameter \<open>atoi\<close>.
\<close>

section \<open>Model\<close>

datatype payload_type = PNone | PPayload payload_decoder | PStream payload_decoder

datatype payload_length = PLPayload payload_type | PLUpgrade | PLNone

definition pl_is_none :: "payload_length \<Rightarrow> bool" where
  "pl_is_none l \<longleftrightarrow> l = PLNone"

definition pl_is_zero :: "payload_length \<Rightarrow> bool" where
  "pl_is_zero l \<longleftrightarrow> l = PLPayload (PPayload \<lparr>pd_kind = KLength 0\<rparr>)"

abbreviation SF_HAS_UPGRADE :: u8 where "SF_HAS_UPGRADE \<equiv> 0x01"
abbreviation SF_EXPECT :: u8 where "SF_EXPECT \<equiv> 0x02"
abbreviation SF_CHUNKED :: u8 where "SF_CHUNKED \<equiv> 0x04"
abbreviation SF_SEEN_TE :: u8 where "SF_SEEN_TE \<equiv> 0x08"

record hdr_state =
  st_ka :: "connection_type option"
  st_flags :: u8
  st_content_length :: "nat option"
  st_version :: version

definition st_default :: hdr_state where
  "st_default = \<lparr>st_ka = None, st_flags = 0, st_content_length = None, st_version = HTTP_11\<rparr>"

definition st_payload_length :: "hdr_state \<Rightarrow> payload_length" where
  "st_payload_length st =
     (if fl_contains (st_flags st) SF_CHUNKED then PLPayload (PPayload pd_chunked)
      else case st_content_length st of
        Some len \<Rightarrow> PLPayload (PPayload (pd_length len))
      | None \<Rightarrow> if fl_contains (st_flags st) SF_HAS_UPGRADE then PLUpgrade else PLNone)"

text \<open>\<^verbatim>\<open>connection_type\<close>: the scan for a token that starts within the first five bytes.\<close>

definition token_at :: "string \<Rightarrow> nat \<Rightarrow> string \<Rightarrow> connection_type \<Rightarrow> (connection_type \<times> nat) option" where
  "token_at val i tok t =
     (let pos = i + length tok in
      if length val \<ge> pos \<and> eq_ignore_ascii_case (take (length tok) (drop i val)) tok
      then Some (t, pos) else None)"

definition token_here :: "string \<Rightarrow> nat \<Rightarrow> (connection_type \<times> nat) option" where
  "token_here val i =
     (let b = val ! i in
      if b = CHR ''k'' \<or> b = CHR ''K'' then token_at val i ''keep-alive'' KeepAlive
      else if b = CHR ''c'' \<or> b = CHR ''C'' then token_at val i ''close'' Close
      else if b = CHR ''u'' \<or> b = CHR ''U'' then token_at val i ''upgrade'' Upgrade
      else None)"

function connection_type_scan :: "string \<Rightarrow> nat \<Rightarrow> connection_type option" where
  "connection_type_scan val i =
     (if i \<ge> length val then None
      else if i \<ge> length ''close'' then None
      else
        case token_here val i of
          Some (t, pos) \<Rightarrow>
            (let next = pos + 1 in
             if length val > next then
               (if val ! next \<in> {CHR '' '', CHR '','', CR, LF} then Some t
                else connection_type_scan val (i + 1))
             else Some t)
        | None \<Rightarrow> connection_type_scan val (i + 1))"
  by pat_completeness auto
termination
  by (relation "measure (\<lambda>(val, i). length val - i)") auto

declare connection_type_scan.simps [simp del]

definition connection_type_of :: "string \<Rightarrow> connection_type option" where
  "connection_type_of val = connection_type_scan val 0"

text \<open>The header names the decoder looks at.\<close>

definition H_CONTENT_LENGTH :: header_name where "H_CONTENT_LENGTH = ''content-length''"
definition H_TRANSFER_ENCODING :: header_name where "H_TRANSFER_ENCODING = ''transfer-encoding''"
definition H_CONNECTION :: header_name where "H_CONNECTION = ''connection''"
definition H_UPGRADE :: header_name where "H_UPGRADE = ''upgrade''"
definition H_EXPECT :: header_name where "H_EXPECT = ''expect''"

lemmas header_name_defs = H_CONTENT_LENGTH_def H_TRANSFER_ENCODING_def H_CONNECTION_def
  H_UPGRADE_def H_EXPECT_def

lemma header_names_neq [simp]:
  "H_CONTENT_LENGTH \<noteq> H_TRANSFER_ENCODING" "H_CONTENT_LENGTH \<noteq> H_CONNECTION"
  "H_CONTENT_LENGTH \<noteq> H_UPGRADE" "H_CONTENT_LENGTH \<noteq> H_EXPECT"
  "H_TRANSFER_ENCODING \<noteq> H_CONTENT_LENGTH" "H_TRANSFER_ENCODING \<noteq> H_CONNECTION"
  "H_TRANSFER_ENCODING \<noteq> H_UPGRADE" "H_TRANSFER_ENCODING \<noteq> H_EXPECT"
  "H_CONNECTION \<noteq> H_CONTENT_LENGTH" "H_CONNECTION \<noteq> H_TRANSFER_ENCODING"
  "H_CONNECTION \<noteq> H_UPGRADE" "H_CONNECTION \<noteq> H_EXPECT"
  "H_UPGRADE \<noteq> H_CONTENT_LENGTH" "H_UPGRADE \<noteq> H_TRANSFER_ENCODING"
  "H_UPGRADE \<noteq> H_CONNECTION" "H_UPGRADE \<noteq> H_EXPECT"
  "H_EXPECT \<noteq> H_CONTENT_LENGTH" "H_EXPECT \<noteq> H_TRANSFER_ENCODING"
  "H_EXPECT \<noteq> H_CONNECTION" "H_EXPECT \<noteq> H_UPGRADE"
  by (simp_all add: header_name_defs)

text \<open>The trait \<^verbatim>\<open>MessageType\<close>. \<open>mt_decode\<close> returns \<open>None\<close> when an index is out of range.\<close>

record 't message_type =
  mt_version :: "'t \<Rightarrow> version"
  mt_headers :: "'t \<Rightarrow> header_map"
  mt_headers_mut :: "(header_map \<Rightarrow> header_map) \<Rightarrow> 't \<Rightarrow> 't"
  mt_set_headers_item :: "header_item \<Rightarrow> 't \<Rightarrow> 't"
  mt_set_payload_length :: "'t \<Rightarrow> hdr_state \<Rightarrow> payload_length \<Rightarrow> (decode_error + payload_type) \<times> 't"
  mt_decode :: "bytes \<Rightarrow> ((decode_error + 't) poll \<times> bytes) option"

text \<open>
  \<^verbatim>\<open>set_header\<close> returns the result, the state (which an error may leave changed) and the message.
\<close>

definition set_header ::
  "(bytes \<Rightarrow> nat option) \<Rightarrow> 't message_type \<Rightarrow> 't \<Rightarrow> hdr_state \<Rightarrow> header_name \<Rightarrow> header_value \<Rightarrow>
     (decode_error + unit) \<times> hdr_state \<times> 't"
where
  "set_header atoi T msg st name val =
     (let accept = (\<lambda>st'. (Ok (), st', mt_headers_mut T (\<lambda>m. hm_append m name val) msg)) in
      if name = H_CONTENT_LENGTH \<and>
         (st_content_length st \<noteq> None \<or> fl_contains (st_flags st) SF_CHUNKED)
      then (Err DHeader, st, msg)
      else if name = H_CONTENT_LENGTH then
        (case hv_to_str val of
           Ok s \<Rightarrow>
             (if take 1 (trim_start s) = ''+'' then (Err DHeader, st, msg)
              else case atoi s of
                Some len \<Rightarrow> accept (st\<lparr>st_content_length := Some len\<rparr>)
              | None \<Rightarrow> (Err DHeader, st, msg))
         | Err _ \<Rightarrow> (Err DHeader, st, msg))
      else if name = H_TRANSFER_ENCODING \<and> fl_contains (st_flags st) SF_SEEN_TE
      then (Err DHeader, st, msg)
      else if name = H_TRANSFER_ENCODING \<and> st_version st = HTTP_11 then
        (let st1 = st\<lparr>st_flags := fl_insert (st_flags st) SF_SEEN_TE\<rparr> in
         case hv_to_str val of
           Ok s \<Rightarrow>
             (if eq_ignore_ascii_case (trim s) ''chunked'' \<and> st_content_length st1 = None
              then accept (st1\<lparr>st_flags := fl_insert (st_flags st1) SF_CHUNKED\<rparr>)
              else if eq_ignore_ascii_case (trim s) ''identity'' then accept st1
              else (Err DHeader, st1, msg))
         | Err _ \<Rightarrow> (Err DHeader, st1, msg))
      else if name = H_TRANSFER_ENCODING \<and> st_version st = HTTP_10
      then (Err (InvalidInput ''Transfer-Encoding is not supported by HTTP/1.0''), st, msg)
      else if name = H_CONNECTION then
        accept (st\<lparr>st_ka := (case hv_to_str val of Ok s \<Rightarrow> connection_type_of s | Err _ \<Rightarrow> None)\<rparr>)
      else if name = H_UPGRADE then
        (let st1 = st\<lparr>st_flags := fl_insert (st_flags st) SF_HAS_UPGRADE\<rparr> in
         case hv_to_str val of
           Ok s \<Rightarrow> if eq_ignore_ascii_case (trim s) ''websocket''
                   then accept (st1\<lparr>st_content_length := None\<rparr>) else accept st1
         | Err _ \<Rightarrow> accept st1)
      else if name = H_EXPECT then
        (if length (hv_inner val) \<ge> 4 \<and> take 4 (hv_inner val) = ''100-''
         then accept (st\<lparr>st_flags := fl_insert (st_flags st) SF_EXPECT\<rparr>)
         else accept st)
      else accept st)"

text \<open>\<^verbatim>\<open>set_payload_length\<close> of requests and of responses.\<close>

definition rq_set_payload_length ::
  "request_head \<Rightarrow> hdr_state \<Rightarrow> payload_length \<Rightarrow> (decode_error + payload_type) \<times> request_head" where
  "rq_set_payload_length h st len =
     (if rq_version h = HTTP_10 \<and> rq_method h = ''POST'' \<and> pl_is_none len then (Err DHeader, h)
      else
        let h1 = (case st_ka st of Some ct \<Rightarrow> rq_set_connection_type ct h | None \<Rightarrow> h);
            h2 = (if fl_contains (st_flags st) SF_EXPECT then rq_set_expect h1 else h1);
            len' = (if pl_is_zero len then PLNone else len)
        in case len' of
             PLPayload pl \<Rightarrow> (Ok pl, h2)
           | PLUpgrade \<Rightarrow> (Ok (PStream pd_eof), rq_set_upgrade h2)
           | PLNone \<Rightarrow>
               (if rq_method h2 = ''CONNECT'' then (Ok (PStream pd_eof), rq_set_upgrade h2)
                else (Ok PNone, h2)))"

definition rs_set_payload_length ::
  "response_head \<Rightarrow> hdr_state \<Rightarrow> payload_length \<Rightarrow> (decode_error + payload_type) \<times> response_head" where
  "rs_set_payload_length h st len =
     (let len' = (if pl_is_zero len then PLNone else len);
          h1 = (case st_ka st of Some ka \<Rightarrow> rs_set_connection_type ka h | None \<Rightarrow> h)
      in case len' of
           PLPayload pl \<Rightarrow> (Ok pl, h1)
         | _ \<Rightarrow>
             (if rs_status h1 = 101 then (Ok (PStream pd_eof), h1)
              else if rs_version h1 = HTTP_10
              then (Ok (PPayload pd_eof), rs_set_connection_type Close h1)
              else (Ok PNone, h1)))"

section \<open>Framing\<close>

text \<open>
  The invariant of the state: a chunked body excludes a content length and stems from a
  \<^verbatim>\<open>Transfer-Encoding\<close> header of an HTTP/1.1 message.
\<close>

definition st_framed :: "hdr_state \<Rightarrow> bool" where
  "st_framed st \<longleftrightarrow>
     (fl_contains (st_flags st) SF_CHUNKED \<longrightarrow>
        st_content_length st = None \<and> fl_contains (st_flags st) SF_SEEN_TE \<and> st_version st = HTTP_11)"

lemma st_framed_default: "st_framed (st_default\<lparr>st_version := v\<rparr>)"
  by (simp add: st_framed_def st_default_def flag_simps)

lemma set_header_framed:
  assumes "set_header atoi T msg st name val = (r, st', msg')" "st_framed st"
  shows "st_framed st' \<and> st_version st' = st_version st"
  using assms
  by (auto simp: set_header_def st_framed_def Let_def flag_simps
      split: if_splits sum.splits option.splits)

lemma set_header_msg:
  "set_header atoi T msg st name val = (Ok u, st', msg') \<Longrightarrow>
   msg' = mt_headers_mut T (\<lambda>m. hm_append m name val) msg"
  by (auto simp: set_header_def Let_def split: if_splits sum.splits option.splits)

text \<open>A head is a list of headers; reading it stops at the first error.\<close>

fun set_headers ::
  "(bytes \<Rightarrow> nat option) \<Rightarrow> 't message_type \<Rightarrow> 't \<Rightarrow> hdr_state \<Rightarrow> (header_name \<times> header_value) list \<Rightarrow>
     (decode_error + unit) \<times> hdr_state \<times> 't"
where
  "set_headers atoi T msg st [] = (Ok (), st, msg)"
| "set_headers atoi T msg st ((n, v) # hs) =
     (case set_header atoi T msg st n v of
        (Err e, st', msg') \<Rightarrow> (Err e, st', msg')
      | (Ok _, st', msg') \<Rightarrow> set_headers atoi T msg' st' hs)"

abbreviation named :: "string \<Rightarrow> (header_name \<times> header_value) list \<Rightarrow> header_value list" where
  "named n hs \<equiv> map snd (filter (\<lambda>h. fst h = n) hs)"

definition says :: "string \<Rightarrow> header_value \<Rightarrow> bool" where
  "says w v = (case hv_to_str v of Ok s \<Rightarrow> eq_ignore_ascii_case (trim s) w | Err _ \<Rightarrow> False)"

text \<open>
  What the state knows of the headers \<open>hs\<close> read so far, for a message of version \<open>v\<close>: the content
  length is that of the one \<^verbatim>\<open>Content-Length\<close> header, unless a websocket upgrade cleared it.
\<close>

definition websocket_upgrade :: "(header_name \<times> header_value) list \<Rightarrow> bool" where
  "websocket_upgrade hs \<longleftrightarrow> (\<exists>u\<in>set (named H_UPGRADE hs). says ''websocket'' u)"

definition length_of :: "(bytes \<Rightarrow> nat option) \<Rightarrow> header_value list \<Rightarrow> nat option" where
  "length_of atoi vs = (case vs of [] \<Rightarrow> None | v # _ \<Rightarrow> atoi (hv_inner v))"

definition history ::
  "(bytes \<Rightarrow> nat option) \<Rightarrow> version \<Rightarrow> (header_name \<times> header_value) list \<Rightarrow> hdr_state \<Rightarrow> bool" where
  "history atoi v hs st \<longleftrightarrow> st_version st = v \<and> st_framed st \<and>
     (fl_contains (st_flags st) SF_SEEN_TE \<longleftrightarrow> named H_TRANSFER_ENCODING hs \<noteq> []) \<and>
     length (named H_TRANSFER_ENCODING hs) \<le> 1 \<and>
     (v = HTTP_10 \<longrightarrow> named H_TRANSFER_ENCODING hs = []) \<and>
     (\<forall>t\<in>set (named H_TRANSFER_ENCODING hs). says ''chunked'' t \<or> says ''identity'' t) \<and>
     (fl_contains (st_flags st) SF_CHUNKED \<longleftrightarrow>
        (\<exists>t\<in>set (named H_TRANSFER_ENCODING hs). says ''chunked'' t)) \<and>
     (fl_contains (st_flags st) SF_HAS_UPGRADE \<longleftrightarrow> named H_UPGRADE hs \<noteq> []) \<and>
     (\<not> websocket_upgrade hs \<longrightarrow>
        length (named H_CONTENT_LENGTH hs) \<le> 1 \<and>
        st_content_length st = length_of atoi (named H_CONTENT_LENGTH hs) \<and>
        (named H_CONTENT_LENGTH hs = [] \<or> length_of atoi (named H_CONTENT_LENGTH hs) \<noteq> None))"

lemma history_Nil: "history atoi v [] (st_default\<lparr>st_version := v\<rparr>)"
  by (simp add: history_def st_framed_default) (simp add: st_default_def length_of_def flag_simps)

lemma says_chunked_identity: "says ''chunked'' t \<Longrightarrow> \<not> says ''identity'' t"
  by (auto simp: says_def eq_ignore_ascii_case_def split: sum.splits)

lemma websocket_upgrade_snoc:
  "websocket_upgrade (hs @ [(n, val)]) \<longleftrightarrow>
     websocket_upgrade hs \<or> n = H_UPGRADE \<and> says ''websocket'' val"
  by (auto simp: websocket_upgrade_def)

text \<open>One header of each kind extends the history.\<close>

lemma set_header_cl_Ok:
  assumes "set_header atoi T msg st H_CONTENT_LENGTH val = (Ok u, st', msg')"
  shows "st_content_length st = None \<and> \<not> fl_contains (st_flags st) SF_CHUNKED \<and>
    (\<exists>n. atoi (hv_inner val) = Some n \<and> st' = st\<lparr>st_content_length := Some n\<rparr>)"
  using assms
  by (auto simp: set_header_def hv_to_str_Ok_iff split: if_splits sum.splits option.splits)

lemma history_no_length:
  "history atoi v hs st \<Longrightarrow> st_content_length st = None \<Longrightarrow> \<not> websocket_upgrade hs \<Longrightarrow>
   named H_CONTENT_LENGTH hs = []"
  unfolding history_def by metis

lemma history_content_length:
  assumes h: "history atoi v hs st"
    and r: "set_header atoi T msg st H_CONTENT_LENGTH val = (Ok u, st', msg')"
  shows "history atoi v (hs @ [(H_CONTENT_LENGTH, val)]) st'"
proof -
  from set_header_cl_Ok [OF r] obtain n where n: "st_content_length st = None"
    "\<not> fl_contains (st_flags st) SF_CHUNKED" "atoi (hv_inner val) = Some n"
    "st' = st\<lparr>st_content_length := Some n\<rparr>" by blast
  with history_no_length [OF h] h show ?thesis
    by (simp add: history_def st_framed_def websocket_upgrade_snoc length_of_def) blast
qed

lemma set_header_te_Ok:
  assumes "set_header atoi T msg st H_TRANSFER_ENCODING val = (Ok u, st', msg')"
    "st_version st \<in> {HTTP_10, HTTP_11}"
  shows "st_version st = HTTP_11 \<and> \<not> fl_contains (st_flags st) SF_SEEN_TE \<and>
    (says ''chunked'' val \<and> st_content_length st = None \<and>
       st' = st\<lparr>st_flags := fl_insert (fl_insert (st_flags st) SF_SEEN_TE) SF_CHUNKED\<rparr> \<or>
     says ''identity'' val \<and> st' = st\<lparr>st_flags := fl_insert (st_flags st) SF_SEEN_TE\<rparr>)"
  using assms
  by (auto simp: set_header_def Let_def says_def split: if_splits sum.splits)

lemma history_transfer_encoding:
  assumes h: "history atoi v hs st" and v: "st_version st \<in> {HTTP_10, HTTP_11}"
    and r: "set_header atoi T msg st H_TRANSFER_ENCODING val = (Ok u, st', msg')"
  shows "history atoi v (hs @ [(H_TRANSFER_ENCODING, val)]) st'"
proof -
  note ok = set_header_te_Ok [OF r v]
  from h have "st_version st = v" "st_framed st"
    and "fl_contains (st_flags st) SF_SEEN_TE \<longleftrightarrow> named H_TRANSFER_ENCODING hs \<noteq> []"
    unfolding history_def by blast+
  with ok have v11: "v = HTTP_11" "st_version st = HTTP_11"
    and te: "named H_TRANSFER_ENCODING hs = []" and nc: "\<not> fl_contains (st_flags st) SF_CHUNKED"
    unfolding st_framed_def by blast+
  have ws: "websocket_upgrade (hs @ [(H_TRANSFER_ENCODING, val)]) = websocket_upgrade hs"
    by (simp add: websocket_upgrade_snoc)
  from ok show ?thesis
  proof (elim conjE disjE)
    assume "says ''chunked'' val" "st_content_length st = None"
      "st' = st\<lparr>st_flags := fl_insert (fl_insert (st_flags st) SF_SEEN_TE) SF_CHUNKED\<rparr>"
    with history_no_length [OF h] h v11 te nc ws show ?thesis
      by (simp add: history_def st_framed_def flag_simps length_of_def)
  next
    assume "says ''identity'' val" "st' = st\<lparr>st_flags := fl_insert (st_flags st) SF_SEEN_TE\<rparr>"
    with h v11 te nc ws says_chunked_identity [of val] show ?thesis
      by (simp add: history_def st_framed_def flag_simps) blast
  qed
qed

lemma set_header_upgrade_Ok:
  assumes "set_header atoi T msg st H_UPGRADE val = (Ok u, st', msg')"
  shows "st' = (let st1 = st\<lparr>st_flags := fl_insert (st_flags st) SF_HAS_UPGRADE\<rparr>
    in if says ''websocket'' val then st1\<lparr>st_content_length := None\<rparr> else st1)"
  using assms
  by (auto simp: set_header_def Let_def says_def split: if_splits sum.splits)

lemma history_upgrade:
  assumes "history atoi v hs st" "set_header atoi T msg st H_UPGRADE val = (Ok u, st', msg')"
  shows "history atoi v (hs @ [(H_UPGRADE, val)]) st'"
proof -
  have "st_framed st'"
    using set_header_framed [OF assms(2)] assms(1) by (simp add: history_def)
  then show ?thesis
    using assms(1) set_header_upgrade_Ok [OF assms(2)]
    by (cases "says ''websocket'' val")
      (simp_all add: history_def websocket_upgrade_snoc Let_def flag_simps)
qed

lemma set_header_other_Ok:
  assumes "set_header atoi T msg st n val = (Ok u, st', msg')"
    "n \<noteq> H_CONTENT_LENGTH" "n \<noteq> H_TRANSFER_ENCODING" "n \<noteq> H_UPGRADE"
  shows "st' = st\<lparr>st_ka := st_ka st', st_flags := st_flags st'\<rparr> \<and>
    (st_flags st' = st_flags st \<or> st_flags st' = fl_insert (st_flags st) SF_EXPECT)"
  using assms by (auto simp: set_header_def Let_def split: if_splits)

lemma history_other:
  assumes h: "history atoi v hs st" and r: "set_header atoi T msg st n val = (Ok u, st', msg')"
    and n: "n \<noteq> H_CONTENT_LENGTH" "n \<noteq> H_TRANSFER_ENCODING" "n \<noteq> H_UPGRADE"
  shows "history atoi v (hs @ [(n, val)]) st'"
proof -
  from set_header_other_Ok [OF r n] obtain k fl where
    "st' = st\<lparr>st_ka := k, st_flags := fl\<rparr>" "fl = st_flags st \<or> fl = fl_insert (st_flags st) SF_EXPECT"
    by metis
  moreover have "st_framed st'"
    using set_header_framed [OF r] h by (simp add: history_def)
  ultimately show ?thesis
    using h n by (elim disjE) (simp_all add: history_def websocket_upgrade_snoc flag_simps)
qed

lemma history_step:
  assumes "history atoi v hs st" "v \<in> {HTTP_10, HTTP_11}"
    "set_header atoi T msg st n val = (Ok u, st', msg')"
  shows "history atoi v (hs @ [(n, val)]) st'"
proof -
  have "st_version st = v" using assms(1) by (simp add: history_def)
  with assms history_content_length history_transfer_encoding history_upgrade history_other
  show ?thesis by metis
qed

lemma set_headers_append:
  "set_headers atoi T msg st (hs @ [(n, val)]) =
     (case set_headers atoi T msg st hs of
        (Err e, st', msg') \<Rightarrow> (Err e, st', msg')
      | (Ok _, st', msg') \<Rightarrow> set_header atoi T msg' st' n val)"
  by (induction hs arbitrary: msg st) (auto split: prod.splits sum.splits)

lemma set_headers_history:
  assumes "v \<in> {HTTP_10, HTTP_11}"
  shows "set_headers atoi T msg (st_default\<lparr>st_version := v\<rparr>) hs = (Ok u, st, msg') \<Longrightarrow>
    history atoi v hs st"
proof (induction hs arbitrary: u st msg' rule: rev_induct)
  case Nil
  then show ?case using history_Nil by auto
next
  case (snoc h hs)
  obtain n val where h: "h = (n, val)" by (cases h)
  obtain r st1 m1 where s: "set_headers atoi T msg (st_default\<lparr>st_version := v\<rparr>) hs = (r, st1, m1)"
    by (metis prod_cases3)
  with snoc.prems h obtain u1 where r: "r = Ok u1" and s2: "set_header atoi T m1 st1 n val = (Ok u, st, msg')"
    by (auto simp: set_headers_append split: sum.splits)
  from snoc.IH [OF s [unfolded r]] have "history atoi v hs st1" .
  from history_step [OF this assms s2] show ?case by (simp add: h)
qed

lemma history_framing:
  assumes h: "history atoi v hs st" and ws: "\<not> websocket_upgrade hs"
  shows "length (named H_CONTENT_LENGTH hs) \<le> 1 \<and> length (named H_TRANSFER_ENCODING hs) \<le> 1 \<and>
    (v = HTTP_10 \<longrightarrow> named H_TRANSFER_ENCODING hs = []) \<and>
    ((\<exists>t\<in>set (named H_TRANSFER_ENCODING hs). says ''chunked'' t) \<longrightarrow> named H_CONTENT_LENGTH hs = []) \<and>
    st_payload_length st =
      (if \<exists>t\<in>set (named H_TRANSFER_ENCODING hs). says ''chunked'' t then PLPayload (PPayload pd_chunked)
       else case named H_CONTENT_LENGTH hs of
         c # _ \<Rightarrow> PLPayload (PPayload (pd_length (the (atoi (hv_inner c)))))
       | [] \<Rightarrow> if named H_UPGRADE hs \<noteq> [] then PLUpgrade else PLNone)"
proof -
  have nochunk: "named H_CONTENT_LENGTH hs = []" if "fl_contains (st_flags st) SF_CHUNKED"
  proof (rule history_no_length [OF h _ ws])
    have "st_framed st" using h unfolding history_def by (elim conjE)
    with that show "st_content_length st = None" by (simp add: st_framed_def)
  qed
  have cl: "st_content_length st = length_of atoi (named H_CONTENT_LENGTH hs)"
    "named H_CONTENT_LENGTH hs = [] \<or> length_of atoi (named H_CONTENT_LENGTH hs) \<noteq> None"
    using h ws unfolding history_def by blast+
  have "st_payload_length st =
      (if fl_contains (st_flags st) SF_CHUNKED then PLPayload (PPayload pd_chunked)
       else case named H_CONTENT_LENGTH hs of
         c # _ \<Rightarrow> PLPayload (PPayload (pd_length (the (atoi (hv_inner c)))))
       | [] \<Rightarrow> if fl_contains (st_flags st) SF_HAS_UPGRADE then PLUpgrade else PLNone)"
    using cl by (auto simp: st_payload_length_def length_of_def split: list.split)
  with nochunk h ws show ?thesis unfolding history_def by simp
qed

section \<open>The two instances of the trait\<close>

text \<open>
  The laws the message decoder relies on: updating the headers changes nothing but the headers, and
  neither a header item nor the payload length touches them.
\<close>

locale message_ops =
  fixes T :: "'t message_type"
  assumes headers_mut: "mt_headers T (mt_headers_mut T f m) = f (mt_headers T m)"
    and version_mut: "mt_version T (mt_headers_mut T f m) = mt_version T m"
    and headers_item: "mt_headers T (mt_set_headers_item T i m) = mt_headers T m"
    and version_item: "mt_version T (mt_set_headers_item T i m) = mt_version T m"
    and headers_length: "mt_headers T (snd (mt_set_payload_length T m st len)) = mt_headers T m"
begin

lemma set_headers_values:
  "set_headers atoi T msg st hs = (Ok u, st', msg') \<Longrightarrow> hm_invar (mt_headers T msg) \<Longrightarrow>
   hm_invar (mt_headers T msg') \<and>
   hm_values (mt_headers T msg') n = hm_values (mt_headers T msg) n @ named n hs"
proof (induction hs arbitrary: msg st)
  case Nil
  then show ?case by simp
next
  case (Cons h hs)
  obtain k v where h: "h = (k, v)" by (cases h)
  obtain r st1 m1 where s: "set_header atoi T msg st k v = (r, st1, m1)" by (metis prod_cases3)
  with Cons.prems h obtain u1 where r: "r = Ok u1" and rest: "set_headers atoi T m1 st1 hs = (Ok u, st', msg')"
    by (auto split: sum.splits)
  have m1: "mt_headers T m1 = hm_append (mt_headers T msg) k v"
    using set_header_msg [OF s [unfolded r]] headers_mut by simp
  have "hm_invar (mt_headers T m1)" using m1 Cons.prems(2) by (simp add: hm.invar_append)
  from Cons.IH [OF rest this] m1 Cons.prems(2) h show ?case by (simp add: hm.vals_append)
qed

end

text \<open>\<open>decode\<close> is the first-line parser of the instance, defined with the message decoder.\<close>

definition request_type ::
  "(bytes \<Rightarrow> ((decode_error + request_head) poll \<times> bytes) option) \<Rightarrow> request_head message_type" where
  "request_type decode =
     \<lparr>mt_version = rq_version, mt_headers = rq_headers, mt_headers_mut = rq_headers_update,
      mt_set_headers_item = (\<lambda>item h. h\<lparr>rq_headers_vec := rq_headers_vec h @ [item]\<rparr>),
      mt_set_payload_length = rq_set_payload_length, mt_decode = decode\<rparr>"

definition response_type ::
  "(bytes \<Rightarrow> ((decode_error + response_head) poll \<times> bytes) option) \<Rightarrow> response_head message_type" where
  "response_type decode =
     \<lparr>mt_version = rs_version, mt_headers = rs_headers, mt_headers_mut = rs_headers_update,
      mt_set_headers_item = (\<lambda>item h. h\<lparr>rs_headers_vec := rs_headers_vec h @ [item]\<rparr>),
      mt_set_payload_length = rs_set_payload_length, mt_decode = decode\<rparr>"

lemma rq_set_connection_type_headers [simp]:
  "rq_headers (rq_set_connection_type ct h) = rq_headers h"
  "rq_method (rq_set_connection_type ct h) = rq_method h"
  "rq_version (rq_set_connection_type ct h) = rq_version h"
  by (cases ct; simp)+

lemma rs_set_connection_type_headers [simp]:
  "rs_headers (rs_set_connection_type ct h) = rs_headers h"
  "rs_status (rs_set_connection_type ct h) = rs_status h"
  "rs_version (rs_set_connection_type ct h) = rs_version h"
  by (cases ct; simp)+

interpretation rq_ops: message_ops "request_type decode"
  by unfold_locales
    (auto simp: request_type_def rq_set_payload_length_def rq_set_expect_def rq_set_upgrade_def
      Let_def split: payload_length.splits option.splits)

interpretation rs_ops: message_ops "response_type decode"
  by unfold_locales
    (auto simp: response_type_def rs_set_payload_length_def Let_def
      split: payload_length.splits option.splits)

section \<open>Connection tokens\<close>

fun ct_token :: "connection_type \<Rightarrow> string" where
  "ct_token Close = ''close''"
| "ct_token KeepAlive = ''keep-alive''"
| "ct_token Upgrade = ''upgrade''"

definition token_occurs :: "string \<Rightarrow> nat \<Rightarrow> connection_type \<Rightarrow> bool" where
  "token_occurs val i t \<longleftrightarrow> i + length (ct_token t) \<le> length val \<and>
     eq_ignore_ascii_case (take (length (ct_token t)) (drop i val)) (ct_token t)"

lemma token_at_Some:
  "token_at val i (ct_token t') t' = Some (t, pos) \<Longrightarrow>
   t = t' \<and> pos = i + length (ct_token t) \<and> token_occurs val i t"
  by (auto simp: token_at_def token_occurs_def Let_def split: if_splits)

lemma token_here_Some: "token_here val i = Some (t, pos) \<Longrightarrow> token_occurs val i t"
  using token_at_Some [of val i Close] token_at_Some [of val i KeepAlive]
    token_at_Some [of val i Upgrade]
  by (auto simp: token_here_def Let_def split: if_splits)

lemma connection_type_scan_sound:
  "connection_type_scan val i = Some t \<Longrightarrow> \<exists>j\<ge>i. j < 5 \<and> token_occurs val j t"
proof (induction "length val - i" arbitrary: i rule: less_induct)
  case less
  from less.prems have lt: "i < length val" "i < 5"
    by (subst (asm) connection_type_scan.simps; simp split: if_splits)+
  from less.prems have "(\<exists>pos. token_here val i = Some (t, pos)) \<or>
      connection_type_scan val (i + 1) = Some t"
    by (subst (asm) connection_type_scan.simps) (auto simp: Let_def split: if_splits option.splits)
  then show ?case
  proof
    assume "\<exists>pos. token_here val i = Some (t, pos)"
    with token_here_Some lt show ?thesis by blast
  next
    assume "connection_type_scan val (i + 1) = Some t"
    moreover have "length val - (i + 1) < length val - i" using lt by simp
    ultimately obtain j where "i + 1 \<le> j" "j < 5" "token_occurs val j t"
      using less.hyps by blast
    then show ?thesis by (intro exI [of _ j]) simp
  qed
qed

text \<open>A value that starts with a token: the scan finds it at the start and no other token within it.\<close>

lemma eq_ignore_length: "eq_ignore_ascii_case a b \<Longrightarrow> length a = length b"
  unfolding eq_ignore_ascii_case_def by (rule map_eq_imp_length_eq)

lemma eq_ignore_nth:
  assumes "eq_ignore_ascii_case a b" "i < length b"
  shows "to_ascii_lowercase (a ! i) = to_ascii_lowercase (b ! i)"
  using arg_cong [OF assms(1) [unfolded eq_ignore_ascii_case_def], of "\<lambda>l. l ! i"] eq_ignore_length [OF assms(1)] assms(2) by simp

lemma to_ascii_lowercase_eq:
  "to_ascii_lowercase c = d \<Longrightarrow> c = d \<or> c = char_of (byte_val d - 32)"
  by (auto simp: to_ascii_lowercase_def byte_val_def Let_def split: if_splits)

lemma token_first:
  "eq_ignore_ascii_case tok ''close'' \<Longrightarrow> tok ! 0 \<in> {CHR ''c'', CHR ''C''}"
  "eq_ignore_ascii_case tok ''keep-alive'' \<Longrightarrow> tok ! 0 \<in> {CHR ''k'', CHR ''K''}"
  "eq_ignore_ascii_case tok ''upgrade'' \<Longrightarrow> tok ! 0 \<in> {CHR ''u'', CHR ''U''}"
  by (drule eq_ignore_nth [where i = 0], simp,
      drule to_ascii_lowercase_eq, simp add: to_ascii_lowercase_def byte_val_def char_of_def bit_0)+

lemma token_here_start:
  assumes "eq_ignore_ascii_case tok (ct_token t)"
  shows "token_here (tok @ rest) 0 = Some (t, length tok)"
proof -
  have "token_at (tok @ rest) 0 (ct_token t) t = Some (t, length tok)"
    using assms eq_ignore_length [OF assms] by (simp add: token_at_def)
  moreover have "0 < length tok" using eq_ignore_length [OF assms] by (cases t) simp_all
  ultimately show ?thesis
    using assms token_first [of tok] by (cases t) (auto simp: token_here_def nth_append)
qed

lemma token_inside:
  assumes "eq_ignore_ascii_case tok (ct_token t)" "i \<in> {1, 2, 3, 4}"
  shows "token_here (tok @ rest) i = None"
proof -
  have i: "i < length (ct_token t)" using assms(2) by (cases t) auto
  have "to_ascii_lowercase (tok ! i) \<notin> {CHR ''k'', CHR ''c'', CHR ''u''}"
    using eq_ignore_nth [OF assms(1) i] assms(2)
    by (cases t) (auto simp: to_ascii_lowercase_def byte_val_def)
  then have "tok ! i \<notin> {CHR ''k'', CHR ''K'', CHR ''c'', CHR ''C'', CHR ''u'', CHR ''U''}"
    by (auto simp: to_ascii_lowercase_def byte_val_def char_of_def bit_0)
  then show ?thesis
    using i eq_ignore_length [OF assms(1)] by (simp add: token_here_def nth_append)
qed

lemma connection_type_scan_inside:
  assumes "eq_ignore_ascii_case tok (ct_token t)"
  shows "connection_type_scan (tok @ rest) 1 = None"
proof -
  have step: "connection_type_scan (tok @ rest) i = connection_type_scan (tok @ rest) (Suc i)" if "i \<in> {1, 2, 3, 4}" for i
    using token_inside [OF assms that] that
    by (auto simp: connection_type_scan.simps [of "tok @ rest" i] connection_type_scan.simps [of "tok @ rest" "Suc i"])
  have "connection_type_scan (tok @ rest) 5 = None" by (simp add: connection_type_scan.simps)
  with step [of 1] step [of 2] step [of 3] step [of 4] show ?thesis by (simp add: numeral_eq_Suc)
qed

section \<open>Both lengths\<close>

text \<open>Headers that are neither of the two lengths are always accepted; of the framing, a websocket upgrade clears the length.\<close>

definition neutral :: "(header_name \<times> header_value) list \<Rightarrow> bool" where
  "neutral hs \<longleftrightarrow> list_all (\<lambda>(n, _). n \<noteq> H_CONTENT_LENGTH \<and> n \<noteq> H_TRANSFER_ENCODING) hs"

definition same_framing :: "(header_name \<times> header_value) list \<Rightarrow> hdr_state \<Rightarrow> hdr_state \<Rightarrow> bool" where
  "same_framing hs st st' \<longleftrightarrow> st_version st' = st_version st \<and>
     (fl_contains (st_flags st') SF_CHUNKED \<longleftrightarrow> fl_contains (st_flags st) SF_CHUNKED) \<and>
     (fl_contains (st_flags st') SF_SEEN_TE \<longleftrightarrow> fl_contains (st_flags st) SF_SEEN_TE) \<and>
     st_content_length st' = (if websocket_upgrade hs then None else st_content_length st)"

definition length_value :: "(bytes \<Rightarrow> nat option) \<Rightarrow> header_value \<Rightarrow> bool" where
  "length_value atoi c \<longleftrightarrow>
     (case hv_to_str c of Ok s \<Rightarrow> take 1 (trim_start s) \<noteq> ''+'' \<and> atoi s \<noteq> None | Err _ \<Rightarrow> False)"

lemma neutral_named: "neutral hs \<Longrightarrow> named H_CONTENT_LENGTH hs = [] \<and> named H_TRANSFER_ENCODING hs = []"
  by (induction hs) (auto simp: neutral_def)

lemma set_headers_append2:
  "set_headers atoi T msg st (hs @ hs') =
     (case set_headers atoi T msg st hs of
        (Err e, st', msg') \<Rightarrow> (Err e, st', msg')
      | (Ok _, st', msg') \<Rightarrow> set_headers atoi T msg' st' hs')"
  by (induction hs arbitrary: msg st) (auto split: prod.splits sum.splits)

lemma set_header_accepted:
  assumes "n \<noteq> H_CONTENT_LENGTH" "n \<noteq> H_TRANSFER_ENCODING"
  shows "\<exists>st' msg'. set_header atoi T msg st n v = (Ok (), st', msg') \<and> same_framing [(n, v)] st st'"
  using assms
  by (auto simp: set_header_def same_framing_def websocket_upgrade_def says_def Let_def flag_simps split: sum.split)

lemma set_headers_accepted:
  "neutral hs \<Longrightarrow> \<exists>st' msg'. set_headers atoi T msg st hs = (Ok (), st', msg') \<and> same_framing hs st st'"
proof (induction hs arbitrary: msg st)
  case Nil
  then show ?case by (simp add: same_framing_def websocket_upgrade_def)
next
  case (Cons h hs)
  obtain n v where h: "h = (n, v)" by (cases h)
  with Cons.prems obtain st1 m1 where 1: "set_header atoi T msg st n v = (Ok (), st1, m1)" "same_framing [(n, v)] st st1"
    using set_header_accepted [of n atoi T msg st v] by (auto simp: neutral_def)
  from Cons.IH [of m1 st1] Cons.prems obtain st2 m2 where "set_headers atoi T m1 st1 hs = (Ok (), st2, m2)" "same_framing hs st1 st2"
    by (auto simp: neutral_def)
  with 1 h show ?case by (auto simp: same_framing_def websocket_upgrade_def)
qed

lemma set_header_cl_accepted:
  assumes "length_value atoi c" "st_content_length st = None" "\<not> fl_contains (st_flags st) SF_CHUNKED"
  shows "\<exists>n. set_header atoi T msg st H_CONTENT_LENGTH c =
    (Ok (), st\<lparr>st_content_length := Some n\<rparr>, mt_headers_mut T (\<lambda>m. hm_append m H_CONTENT_LENGTH c) msg)"
  using assms by (auto simp: set_header_def length_value_def Let_def split: sum.splits)

lemma set_header_te_chunked:
  assumes "says ''chunked'' t" "st_version st = HTTP_11" "\<not> fl_contains (st_flags st) SF_SEEN_TE"
  shows "if st_content_length st = None
    then \<exists>st' msg'. set_header atoi T msg st H_TRANSFER_ENCODING t = (Ok (), st', msg') \<and> fl_contains (st_flags st') SF_CHUNKED
    else \<exists>st' msg'. set_header atoi T msg st H_TRANSFER_ENCODING t = (Err DHeader, st', msg')"
  using assms says_chunked_identity [OF assms(1)]
  by (auto simp: set_header_def says_def Let_def flag_simps split: sum.splits)

section \<open>Properties\<close>

text \<open>A plain decimal parser, an instance of the parameter \<open>atoi\<close>.\<close>

fun simple_atoi_go :: "nat \<Rightarrow> bytes \<Rightarrow> nat option" where
  "simple_atoi_go acc [] = Some acc"
| "simple_atoi_go acc (c # cs) =
     (if 48 \<le> byte_val c \<and> byte_val c \<le> 57 then simple_atoi_go (10 * acc + (byte_val c - 48)) cs
      else None)"

definition simple_atoi :: "bytes \<Rightarrow> nat option" where
  "simple_atoi bs = (if bs = [] then None else simple_atoi_go 0 bs)"

definition plain :: "string \<Rightarrow> header_value" where
  "plain s = \<lparr>hv_inner = s, hv_is_sensitive = False\<rparr>"

text \<open>
  C19: The body length of an accepted head is never ambiguous. When the decoder accepts the headers of
  an HTTP/1.0 or HTTP/1.1 message without a websocket upgrade, there was at most one
  \<^verbatim>\<open>Content-Length\<close> and at most one \<^verbatim>\<open>Transfer-Encoding\<close>, none of the latter in HTTP/1.0, a chunked
  body excludes a content length, and the body is read as chunked exactly if the transfer encoding
  says so, otherwise by the value of the one content length.
\<close>

theorem framing_unambiguous:
  assumes "v = HTTP_10 \<or> v = HTTP_11"
    "set_headers atoi T msg (st_default\<lparr>st_version := v\<rparr>) hs = (Ok u, st, msg')"
    "\<not> websocket_upgrade hs"
  shows "length (named H_CONTENT_LENGTH hs) \<le> 1 \<and> length (named H_TRANSFER_ENCODING hs) \<le> 1 \<and>
    (v = HTTP_10 \<longrightarrow> named H_TRANSFER_ENCODING hs = []) \<and>
    ((\<exists>t\<in>set (named H_TRANSFER_ENCODING hs). says ''chunked'' t) \<longrightarrow> named H_CONTENT_LENGTH hs = []) \<and>
    st_payload_length st =
      (if \<exists>t\<in>set (named H_TRANSFER_ENCODING hs). says ''chunked'' t then PLPayload (PPayload pd_chunked)
       else case named H_CONTENT_LENGTH hs of
         c # _ \<Rightarrow> PLPayload (PPayload (pd_length (the (atoi (hv_inner c)))))
       | [] \<Rightarrow> if named H_UPGRADE hs \<noteq> [] then PLUpgrade else PLNone)"
  using set_headers_history [OF _ assms(2)] assms(1) history_framing [OF _ assms(3)] by blast

theorem framing_unambiguous_witness:
  "\<exists>st msg'. set_headers simple_atoi (request_type (\<lambda>_. None)) rq_default
      (st_default\<lparr>st_version := HTTP_11\<rparr>) [(H_CONTENT_LENGTH, plain ''42'')] = (Ok (), st, msg') \<and>
    st_payload_length st = PLPayload (PPayload (pd_length 42))"
proof -
  let ?hs = "[(H_CONTENT_LENGTH, plain ''42'')]"
  have atoi: "simple_atoi ''42'' = Some 42"
    by (simp add: simple_atoi_def byte_val_def)
  have str: "hv_to_str (plain ''42'') = Ok ''42''" "take 1 (trim_start ''42'') \<noteq> ''+''"
    by (simp_all add: hv_checks plain_def is_visible_ascii_def byte_val_def trim_start_def
        is_whitespace_def)
  obtain st msg' where r: "set_headers simple_atoi (request_type (\<lambda>_. None)) rq_default
      (st_default\<lparr>st_version := HTTP_11\<rparr>) ?hs = (Ok (), st, msg')"
    using atoi str by (simp add: set_header_def st_default_def flag_simps Let_def)
  have "\<not> websocket_upgrade ?hs" by (simp add: websocket_upgrade_def)
  from framing_unambiguous [OF _ r this] have
    "st_payload_length st = PLPayload (PPayload (pd_length (the (simple_atoi (hv_inner (plain ''42''))))))"
    by simp
  with r atoi show ?thesis by (simp add: plain_def)
qed

text \<open>
  C20: A websocket \<^verbatim>\<open>Upgrade\<close> header lets a request through that has both lengths. Take any HTTP/1.1 headers with one
  well-formed \<^verbatim>\<open>Content-Length\<close>, later one \<^verbatim>\<open>Transfer-Encoding: chunked\<close>, and any other headers around them. The decoder
  rejects them as it should, unless an \<^verbatim>\<open>Upgrade\<close> header for websocket lies between the two: then it accepts them, reads the body as
  chunked, and both headers reach the application.
\<close>

theorem websocket_upgrade_admits_both_lengths:
  assumes "hs = pre @ (H_CONTENT_LENGTH, c) # mid @ (H_TRANSFER_ENCODING, t) # post"
    and "neutral pre" "neutral mid" "neutral post"
    and "length_value atoi c" "says ''chunked'' t" "hm_invar (rq_headers msg)"
    and "set_headers atoi (request_type decode) msg (st_default\<lparr>st_version := HTTP_11\<rparr>) hs = (r, st, msg')"
  shows "(r = Ok () \<longleftrightarrow> websocket_upgrade mid) \<and>
    (r = Ok () \<longrightarrow> st_payload_length st = PLPayload (PPayload pd_chunked) \<and>
       hm_values (rq_headers msg') H_CONTENT_LENGTH = hm_values (rq_headers msg) H_CONTENT_LENGTH @ [c] \<and>
       hm_values (rq_headers msg') H_TRANSFER_ENCODING = hm_values (rq_headers msg) H_TRANSFER_ENCODING @ [t])"
proof -
  let ?T = "request_type decode" and ?st = "st_default\<lparr>st_version := HTTP_11\<rparr>"
  obtain st1 m1 where 1: "set_headers atoi ?T msg ?st pre = (Ok (), st1, m1)" "same_framing pre ?st st1"
    using set_headers_accepted [OF assms(2), of atoi ?T msg ?st] by (elim exE conjE) (rule that)
  obtain st2 m2 where 2: "set_header atoi ?T m1 st1 H_CONTENT_LENGTH c = (Ok (), st2, m2)"
    "st_content_length st2 \<noteq> None" "st_flags st2 = st_flags st1" "st_version st2 = st_version st1"
    using set_header_cl_accepted [OF assms(5), of st1 ?T m1] 1(2) by (auto simp: same_framing_def st_default_def flag_simps split: if_splits)
  obtain st3 m3 where 3: "set_headers atoi ?T m2 st2 mid = (Ok (), st3, m3)" "same_framing mid st2 st3"
    using set_headers_accepted [OF assms(3), of atoi ?T m2 st2] by (elim exE conjE) (rule that)
  have st3: "st_version st3 = HTTP_11" "\<not> fl_contains (st_flags st3) SF_SEEN_TE"
    "st_content_length st3 = None \<longleftrightarrow> websocket_upgrade mid"
    using 1(2) 2 3(2) by (auto simp: same_framing_def st_default_def flag_simps)
  note read = assms(8) [unfolded assms(1) set_headers_append2 set_headers.simps 1(1) 2(1) 3(1) prod.case sum.case]
  note te = set_header_te_chunked [OF assms(6) st3(1,2), of atoi ?T m3]
  show ?thesis
  proof (cases "websocket_upgrade mid")
    case False
    with te st3(3) read show ?thesis by auto
  next
    case True
    with te st3(3) obtain st4 m4 where 4: "set_header atoi ?T m3 st3 H_TRANSFER_ENCODING t = (Ok (), st4, m4)"
      "fl_contains (st_flags st4) SF_CHUNKED" by auto
    from set_headers_accepted [OF assms(4), of atoi ?T m4 st4] read 4 True
    have ok: "r = Ok ()" "fl_contains (st_flags st) SF_CHUNKED" by (auto simp: same_framing_def)
    have "hm_invar (mt_headers ?T msg)" using assms(7) by (simp add: request_type_def)
    with rq_ops.set_headers_values [OF assms(8) [unfolded ok(1)]]
    have vals: "hm_values (rq_headers msg') n = hm_values (rq_headers msg) n @ named n hs" for n
      by (simp add: request_type_def)
    have "named H_CONTENT_LENGTH hs = [c]" "named H_TRANSFER_ENCODING hs = [t]"
      using assms(1-4) by (simp_all add: neutral_named)
    with vals ok True show ?thesis by (simp add: st_payload_length_def)
  qed
qed

theorem websocket_upgrade_admits_both_lengths_witness:
  "\<exists>st msg'. set_headers simple_atoi (request_type (\<lambda>_. None)) rq_default (st_default\<lparr>st_version := HTTP_11\<rparr>)
      ([] @ (H_CONTENT_LENGTH, plain ''5'') # [(H_UPGRADE, plain ''websocket'')] @ (H_TRANSFER_ENCODING, plain ''chunked'') # []) =
      (Ok (), st, msg') \<and> st_payload_length st = PLPayload (PPayload pd_chunked)"
proof -
  note chars = is_visible_ascii_def byte_val_def trim_start_def trim_def is_whitespace_def eq_ignore_ascii_case_def
  have v: "length_value simple_atoi (plain ''5'')" "says ''chunked'' (plain ''chunked'')" "says ''websocket'' (plain ''websocket'')"
    by (simp_all add: length_value_def says_def hv_checks plain_def simple_atoi_def chars)
  have "websocket_upgrade [(H_UPGRADE, plain ''websocket'')]" using v(3) by (simp add: websocket_upgrade_def)
  moreover obtain r st msg' where r: "set_headers simple_atoi (request_type (\<lambda>_. None)) rq_default (st_default\<lparr>st_version := HTTP_11\<rparr>)
      ([] @ (H_CONTENT_LENGTH, plain ''5'') # [(H_UPGRADE, plain ''websocket'')] @ (H_TRANSFER_ENCODING, plain ''chunked'') # []) = (r, st, msg')"
    by (metis prod_cases3)
  ultimately show ?thesis
    using websocket_upgrade_admits_both_lengths [OF refl _ _ _ v(1,2) _ r]
    by (simp add: neutral_def rq_default_def hm.invar_empty r [simplified])
qed

text \<open>
  The connection type the decoder derives from a \<^verbatim>\<open>Connection\<close> header is sound: it reports a type
  only if the token of that type occurs, up to case, starting within the first five bytes.
\<close>

lemma connection_type_sound:
  assumes "connection_type_of val = Some t"
  shows "\<exists>i<5. token_occurs val i t"
  using connection_type_scan_sound [of val 0 t] assms by (auto simp: connection_type_of_def)

text \<open>
  C21: The scan looks one byte too far for the end of a token. For every value that starts with a token, in any case, the byte after the
  token does not matter: the token counts if nothing or one byte follows it, or if the second byte after it is a delimiter, and
  otherwise the whole value counts for nothing. So \<^verbatim>\<open>closed\<close> is taken for close, and the close in \<^verbatim>\<open>close,te\<close> is missed: a client that
  asks to close this way keeps its connection.
\<close>

theorem connection_type_off_by_one:
  assumes "eq_ignore_ascii_case tok (ct_token t)"
  shows "connection_type_of (tok @ rest) =
    (if length rest < 2 \<or> rest ! 1 \<in> {CHR '' '', CHR '','', CR, LF} then Some t else None)"
proof -
  let ?val = "tok @ rest"
  have len: "length tok = length (ct_token t)" using assms by (rule eq_ignore_length)
  have here: "token_here ?val 0 = Some (t, length tok)" using assms by (rule token_here_start)
  have "connection_type_scan ?val 1 = None" using assms by (rule connection_type_scan_inside)
  moreover have "0 < length tok" using len by (cases t) simp_all
  ultimately show ?thesis
    using here by (auto simp: connection_type_of_def connection_type_scan.simps [of ?val 0] nth_append Let_def)
qed

theorem connection_type_off_by_one_witness:
  "connection_type_of (''Close'' @ ''d'') = Some Close \<and> connection_type_of (''close'' @ '',te'') = None"
  by (subst (1 2) connection_type_off_by_one [of _ Close])
    (simp_all add: eq_ignore_ascii_case_def to_ascii_lowercase_def byte_val_def char_of_def bit_0)

end
