(* ===== verification/Http_Body.thy ===== *)
theory Http_Body
  imports Http_Prelude
begin

text \<open>
  Message bodies (\<^verbatim>\<open>geario-http/src/types/body.rs\<close>). A \<^verbatim>\<open>Stream\<close> is given by what its polls will return, in
  order; a stream whose list is empty has ended and keeps returning \<^verbatim>\<open>Ready(None)\<close>. Errors are boxed and
  opaque. \<^verbatim>\<open>Bytes\<close>, \<^verbatim>\<open>BytesMut\<close>, \<^verbatim>\<open>&str\<close>, \<^verbatim>\<open>&[u8]\<close>, \<^verbatim>\<open>Vec<u8>\<close> and \<^verbatim>\<open>String\<close> have the same
  implementation of \<^verbatim>\<open>MessageBody\<close> and are one constructor; \<^verbatim>\<open>BytePages\<close> is the list of its pages.
\<close>

section \<open>Definitions\<close>

type_synonym body_error = nat

datatype body_size = SzNone | SzEmpty | SzSized nat | SzStream

definition bs_is_eof :: "body_size \<Rightarrow> bool" where
  "bs_is_eof sz = (sz = SzNone \<or> sz = SzEmpty \<or> sz = SzSized 0)"

datatype stream_poll = SPending | SItem "body_error + bytes"

datatype msg_body =
    MBUnit
  | MBBytes bytes
  | MBPages "bytes list"
  | MBStream "stream_poll list"
  | MBBoxed "stream_poll list"
  | MBSized nat "stream_poll list"
  | MBBody body
and body =
    BNone
  | BEmpty
  | BBytes bytes
  | BMessage msg_body

datatype response_body = RBBody msg_body | RBOther body

definition body_from_slice :: "bytes \<Rightarrow> body" where
  "body_from_slice s = BBytes s"

definition body_from_message :: "msg_body \<Rightarrow> body" where
  "body_from_message b = BMessage b"

definition body_from_pages :: "bytes list \<Rightarrow> body" where
  "body_from_pages pages = body_from_message (MBPages pages)"

text \<open>The loop that skips empty items, shared by the three stream bodies.\<close>

fun stream_next_chunk :: "stream_poll list \<Rightarrow> (body_error + bytes) option poll \<times> stream_poll list" where
  "stream_next_chunk [] = (Ready None, [])"
| "stream_next_chunk (SPending # s) = (Pending, s)"
| "stream_next_chunk (SItem r # s) = (if r = Ok [] then stream_next_chunk s else (Ready (Some r), s))"

definition bytes_next_chunk :: "bytes \<Rightarrow> (body_error + bytes) option poll \<times> bytes" where
  "bytes_next_chunk b = (if b = [] then (Ready None, b) else (Ready (Some (Ok b)), []))"

fun pages_next_chunk :: "bytes list \<Rightarrow> (body_error + bytes) option poll \<times> bytes list" where
  "pages_next_chunk [] = (Ready None, [])"
| "pages_next_chunk (p # ps) = (Ready (Some (Ok p)), ps)"

fun mb_size :: "msg_body \<Rightarrow> body_size" and body_size_of :: "body \<Rightarrow> body_size" where
  "mb_size MBUnit = SzEmpty"
| "mb_size (MBBytes b) = SzSized (length b)"
| "mb_size (MBPages ps) = SzSized (length (concat ps))"
| "mb_size (MBStream s) = SzStream"
| "mb_size (MBBoxed s) = SzStream"
| "mb_size (MBSized n s) = SzSized n"
| "mb_size (MBBody b) = body_size_of b"
| "body_size_of BNone = SzNone"
| "body_size_of BEmpty = SzEmpty"
| "body_size_of (BBytes bin) = SzSized (length bin)"
| "body_size_of (BMessage b) = mb_size b"

fun mb_poll_next_chunk :: "msg_body \<Rightarrow> (body_error + bytes) option poll \<times> msg_body"
  and body_poll_next_chunk :: "body \<Rightarrow> (body_error + bytes) option poll \<times> body" where
  "mb_poll_next_chunk MBUnit = (Ready None, MBUnit)"
| "mb_poll_next_chunk (MBBytes b) = map_prod id MBBytes (bytes_next_chunk b)"
| "mb_poll_next_chunk (MBPages ps) = map_prod id MBPages (pages_next_chunk ps)"
| "mb_poll_next_chunk (MBStream s) = map_prod id MBStream (stream_next_chunk s)"
| "mb_poll_next_chunk (MBBoxed s) = map_prod id MBBoxed (stream_next_chunk s)"
| "mb_poll_next_chunk (MBSized n s) = map_prod id (MBSized n) (stream_next_chunk s)"
| "mb_poll_next_chunk (MBBody b) = map_prod id MBBody (body_poll_next_chunk b)"
| "body_poll_next_chunk BNone = (Ready None, BNone)"
| "body_poll_next_chunk BEmpty = (Ready None, BEmpty)"
| "body_poll_next_chunk (BBytes bin) =
     (if length bin = 0 then (Ready None, BBytes bin) else (Ready (Some (Ok bin)), BBytes []))"
| "body_poll_next_chunk (BMessage b) = map_prod id BMessage (mb_poll_next_chunk b)"

text \<open>\<^verbatim>\<open>ResponseBody<B>\<close>.\<close>

definition rb_new :: "msg_body \<Rightarrow> response_body" where
  "rb_new b = RBBody b"

definition rb_from_body :: "body \<Rightarrow> response_body" where
  "rb_from_body b = RBOther b"


definition rb_take_body :: "response_body \<Rightarrow> response_body \<times> response_body" where
  "rb_take_body b = (b, RBOther BNone)"

text \<open>\<^verbatim>\<open>into_body\<close> and \<^verbatim>\<open>From<ResponseBody<Body>> for Body\<close>, for a body that is a \<^verbatim>\<open>Body\<close>.\<close>

fun rb_into_body :: "response_body \<Rightarrow> response_body" where
  "rb_into_body (RBBody (MBBody b)) = RBOther b"
| "rb_into_body (RBOther b) = RBOther b"
| "rb_into_body r = r"

fun rb_size :: "response_body \<Rightarrow> body_size" where
  "rb_size (RBBody b) = mb_size b"
| "rb_size (RBOther b) = body_size_of b"

fun rb_poll_next_chunk :: "response_body \<Rightarrow> (body_error + bytes) option poll \<times> response_body" where
  "rb_poll_next_chunk (RBBody b) = map_prod id RBBody (mb_poll_next_chunk b)"
| "rb_poll_next_chunk (RBOther b) = map_prod id RBOther (body_poll_next_chunk b)"

section \<open>Polling a body to its end\<close>

text \<open>What is still to come, at most: a measure that every poll short of the end reduces.\<close>

fun mb_weight :: "msg_body \<Rightarrow> nat" and body_weight :: "body \<Rightarrow> nat" where
  "mb_weight MBUnit = 0"
| "mb_weight (MBBytes b) = length b"
| "mb_weight (MBPages ps) = length ps"
| "mb_weight (MBStream s) = length s"
| "mb_weight (MBBoxed s) = length s"
| "mb_weight (MBSized n s) = length s"
| "mb_weight (MBBody b) = body_weight b"
| "body_weight BNone = 0"
| "body_weight BEmpty = 0"
| "body_weight (BBytes bin) = length bin"
| "body_weight (BMessage b) = mb_weight b"

fun rb_weight :: "response_body \<Rightarrow> nat" where
  "rb_weight (RBBody b) = mb_weight b"
| "rb_weight (RBOther b) = body_weight b"

lemma stream_next_chunk_weight:
  "stream_next_chunk s = (r, s') \<Longrightarrow> r \<noteq> Ready None \<Longrightarrow> length s' < length s"
  by (induction s arbitrary: s' rule: stream_next_chunk.induct) (fastforce split: if_splits)+

lemma poll_weight:
  "mb_poll_next_chunk m = (r, m') \<Longrightarrow> r \<noteq> Ready None \<Longrightarrow> mb_weight m' < mb_weight m"
  "body_poll_next_chunk b = (r, b') \<Longrightarrow> r \<noteq> Ready None \<Longrightarrow> body_weight b' < body_weight b"
proof (induction m and b arbitrary: r m' and r b' rule: msg_body.induct body.induct)
  case (MBPages ps)
  then show ?case by (cases ps) auto
qed (auto simp: bytes_next_chunk_def map_prod_def split: prod.splits if_splits
    dest: stream_next_chunk_weight)

lemma rb_poll_weight:
  "rb_poll_next_chunk b = (r, b') \<Longrightarrow> r \<noteq> Ready None \<Longrightarrow> rb_weight b' < rb_weight b"
  using poll_weight by (cases b) (auto simp: map_prod_def split: prod.splits)

text \<open>The chunks a task that awaits the body gets, and the error that ends them, if any.\<close>

function collect :: "response_body \<Rightarrow> bytes list \<times> body_error option" where
  "collect b =
     (case rb_poll_next_chunk b of
        (Pending, b') \<Rightarrow> collect b'
      | (Ready None, _) \<Rightarrow> ([], None)
      | (Ready (Some (Err e)), _) \<Rightarrow> ([], Some e)
      | (Ready (Some (Ok c)), b') \<Rightarrow> (let (cs, e) = collect b' in (c # cs, e)))"
  by pat_completeness auto
termination
  by (relation "measure rb_weight") (auto dest: rb_poll_weight [OF sym])

declare collect.simps [simp del]

text \<open>The data of a body.\<close>

fun stream_data :: "stream_poll list \<Rightarrow> bytes \<times> body_error option" where
  "stream_data [] = ([], None)"
| "stream_data (SPending # s) = stream_data s"
| "stream_data (SItem (Inl e) # s) = ([], Some e)"
| "stream_data (SItem (Inr c) # s) = (let (d, e) = stream_data s in (c @ d, e))"

fun mb_data :: "msg_body \<Rightarrow> bytes \<times> body_error option"
  and body_data :: "body \<Rightarrow> bytes \<times> body_error option" where
  "mb_data MBUnit = ([], None)"
| "mb_data (MBBytes b) = (b, None)"
| "mb_data (MBPages ps) = (concat ps, None)"
| "mb_data (MBStream s) = stream_data s"
| "mb_data (MBBoxed s) = stream_data s"
| "mb_data (MBSized n s) = stream_data s"
| "mb_data (MBBody b) = body_data b"
| "body_data BNone = ([], None)"
| "body_data BEmpty = ([], None)"
| "body_data (BBytes bin) = (bin, None)"
| "body_data (BMessage b) = mb_data b"

fun rb_data :: "response_body \<Rightarrow> bytes \<times> body_error option" where
  "rb_data (RBBody b) = mb_data b"
| "rb_data (RBOther b) = body_data b"

fun mb_pages_full :: "msg_body \<Rightarrow> bool" and body_pages_full :: "body \<Rightarrow> bool" where
  "mb_pages_full (MBPages ps) = ([] \<notin> set ps)"
| "mb_pages_full (MBBody b) = body_pages_full b"
| "mb_pages_full MBUnit = True"
| "mb_pages_full (MBBytes b) = True"
| "mb_pages_full (MBStream s) = True"
| "mb_pages_full (MBBoxed s) = True"
| "mb_pages_full (MBSized n s) = True"
| "body_pages_full (BMessage b) = mb_pages_full b"
| "body_pages_full BNone = True"
| "body_pages_full BEmpty = True"
| "body_pages_full (BBytes b) = True"

fun rb_pages_full :: "response_body \<Rightarrow> bool" where
  "rb_pages_full (RBBody b) = mb_pages_full b"
| "rb_pages_full (RBOther b) = body_pages_full b"

text \<open>One poll hands out the first part of the data, and the body holds the rest.\<close>

definition after_poll ::
  "(body_error + bytes) option poll \<Rightarrow> bytes \<times> body_error option \<Rightarrow> bytes \<times> body_error option \<Rightarrow> bool" where
  "after_poll r d d' =
     (case r of
        Pending \<Rightarrow> d = d'
      | Ready None \<Rightarrow> d = ([], None)
      | Ready (Some (Err e)) \<Rightarrow> d = ([], Some e)
      | Ready (Some (Ok c)) \<Rightarrow> d = (c @ fst d', snd d'))"

lemma stream_after_poll:
  "stream_next_chunk s = (r, s') \<Longrightarrow>
   after_poll r (stream_data s) (stream_data s') \<and> r \<noteq> Ready (Some (Ok []))"
proof (induction s arbitrary: s' rule: stream_next_chunk.induct)
  case (3 x s)
  show ?case
  proof (cases "x = Ok []")
    case True
    have "stream_data (SItem (Ok []) # s) = stream_data s" by (cases "stream_data s") simp
    with True 3 show ?thesis by simp
  next
    case False
    with 3 show ?thesis by (cases x) (auto simp: after_poll_def split: prod.splits)
  qed
qed (auto simp: after_poll_def)

lemma poll_after:
  "mb_poll_next_chunk m = (r, m') \<Longrightarrow> after_poll r (mb_data m) (mb_data m') \<and>
    (mb_pages_full m \<longrightarrow> mb_pages_full m' \<and> r \<noteq> Ready (Some (Ok [])))"
  "body_poll_next_chunk b = (r, b') \<Longrightarrow> after_poll r (body_data b) (body_data b') \<and>
    (body_pages_full b \<longrightarrow> body_pages_full b' \<and> r \<noteq> Ready (Some (Ok [])))"
proof (induction m and b arbitrary: r m' and r b' rule: msg_body.induct body.induct)
  case (MBPages ps)
  then show ?case by (cases ps) (auto simp: after_poll_def)
next
  case (MBBytes b)
  then show ?case by (auto simp: bytes_next_chunk_def after_poll_def split: if_splits)
next
  case (BBytes b)
  then show ?case by (auto simp: after_poll_def split: if_splits)
next
  case (MBBody b)
  then show ?case by (cases "body_poll_next_chunk b") auto
next
  case (BMessage m)
  then show ?case by (cases "mb_poll_next_chunk m") auto
qed (auto simp: after_poll_def [of "Ready None"] map_prod_def split: prod.splits dest: stream_after_poll)

lemma rb_poll_after:
  assumes "rb_poll_next_chunk b = (r, b')"
  shows "after_poll r (rb_data b) (rb_data b') \<and>
    (rb_pages_full b \<longrightarrow> rb_pages_full b' \<and> r \<noteq> Ready (Some (Ok [])))"
  using assms poll_after by (cases b) (fastforce simp: map_prod_def split: prod.splits)+

lemma rb_collected:
  "concat (fst (collect b)) = fst (rb_data b) \<and> snd (collect b) = snd (rb_data b) \<and>
   (rb_pages_full b \<longrightarrow> [] \<notin> set (fst (collect b)))"
proof (induction b rule: collect.induct)
  case (1 b)
  obtain r b' where p: "rb_poll_next_chunk b = (r, b')" by (cases "rb_poll_next_chunk b")
  note after = rb_poll_after [OF p]
  consider "r = Pending" | "r = Ready None" | e where "r = Ready (Some (Err e))" | c where "r = Ready (Some (Ok c))"
    by (metis obj_sumE option.exhaust poll.exhaust)
  then show ?case
  proof cases
    case 4
    with 1(2) [OF p [symmetric] 4] after p show ?thesis
      by (auto simp: after_poll_def collect.simps [of b] split: prod.splits)
  qed (use 1(1) [OF p [symmetric]] after p in \<open>auto simp: after_poll_def collect.simps [of b]\<close>)
qed

text \<open>
  C34: Polling a body to its end, however often it is pending, yields exactly its data and ends with
  its error, if it has one; and no chunk is empty, which in the chunked encoding would end the
  message early (for paged bodies: unless a page is empty).
\<close>

theorem body_delivered:
  "concat (fst (collect b)) = fst (rb_data b) \<and> snd (collect b) = snd (rb_data b) \<and>
   (rb_pages_full b \<longrightarrow> [] \<notin> set (fst (collect b)))"
  by (rule rb_collected)

theorem body_delivered_witness:
  "[] \<notin> set (fst (collect (RBBody (MBStream [SItem (Ok ''a''), SPending, SItem (Ok []), SItem (Ok ''b'')]))))"
  using body_delivered [of "RBBody (MBStream [SItem (Ok ''a''), SPending, SItem (Ok []), SItem (Ok ''b'')])"]
  by simp

end
