(* ===== verification/Service_Config.thy ===== *)
theory Service_Config
  imports Http_Prelude
begin

text \<open>
  \<^verbatim>\<open>geario-http/src/config.rs\<close>: the service configuration with its builder methods, the cached date
  header and \<^verbatim>\<open>DispatcherConfig\<close>, the state the connections of one service share; and the life cycle
  of a connection and of the shutdown in \<^verbatim>\<open>h1/service.rs\<close> and \<^verbatim>\<open>service.rs\<close>, cut at the await points.

  \<^verbatim>\<open>Seconds\<close> (of the \<^verbatim>\<open>geario\<close> crate) wraps a \<^verbatim>\<open>u16\<close>; an \<^verbatim>\<open>IoRef\<close> is an opaque handle.
\<close>

section \<open>Configuration\<close>

type_synonym seconds = u16

datatype keep_alive = KaTimeout seconds | KaOs | KaDisabled

definition ka_from_usize :: "nat \<Rightarrow> keep_alive" where
  "ka_from_usize keepalive = KaTimeout (of_nat keepalive)"

definition ka_from_option :: "nat option \<Rightarrow> keep_alive" where
  "ka_from_option keepalive =
     (case keepalive of Some k \<Rightarrow> KaTimeout (of_nat k) | None \<Rightarrow> KaDisabled)"

record frame_read_rate =
  fr_timeout :: seconds
  fr_max_timeout :: seconds
  fr_rate :: u32

record http_service_config =
  cfg_keep_alive :: seconds
  cfg_ka_enabled :: bool
  cfg_headers_vec :: bool
  cfg_max_headers :: nat
  cfg_max_buf_size :: nat
  cfg_headers_read_rate :: "frame_read_rate option"
  cfg_payload_read_rate :: "frame_read_rate option"

fun keep_alive_pair :: "keep_alive \<Rightarrow> seconds \<times> bool" where
  "keep_alive_pair (KaTimeout val) = (val, True)"
| "keep_alive_pair KaOs = (0, True)"
| "keep_alive_pair KaDisabled = (0, False)"

definition cfg_new_with :: "keep_alive \<Rightarrow> seconds \<Rightarrow> http_service_config" where
  "cfg_new_with keep_alive client_timeout =
     (let (ka, ka_enabled) = keep_alive_pair keep_alive;
          ka = (if ka_enabled then ka else 0)
      in \<lparr>cfg_keep_alive = ka, cfg_ka_enabled = ka_enabled, cfg_headers_vec = False,
          cfg_max_headers = 96, cfg_max_buf_size = 64 * 1024,
          cfg_headers_read_rate =
            Some \<lparr>fr_timeout = client_timeout, fr_max_timeout = client_timeout + 15, fr_rate = 256\<rparr>,
          cfg_payload_read_rate = None\<rparr>)"

definition cfg_new :: http_service_config where
  "cfg_new = cfg_new_with (KaTimeout 5) 1"

definition set_max_headers :: "nat \<Rightarrow> http_service_config \<Rightarrow> http_service_config" where
  "set_max_headers val c = c\<lparr>cfg_max_headers := val\<rparr>"

definition set_max_buf_size :: "nat \<Rightarrow> http_service_config \<Rightarrow> http_service_config" where
  "set_max_buf_size val c = c\<lparr>cfg_max_buf_size := val\<rparr>"

definition set_keepalive :: "keep_alive \<Rightarrow> http_service_config \<Rightarrow> http_service_config" where
  "set_keepalive val c =
     (let (ka, ka_enabled) = keep_alive_pair val;
          ka = (if ka_enabled then ka else 0)
      in c\<lparr>cfg_keep_alive := ka, cfg_ka_enabled := ka_enabled\<rparr>)"

definition set_keepalive_timeout :: "seconds \<Rightarrow> http_service_config \<Rightarrow> http_service_config" where
  "set_keepalive_timeout timeout c =
     c\<lparr>cfg_keep_alive := timeout, cfg_ka_enabled := (timeout \<noteq> 0)\<rparr>"

definition set_client_timeout :: "seconds \<Rightarrow> http_service_config \<Rightarrow> http_service_config" where
  "set_client_timeout timeout c =
     (if timeout = 0 then c\<lparr>cfg_headers_read_rate := None\<rparr>
      else
        let rate = (case cfg_headers_read_rate c of
                      Some r \<Rightarrow> r
                    | None \<Rightarrow> \<lparr>fr_timeout = 5, fr_max_timeout = 15, fr_rate = 256\<rparr>)
        in c\<lparr>cfg_headers_read_rate := Some (rate\<lparr>fr_timeout := timeout\<rparr>)\<rparr>)"

definition set_enable_headers_vec :: "http_service_config \<Rightarrow> http_service_config" where
  "set_enable_headers_vec c = c\<lparr>cfg_headers_vec := True\<rparr>"

definition set_headers_read_rate ::
  "seconds \<Rightarrow> seconds \<Rightarrow> u32 \<Rightarrow> http_service_config \<Rightarrow> http_service_config" where
  "set_headers_read_rate timeout max_timeout rate c =
     (if timeout = 0 then c\<lparr>cfg_headers_read_rate := None\<rparr>
      else c\<lparr>cfg_headers_read_rate :=
               Some \<lparr>fr_timeout = timeout, fr_max_timeout = max_timeout, fr_rate = rate\<rparr>\<rparr>)"

definition set_payload_read_rate ::
  "seconds \<Rightarrow> seconds \<Rightarrow> u32 \<Rightarrow> http_service_config \<Rightarrow> http_service_config" where
  "set_payload_read_rate timeout max_timeout rate c =
     (if timeout = 0 then c\<lparr>cfg_payload_read_rate := None\<rparr>
      else c\<lparr>cfg_payload_read_rate :=
               Some \<lparr>fr_timeout = timeout, fr_max_timeout = max_timeout, fr_rate = rate\<rparr>\<rparr>)"

text \<open>
  Every configuration the builder can produce: a keep-alive time only when keep-alive is on, and
  read rates only with a non-zero timeout.
\<close>

definition rate_wf :: "frame_read_rate option \<Rightarrow> bool" where
  "rate_wf r = (case r of Some x \<Rightarrow> fr_timeout x \<noteq> 0 | None \<Rightarrow> True)"

definition cfg_wf :: "http_service_config \<Rightarrow> bool" where
  "cfg_wf c \<longleftrightarrow> (\<not> cfg_ka_enabled c \<longrightarrow> cfg_keep_alive c = 0) \<and>
     rate_wf (cfg_headers_read_rate c) \<and> rate_wf (cfg_payload_read_rate c)"

inductive cfg_built :: "http_service_config \<Rightarrow> bool" where
  built_new: "cfg_built cfg_new"
| built_max_headers: "cfg_built c \<Longrightarrow> cfg_built (set_max_headers n c)"
| built_max_buf_size: "cfg_built c \<Longrightarrow> cfg_built (set_max_buf_size n c)"
| built_keepalive: "cfg_built c \<Longrightarrow> cfg_built (set_keepalive k c)"
| built_keepalive_timeout: "cfg_built c \<Longrightarrow> cfg_built (set_keepalive_timeout t c)"
| built_client_timeout: "cfg_built c \<Longrightarrow> cfg_built (set_client_timeout t c)"
| built_headers_vec: "cfg_built c \<Longrightarrow> cfg_built (set_enable_headers_vec c)"
| built_headers_read_rate: "cfg_built c \<Longrightarrow> cfg_built (set_headers_read_rate t m r c)"
| built_payload_read_rate: "cfg_built c \<Longrightarrow> cfg_built (set_payload_read_rate t m r c)"

lemmas cfg_setter_defs = set_max_headers_def set_max_buf_size_def set_keepalive_def
  set_keepalive_timeout_def set_client_timeout_def set_enable_headers_vec_def
  set_headers_read_rate_def set_payload_read_rate_def

lemma cfg_built_wf: "cfg_built c \<Longrightarrow> cfg_wf c"
  by (induction rule: cfg_built.induct)
    (auto simp: cfg_wf_def rate_wf_def cfg_setter_defs cfg_new_def cfg_new_with_def Let_def
          split: option.splits prod.splits)

section \<open>The date header\<close>

text \<open>
  The cached header is rewritten when \<open>ds_current\<close> is off; a task spawned then turns it off again
  after 500 ms (\<open>date_expire\<close>). \<open>httpdate\<close> stands for the text of \<^verbatim>\<open>httpdate::HttpDate\<close>;
  \<^verbatim>\<open>copy_from_slice\<close> panics unless it has 29 bytes.
\<close>

record date_service =
  ds_current :: bool
  ds_current_date :: bytes

definition date_value_default :: bytes where
  "date_value_default = ''date: 00000000000000000000000000000'' @ CRLF @ CRLF"

definition date_new :: date_service where
  "date_new = \<lparr>ds_current = False, ds_current_date = date_value_default\<rparr>"

definition date_update :: "string \<Rightarrow> date_service \<Rightarrow> date_service option" where
  "date_update httpdate d =
     (if length httpdate = 29 then
        Some (d\<lparr>ds_current := True,
                ds_current_date :=
                  take 6 date_value_default @ httpdate @ drop 35 date_value_default\<rparr>)
      else None)"

definition check_date :: "string \<Rightarrow> date_service \<Rightarrow> date_service option" where
  "check_date httpdate d = (if \<not> ds_current d then date_update httpdate d else Some d)"

definition date_expire :: "date_service \<Rightarrow> date_service" where
  "date_expire d = d\<lparr>ds_current := False\<rparr>"

definition set_date :: "string \<Rightarrow> date_service \<Rightarrow> (bytes \<times> date_service) option" where
  "set_date httpdate d =
     (case check_date httpdate d of
        None \<Rightarrow> None
      | Some d' \<Rightarrow> Some (take 29 (drop 6 (ds_current_date d')), d'))"

definition set_date_header :: "string \<Rightarrow> date_service \<Rightarrow> bytes \<Rightarrow> (bytes \<times> date_service) option" where
  "set_date_header httpdate d dst =
     (case check_date httpdate d of
        None \<Rightarrow> None
      | Some d' \<Rightarrow> Some (dst @ ds_current_date d', d'))"

text \<open>The header line for a date, and the states whose cache holds one.\<close>

definition date_line :: "string \<Rightarrow> bytes" where
  "date_line date = ''date: '' @ date @ CRLF @ CRLF"

definition date_wf :: "date_service \<Rightarrow> bool" where
  "date_wf d \<longleftrightarrow> (\<exists>date. length date = 29 \<and> ds_current_date d = date_line date)"

lemma date_value_default_line: "date_value_default = date_line (replicate 29 CHR ''0'')"
  by (simp add: date_value_default_def date_line_def eval_nat_numeral)

lemma date_new_wf: "date_wf date_new"
  unfolding date_wf_def
  by (rule exI [of _ "replicate 29 CHR ''0''"]) (simp add: date_new_def date_value_default_line)

lemma date_patch_line:
  "take 6 date_value_default @ h @ drop 35 date_value_default = date_line h"
  by (simp add: date_value_default_def date_line_def)

lemma check_date_wf:
  "check_date httpdate d = Some d' \<Longrightarrow> date_wf d \<Longrightarrow> date_wf d' \<and> ds_current d'"
  by (auto simp: check_date_def date_update_def date_wf_def date_patch_line split: if_splits)

section \<open>Connections of a service and its shutdown\<close>

abbreviation DF_SHUTDOWN :: u8 where "DF_SHUTDOWN \<equiv> 0x02"

text \<open>
  \<open>dc_rx\<close> and \<open>dc_tx\<close> say whether the halves of the oneshot channel are still in their cells, and
  \<open>dc_sent\<close> whether the value was sent. The set of connections is a list without duplicates.
\<close>

record dispatcher_config =
  dc_flags :: u8
  dc_idx :: nat
  dc_inflight :: "nat list"
  dc_rx :: bool
  dc_tx :: bool
  dc_sent :: bool

definition dc_default :: dispatcher_config where
  "dc_default = \<lparr>dc_flags = 0, dc_idx = 0, dc_inflight = [], dc_rx = True, dc_tx = True,
                 dc_sent = False\<rparr>"

definition dc_next_id :: "dispatcher_config \<Rightarrow> nat \<times> dispatcher_config" where
  "dc_next_id c = (let id = dc_idx c in (id, c\<lparr>dc_idx := id + 1\<rparr>))"

definition dc_remove_io :: "nat \<Rightarrow> dispatcher_config \<Rightarrow> nat \<times> dispatcher_config" where
  "dc_remove_io io c =
     (let inflight = removeAll io (dc_inflight c)
      in (length inflight, c\<lparr>dc_inflight := inflight\<rparr>))"

definition dc_insert_io :: "nat \<Rightarrow> dispatcher_config \<Rightarrow> nat \<times> dispatcher_config" where
  "dc_insert_io io c =
     (let inflight = List.insert io (dc_inflight c)
      in (length inflight, c\<lparr>dc_inflight := inflight\<rparr>))"

definition dc_is_shutdown :: "dispatcher_config \<Rightarrow> bool" where
  "dc_is_shutdown c = fl_contains (dc_flags c) DF_SHUTDOWN"

text \<open>\<open>dc_shutdown\<close> also returns the connections it notifies.\<close>

definition dc_shutdown :: "dispatcher_config \<Rightarrow> nat \<times> nat list \<times> dispatcher_config" where
  "dc_shutdown c =
     (length (dc_inflight c), dc_inflight c,
      c\<lparr>dc_flags := fl_insert (dc_flags c) DF_SHUTDOWN\<rparr>)"

definition dc_notify_shutdown :: "dispatcher_config \<Rightarrow> dispatcher_config" where
  "dc_notify_shutdown c = (if dc_tx c then c\<lparr>dc_tx := False, dc_sent := True\<rparr> else c)"

text \<open>
  The two synchronous halves of \<^verbatim>\<open>Service::call\<close>: registering the connection before
  \<^verbatim>\<open>handle_io(..).await\<close> and removing it after.
\<close>

definition call_register :: "nat \<Rightarrow> dispatcher_config \<Rightarrow> nat \<times> dispatcher_config" where
  "call_register io c =
     (let (id, c1) = dc_next_id c;
          (_, c2) = dc_insert_io io c1
      in (id, c2))"

definition call_finish :: "nat \<Rightarrow> dispatcher_config \<Rightarrow> dispatcher_config" where
  "call_finish io c =
     (let (inflight, c1) = dc_remove_io io c
      in if inflight = 0 \<and> dc_is_shutdown c1 then dc_notify_shutdown c1 else c1)"

text \<open>Where the shutdown future is: not called, awaiting the channel, done.\<close>

datatype shutdown_task = NotStarted | Waiting | Finished

text \<open>\<^verbatim>\<open>H1ServiceHandler::shutdown\<close> up to its await, and each poll of \<^verbatim>\<open>wait_shutdown\<close>.\<close>

definition h1_shutdown :: "dispatcher_config \<Rightarrow> shutdown_task \<times> dispatcher_config" where
  "h1_shutdown c =
     (let (_, _, c1) = dc_shutdown c;
          (inflight, _, c2) = dc_shutdown c1
      in if inflight \<noteq> 0 then
           (if dc_rx c2 then (Waiting, c2\<lparr>dc_rx := False\<rparr>) else (Finished, c2))
         else (Finished, c2))"

definition http_shutdown :: "dispatcher_config \<Rightarrow> shutdown_task \<times> dispatcher_config" where
  "http_shutdown c =
     (let (inflight, _, c1) = dc_shutdown c
      in if inflight \<noteq> 0 then
           (if dc_rx c1 then (Waiting, c1\<lparr>dc_rx := False\<rparr>) else (Finished, c1))
         else (Finished, c1))"

definition poll_wait_shutdown :: "dispatcher_config \<Rightarrow> unit poll" where
  "poll_wait_shutdown c = (if dc_sent c then Ready () else Pending)"

text \<open>
  A run of the service: the shared state, the calls that wait in \<^verbatim>\<open>handle_io\<close> and the shutdown task.
  \<open>leaky\<close> selects \<^verbatim>\<open>HttpService\<close>, which creates the control service only after it registered the
  connection and returns early when that fails; \<^verbatim>\<open>H1Service\<close> creates it before. A new connection
  is none of those whose handle is still held.
\<close>

record service_run =
  sr_cfg :: dispatcher_config
  sr_calls :: "nat list"
  sr_task :: shutdown_task

definition sr_init :: service_run where
  "sr_init = \<lparr>sr_cfg = dc_default, sr_calls = [], sr_task = NotStarted\<rparr>"

inductive service_step :: "bool \<Rightarrow> service_run \<Rightarrow> service_run \<Rightarrow> bool" for leaky where
  ss_connect: "io \<notin> set (sr_calls s) \<Longrightarrow> io \<notin> set (dc_inflight (sr_cfg s)) \<Longrightarrow>
     service_step leaky s
       (s\<lparr>sr_cfg := snd (call_register io (sr_cfg s)), sr_calls := io # sr_calls s\<rparr>)"
| ss_control_failed: "leaky \<Longrightarrow> io \<in> set (sr_calls s) \<Longrightarrow>
     service_step leaky s (s\<lparr>sr_calls := removeAll io (sr_calls s)\<rparr>)"
| ss_finish: "io \<in> set (sr_calls s) \<Longrightarrow>
     service_step leaky s
       (s\<lparr>sr_cfg := call_finish io (sr_cfg s), sr_calls := removeAll io (sr_calls s)\<rparr>)"
| ss_shutdown: "sr_task s = NotStarted \<Longrightarrow>
     (if leaky then http_shutdown (sr_cfg s) else h1_shutdown (sr_cfg s)) = (t, c) \<Longrightarrow>
     service_step leaky s (s\<lparr>sr_cfg := c, sr_task := t\<rparr>)"
| ss_poll: "sr_task s = Waiting \<Longrightarrow> poll_wait_shutdown (sr_cfg s) = Ready () \<Longrightarrow>
     service_step leaky s (s\<lparr>sr_task := Finished\<rparr>)"

abbreviation service_reachable :: "bool \<Rightarrow> service_run \<Rightarrow> bool" where
  "service_reachable leaky \<equiv> (service_step leaky)\<^sup>*\<^sup>* sr_init"

inductive_cases service_stepE: "service_step leaky s s'"

lemmas service_defs = call_register_def call_finish_def h1_shutdown_def http_shutdown_def
  dc_next_id_def dc_insert_io_def dc_remove_io_def dc_shutdown_def dc_is_shutdown_def
  dc_notify_shutdown_def poll_wait_shutdown_def Let_def

text \<open>
  The invariant of \<^verbatim>\<open>H1Service\<close>: the registered connections are exactly the running calls, and a
  shutdown that waits with nothing registered has its notification.
\<close>

definition service_inv :: "service_run \<Rightarrow> bool" where
  "service_inv s \<longleftrightarrow> distinct (dc_inflight (sr_cfg s)) \<and>
     set (dc_inflight (sr_cfg s)) = set (sr_calls s) \<and>
     (dc_tx (sr_cfg s) \<longleftrightarrow> \<not> dc_sent (sr_cfg s)) \<and>
     (sr_task s = Waiting \<longrightarrow> dc_is_shutdown (sr_cfg s) \<and>
        (sr_calls s = [] \<longrightarrow> dc_sent (sr_cfg s)))"

lemma service_inv_step:
  assumes "service_step False s s'" "service_inv s"
  shows "service_inv s'"
  using assms
  by (cases rule: service_step.cases)
    (auto simp: service_inv_def service_defs flag_simps distinct_removeAll
          split: if_splits)

lemma service_reachable_inv:
  assumes "service_reachable False s"
  shows "service_inv s"
  using assms
proof (induction rule: rtranclp_induct)
  case base
  show ?case by (simp add: service_inv_def sr_init_def dc_default_def)
next
  case (step s s')
  then show ?case by (blast intro: service_inv_step)
qed

lemma dc_sent_step:
  assumes "service_step leaky s s'" "\<not> dc_sent (sr_cfg s)" "dc_sent (sr_cfg s')"
  shows "dc_inflight (sr_cfg s') = [] \<and> dc_is_shutdown (sr_cfg s')"
  using assms
  by (cases rule: service_step.cases) (auto simp: service_defs split: if_splits)

text \<open>A connection that was registered and never removed blocks the notification for good.\<close>

definition stuck_on :: "nat \<Rightarrow> service_run \<Rightarrow> bool" where
  "stuck_on io s \<longleftrightarrow> io \<in> set (dc_inflight (sr_cfg s)) \<and> io \<notin> set (sr_calls s) \<and>
     sr_task s = Waiting \<and> \<not> dc_sent (sr_cfg s)"

lemma stuck_on_step:
  assumes "service_step leaky s s'" "stuck_on io s"
  shows "stuck_on io s'"
  using assms
  by (cases rule: service_step.cases) (auto simp: stuck_on_def service_defs split: if_splits)

lemma stuck_on_forever:
  assumes "(service_step leaky)\<^sup>*\<^sup>* s s'" "stuck_on io s"
  shows "stuck_on io s'"
  using assms by (induction rule: rtranclp_induct) (auto intro: stuck_on_step)

definition leaked_run :: service_run where
  "leaked_run =
     \<lparr>sr_cfg = (snd (http_shutdown (snd (call_register 7 dc_default)))), sr_calls = [],
      sr_task = Waiting\<rparr>"

lemma three_steps: "r a b \<Longrightarrow> r b c \<Longrightarrow> r c d \<Longrightarrow> r\<^sup>*\<^sup>* a d"
  by (meson converse_rtranclp_into_rtranclp r_into_rtranclp)

lemma leaked_run_reachable: "service_reachable True leaked_run"
proof -
  let ?s1 = "sr_init\<lparr>sr_cfg := snd (call_register 7 dc_default), sr_calls := [7]\<rparr>"
  have s1: "service_step True sr_init ?s1"
    using ss_connect [of 7 sr_init True] by (simp add: sr_init_def dc_default_def)
  have s2: "service_step True ?s1 (?s1\<lparr>sr_calls := []\<rparr>)"
    using ss_control_failed [of True 7 ?s1] by simp
  have s3: "service_step True (?s1\<lparr>sr_calls := []\<rparr>) leaked_run"
    using ss_shutdown [of "?s1\<lparr>sr_calls := []\<rparr>" True Waiting "sr_cfg leaked_run"]
    by (simp add: sr_init_def leaked_run_def service_defs dc_default_def)
  show ?thesis
    using s1 s2 s3 by (rule three_steps)
qed

lemma leaked_run_stuck: "stuck_on 7 leaked_run"
  by (simp add: stuck_on_def leaked_run_def service_defs dc_default_def)

section \<open>Properties\<close>

text \<open>
  C15: In every reachable state of an \<^verbatim>\<open>H1Service\<close> the in-flight set holds exactly the connections
  whose call is running, without duplicates; and when its shutdown waits and the last of these calls
  has returned, the next poll of the shutdown future completes it.
\<close>

theorem h1_shutdown_completes:
  assumes "service_reachable False s" "sr_task s = Waiting"
  shows "set (dc_inflight (sr_cfg s)) = set (sr_calls s) \<and> distinct (dc_inflight (sr_cfg s)) \<and>
    (sr_calls s = [] \<longrightarrow> service_step False s (s\<lparr>sr_task := Finished\<rparr>))"
  using service_reachable_inv [OF assms(1)] assms(2)
  by (auto simp: service_inv_def poll_wait_shutdown_def intro: ss_poll)

definition h1_drained :: service_run where
  "h1_drained =
     \<lparr>sr_cfg = call_finish 7 (snd (h1_shutdown (snd (call_register 7 dc_default)))),
      sr_calls = [], sr_task = Waiting\<rparr>"

lemma h1_drained_reachable: "service_reachable False h1_drained"
proof -
  let ?s1 = "sr_init\<lparr>sr_cfg := snd (call_register 7 dc_default), sr_calls := [7]\<rparr>"
  let ?s2 = "?s1\<lparr>sr_cfg := snd (h1_shutdown (sr_cfg ?s1)), sr_task := Waiting\<rparr>"
  have s1: "service_step False sr_init ?s1"
    using ss_connect [of 7 sr_init False] by (simp add: sr_init_def dc_default_def)
  have s2: "service_step False ?s1 ?s2"
    using ss_shutdown [of ?s1 False Waiting "snd (h1_shutdown (sr_cfg ?s1))"]
    by (simp add: sr_init_def service_defs dc_default_def)
  have s3: "service_step False ?s2 h1_drained"
    using ss_finish [of 7 ?s2 False] by (simp add: sr_init_def h1_drained_def)
  show ?thesis
    using s1 s2 s3 by (rule three_steps)
qed

theorem h1_shutdown_completes_witness:
  "service_step False h1_drained (h1_drained\<lparr>sr_task := Finished\<rparr>)"
  using h1_shutdown_completes [OF h1_drained_reachable] by (simp add: h1_drained_def)

text \<open>
  C16: The shutdown notification is sent only by a step that leaves no connection registered, and
  only after the service was told to shut down: a shutdown that waits is never released while a
  connection is still being served.
\<close>

theorem shutdown_never_early:
  assumes "service_step leaky s s'" "\<not> dc_sent (sr_cfg s)" "dc_sent (sr_cfg s')"
  shows "dc_inflight (sr_cfg s') = [] \<and> fl_contains (dc_flags (sr_cfg s')) DF_SHUTDOWN"
  using dc_sent_step [OF assms] by (simp add: dc_is_shutdown_def)

theorem shutdown_never_early_witness: "dc_inflight (sr_cfg h1_drained) = []"
proof -
  let ?s = "\<lparr>sr_cfg = snd (h1_shutdown (snd (call_register 7 dc_default))), sr_calls = [7],
             sr_task = Waiting\<rparr>"
  have step: "service_step False ?s h1_drained"
    using ss_finish [of 7 ?s False] by (simp add: h1_drained_def)
  have "\<not> dc_sent (sr_cfg ?s)" "dc_sent (sr_cfg h1_drained)"
    by (simp_all add: h1_drained_def service_defs dc_default_def flag_simps)
  from shutdown_never_early [OF step this] show ?thesis ..
qed

text \<open>
  C17: \<^verbatim>\<open>HttpService::call\<close> registers the connection before it creates the control service and
  returns without removing it when that fails. After such a failure there is a reachable state with
  no running call from which the shutdown never finishes, whatever the service does next.
\<close>

theorem http_service_shutdown_stuck:
  "\<exists>s. service_reachable True s \<and> sr_calls s = [] \<and>
     Collect ((service_step True)\<^sup>*\<^sup>* s) \<subseteq> {s'. sr_task s' = Waiting}"
proof (intro exI conjI)
  show "service_reachable True leaked_run" by (rule leaked_run_reachable)
  show "sr_calls leaked_run = []" by (simp add: leaked_run_def)
  show "Collect ((service_step True)\<^sup>*\<^sup>* leaked_run) \<subseteq> {s'. sr_task s' = Waiting}"
    using stuck_on_forever [OF _ leaked_run_stuck] by (auto simp: stuck_on_def)
qed

text \<open>
  The cached date header is always the 39 bytes \<^verbatim>\<open>date: \<close>, 29 bytes of date, and the two line
  ends that also finish the head, for every 29-byte text the date library produces; a second
  request before the cache expires gets the same bytes.
\<close>

lemma date_header_shape:
  assumes "date_wf d" "set_date_header httpdate d dst = Some (out, d')"
  shows "\<exists>date. length date = 29 \<and> out = dst @ date_line date \<and>
    set_date_header httpdate' d' [] = Some (date_line date, d')"
  using assms check_date_wf [of httpdate d d']
  by (auto simp: set_date_header_def date_wf_def check_date_def split: option.splits)

definition sample_date :: string where
  "sample_date = ''Sun, 06 Nov 1994 08:49:37 GMT''"

lemma set_date_header_sample:
  "set_date_header sample_date date_new [] =
     Some (date_line sample_date, \<lparr>ds_current = True, ds_current_date = date_line sample_date\<rparr>)"
proof -
  have "length sample_date = 29" by (simp add: sample_date_def)
  then show ?thesis
    by (simp add: set_date_header_def check_date_def date_update_def date_new_def date_patch_line)
qed

end
