(* ===== verification/H1_Encoder.thy ===== *)
theory H1_Encoder
  imports H1_Headers Http_Body Service_Config
begin

text \<open>
  The HTTP/1 message encoder (\<^verbatim>\<open>geario-http/src/h1/encoder.rs\<close>): decimal output through a digit table,
  status line, header block and transfer encodings. Writes through raw pointers are writes into a list
  at an index, \<open>None\<close> when they leave it; the uninitialised buffer of \<^verbatim>\<open>convert_usize\<close> is the argument
  \<open>junk\<close>. \<^verbatim>\<open>Uri::path_and_query\<close>, \<^verbatim>\<open>StatusCode::canonical_reason\<close> and the clock are parameters.
\<close>

section \<open>Decimal output\<close>

definition DEC_DIGITS_LUT :: bytes where
  "DEC_DIGITS_LUT =
     ''0001020304050607080910111213141516171819'' @
     ''2021222324252627282930313233343536373839'' @
     ''4041424344454647484950515253545556575859'' @
     ''6061626364656667686970717273747576777879'' @
     ''8081828384858687888990919293949596979899''"

text \<open>\<^verbatim>\<open>ptr::copy_nonoverlapping(lut + d, buf + at, 2)\<close> and the write of one digit.\<close>

definition copy_digits :: "nat \<Rightarrow> nat \<Rightarrow> bytes \<Rightarrow> bytes option" where
  "copy_digits d at buf =
     (if d + 2 \<le> length DEC_DIGITS_LUT \<and> at + 2 \<le> length buf
      then Some (take at buf @ take 2 (drop d DEC_DIGITS_LUT) @ drop (at + 2) buf)
      else None)"

definition put_digit :: "nat \<Rightarrow> nat \<Rightarrow> bytes \<Rightarrow> bytes option" where
  "put_digit n at buf = (if at < length buf then Some (buf[at := char_of (n + 48)]) else None)"

function convert_loop :: "nat \<Rightarrow> nat \<Rightarrow> bytes \<Rightarrow> (nat \<times> nat \<times> bytes) option" where
  "convert_loop n pos buf =
     (if n \<ge> 10000 then
        let rem = n mod 10000;
            d1 = (rem div 100) * 2;
            d2 = (rem mod 100) * 2
        in if pos < 4 then None
           else case copy_digits d1 (pos - 4) buf of
             None \<Rightarrow> None
           | Some buf1 \<Rightarrow>
               (case copy_digits d2 (pos - 2) buf1 of
                  None \<Rightarrow> None
                | Some buf2 \<Rightarrow> convert_loop (n div 10000) (pos - 4) buf2)
      else Some (n, pos, buf))"
  by pat_completeness auto
termination
  by (relation "measure (\<lambda>(n, _). n)") auto

declare convert_loop.simps [simp del]

text \<open>The last one or two digits.\<close>

definition convert_last :: "nat \<Rightarrow> nat \<Rightarrow> bytes \<Rightarrow> (nat \<times> bytes) option" where
  "convert_last n pos buf =
     (if n < 10 then
        if pos < 1 then None else map_option (Pair (pos - 1)) (put_digit n (pos - 1) buf)
      else
        if pos < 2 then None else map_option (Pair (pos - 2)) (copy_digits (n * 2) (pos - 2) buf))"

definition convert_usize :: "bytes \<Rightarrow> nat \<Rightarrow> bytes \<Rightarrow> bool \<Rightarrow> bytes option" where
  "convert_usize junk n dst eol =
     (let buf = junk[39 := CR, 40 := LF]
      in case convert_loop n 39 buf of
        None \<Rightarrow> None
      | Some (n, pos, buf) \<Rightarrow>
          (case
             (if n \<ge> 100 then
                if pos < 2 then None
                else map_option (\<lambda>b. (n div 100, pos - 2, b)) (copy_digits ((n mod 100) * 2) (pos - 2) buf)
              else Some (n, pos, buf)) of
             None \<Rightarrow> None
           | Some (n, pos, buf) \<Rightarrow>
               (case convert_last n pos buf of
                  None \<Rightarrow> None
                | Some (pos, buf) \<Rightarrow>
                    Some (dst @ take (if eol then 41 - pos else 39 - pos) (drop pos buf)))))"

definition write_content_length :: "bytes \<Rightarrow> nat \<Rightarrow> bytes \<Rightarrow> bytes option" where
  "write_content_length junk n dst =
     (if n < 10 then
        map_option (\<lambda>b. dst @ b) (put_digit n 18 (CRLF @ ''content-length: 0'' @ CRLF))
      else if n < 100 then
        map_option (\<lambda>b. dst @ b) (copy_digits (n * 2) 18 (CRLF @ ''content-length: 00'' @ CRLF))
      else if n < 1000 then
        case copy_digits ((n mod 100) * 2) 19 (CRLF @ ''content-length: 000'' @ CRLF) of
          None \<Rightarrow> None
        | Some buf \<Rightarrow> map_option (\<lambda>b. dst @ b) (put_digit (n div 100) 18 buf)
      else convert_usize junk n (dst @ CRLF @ ''content-length: '') True)"

definition status_line_buf :: "version \<Rightarrow> bytes" where
  "status_line_buf v =
     (case v of
        HTTP_2 \<Rightarrow> ''HTTP/2       ''
      | HTTP_10 \<Rightarrow> ''HTTP/1.0     ''
      | HTTP_09 \<Rightarrow> ''HTTP/0.9     ''
      | _ \<Rightarrow> ''HTTP/1.1     '')"

definition write_status_line :: "version \<Rightarrow> nat \<Rightarrow> bytes \<Rightarrow> bytes option" where
  "write_status_line version n dst =
     (let four = (n > 999);
          d1 = (n mod 100) * 2
      in case copy_digits d1 10 (status_line_buf version) of
           None \<Rightarrow> None
         | Some buf \<Rightarrow>
             (case convert_last (n div 100) 10 buf of
                None \<Rightarrow> None
              | Some (_, buf) \<Rightarrow> Some (dst @ buf @ (if four then '' '' else []))))"

section \<open>Transfer encodings\<close>

datatype te_kind = TChunked bool | TLength nat | TEof

record transfer_encoding =
  te_kind :: te_kind

definition te_empty :: transfer_encoding where "te_empty = \<lparr>te_kind = TLength 0\<rparr>"
definition te_eof :: transfer_encoding where "te_eof = \<lparr>te_kind = TEof\<rparr>"
definition te_chunked :: transfer_encoding where "te_chunked = \<lparr>te_kind = TChunked False\<rparr>"
definition te_length :: "nat \<Rightarrow> transfer_encoding" where "te_length len = \<lparr>te_kind = TLength len\<rparr>"

text \<open>The format \<^verbatim>\<open>{:X}\<close>.\<close>

definition hex_digit :: "nat \<Rightarrow> char" where
  "hex_digit d = (if d < 10 then char_of (48 + d) else char_of (55 + d))"

fun hex_upper :: "nat \<Rightarrow> bytes" where
  "hex_upper n = (if n < 16 then [hex_digit n] else hex_upper (n div 16) @ [hex_digit (n mod 16)])"

declare hex_upper.simps [simp del]

text \<open>The result is whether the encoding is at its end.\<close>

definition te_encode ::
  "transfer_encoding \<Rightarrow> bytes \<Rightarrow> bytes \<Rightarrow> (encode_error + bool) \<times> transfer_encoding \<times> bytes" where
  "te_encode te msg buf =
     (case te_kind te of
        TEof \<Rightarrow> if msg = [] then (Ok True, te, buf) else (Ok False, te, buf @ msg)
      | TChunked eof \<Rightarrow>
          if eof then (Ok True, te, buf)
          else if msg = [] then
            (Ok True, te\<lparr>te_kind := TChunked True\<rparr>, buf @ ''0'' @ CRLF @ CRLF)
          else (Ok False, te, buf @ hex_upper (length msg) @ CRLF @ msg @ CRLF)
      | TLength remaining \<Rightarrow>
          if remaining > 0 then
            if msg = [] then (Ok (remaining = 0), te, buf)
            else
              let len = min remaining (length msg);
                  remaining = remaining - len
              in (Ok (remaining = 0), te\<lparr>te_kind := TLength remaining\<rparr>, buf @ take len msg)
          else (Ok True, te, buf))"

definition te_encode_eof ::
  "transfer_encoding \<Rightarrow> bytes \<Rightarrow> (encode_error + unit) \<times> transfer_encoding \<times> bytes" where
  "te_encode_eof te buf =
     (case te_kind te of
        TEof \<Rightarrow> (Ok (), te, buf)
      | TLength rem \<Rightarrow> if rem \<noteq> 0 then (Err UnexpectedEof, te, buf) else (Ok (), te, buf)
      | TChunked eof \<Rightarrow>
          if \<not> eof then (Ok (), te\<lparr>te_kind := TChunked True\<rparr>, buf @ ''0'' @ CRLF @ CRLF)
          else (Ok (), te, buf))"

section \<open>The head\<close>

text \<open>The trait \<^verbatim>\<open>encoder::MessageType\<close>, and its implementations for responses and request heads.\<close>

record 't enc_type =
  et_status :: "'t \<Rightarrow> status_code option"
  et_headers :: "'t \<Rightarrow> header_map"
  et_chunked :: "'t \<Rightarrow> bool"
  et_encode_status :: "'t \<Rightarrow> bytes \<Rightarrow> bytes option"

definition rs_encode_status :: "(status_code \<Rightarrow> string option) \<Rightarrow> response_head \<Rightarrow> bytes \<Rightarrow> bytes option" where
  "rs_encode_status canonical_reason h dst =
     (case write_status_line (rs_version h) (rs_status h) dst of
        None \<Rightarrow> None
      | Some dst \<Rightarrow> Some (dst @ rs_reason_str canonical_reason h))"

definition enc_response :: "(status_code \<Rightarrow> string option) \<Rightarrow> response_head enc_type" where
  "enc_response canonical_reason =
     \<lparr>et_status = (\<lambda>h. Some (rs_status h)), et_headers = rs_headers, et_chunked = rs_chunked,
      et_encode_status = rs_encode_status canonical_reason\<rparr>"

definition rq_encode_status :: "(uri \<Rightarrow> string option) \<Rightarrow> request_head \<Rightarrow> bytes \<Rightarrow> bytes option" where
  "rq_encode_status path_and_query h dst =
     Some (dst @ rq_method h @ '' '' @
       (if rq_absolute_uri h then rq_uri h
        else case path_and_query (rq_uri h) of None \<Rightarrow> ''/'' | Some u \<Rightarrow> u) @
       '' '' @
       (case rq_version h of HTTP_09 \<Rightarrow> ''HTTP/0.9'' | HTTP_10 \<Rightarrow> ''HTTP/1.0'' | _ \<Rightarrow> ''HTTP/1.1''))"

definition enc_request :: "(uri \<Rightarrow> string option) \<Rightarrow> request_head enc_type" where
  "enc_request path_and_query =
     \<lparr>et_status = (\<lambda>_. None), et_headers = rq_headers, et_chunked = rq_chunked,
      et_encode_status = rq_encode_status path_and_query\<rparr>"

definition H_DATE :: header_name where "H_DATE = ''date''"

lemma H_DATE_neq [simp]:
  "H_DATE \<noteq> H_CONTENT_LENGTH" "H_DATE \<noteq> H_TRANSFER_ENCODING" "H_DATE \<noteq> H_CONNECTION"
  "H_CONTENT_LENGTH \<noteq> H_DATE" "H_TRANSFER_ENCODING \<noteq> H_DATE" "H_CONNECTION \<noteq> H_DATE"
  by (simp_all add: H_DATE_def header_name_defs)

fun put_header :: "header_name \<Rightarrow> hvalue \<Rightarrow> bytes \<Rightarrow> bytes" where
  "put_header key (One v) dst = dst @ key @ '': '' @ hv_inner v @ CRLF"
| "put_header key (Multi vec) dst = foldl (\<lambda>dst v. dst @ key @ '': '' @ hv_inner v @ CRLF) dst vec"

text \<open>One round of the header loop: the output and \<^verbatim>\<open>has_date\<close>.\<close>

definition header_step :: "bool \<Rightarrow> bytes \<times> bool \<Rightarrow> header_name \<times> hvalue \<Rightarrow> bytes \<times> bool" where
  "header_step skip_len = (\<lambda>(dst, has_date) (key, v).
     if key = H_CONNECTION then (dst, has_date)
     else if (key = H_TRANSFER_ENCODING \<or> key = H_CONTENT_LENGTH) \<and> skip_len then (dst, has_date)
     else (put_header key v dst, has_date \<or> key = H_DATE))"

text \<open>The effect of the status on the length, and the framing line.\<close>

definition status_length :: "status_code option \<Rightarrow> body_size \<Rightarrow> bool \<times> body_size" where
  "status_length status len =
     (let skip_len = (len \<noteq> SzStream)
      in case status of
        None \<Rightarrow> (skip_len, len)
      | Some st \<Rightarrow>
          if st = 204 \<or> st = 100 \<or> st = 102 then (skip_len, SzNone)
          else if st = 101 then (True, SzStream)
          else (skip_len, len))"

definition write_framing :: "bytes \<Rightarrow> bool \<Rightarrow> bool \<times> body_size \<Rightarrow> bytes \<Rightarrow> (bool \<times> bytes) option" where
  "write_framing junk chunked = (\<lambda>(skip_len, len) dst.
     case len of
       SzNone \<Rightarrow> Some (skip_len, dst @ CRLF)
     | SzEmpty \<Rightarrow> Some (skip_len, dst @ CRLF @ ''content-length: 0'' @ CRLF)
     | SzSized n \<Rightarrow> map_option (Pair skip_len) (write_content_length junk n dst)
     | SzStream \<Rightarrow>
         if chunked then Some (True, dst @ CRLF @ ''transfer-encoding: chunked'' @ CRLF)
         else Some (False, dst @ CRLF))"

definition write_connection :: "version \<Rightarrow> connection_type \<Rightarrow> bytes \<Rightarrow> bytes" where
  "write_connection version ctype dst =
     (if ctype = Upgrade then dst @ ''connection: upgrade'' @ CRLF
      else if ctype = KeepAlive \<and> version < HTTP_11 then dst @ ''connection: keep-alive'' @ CRLF
      else if ctype = Close \<and> version \<ge> HTTP_11 then dst @ ''connection: close'' @ CRLF
      else dst)"

text \<open>
  \<^verbatim>\<open>encode_headers\<close> never returns an error; it threads the cached date. \<^verbatim>\<open>HashMap\<close> iteration visits the
  entries in the order of the map's list.
\<close>

definition encode_headers ::
  "'t enc_type \<Rightarrow> 't \<Rightarrow> bytes \<Rightarrow> string \<Rightarrow> date_service \<Rightarrow> bytes \<Rightarrow> version \<Rightarrow> body_size \<Rightarrow> connection_type \<Rightarrow>
   header_map option \<Rightarrow> (bytes \<times> date_service) option" where
  "encode_headers T msg junk httpdate ds dst version len ctype extra =
     (case write_framing junk (et_chunked T msg) (status_length (et_status T msg) len) dst of
        None \<Rightarrow> None
      | Some (skip_len, dst) \<Rightarrow>
          let dst = write_connection version ctype dst;
              extra_headers = (case extra of None \<Rightarrow> hm_new | Some m \<Rightarrow> m);
              headers = filter (\<lambda>(name, _). map_of extra_headers name = None) (et_headers T msg) @ extra_headers;
              (dst, has_date) = foldl (header_step skip_len) (dst, False) headers
          in if has_date then Some (dst @ CRLF, ds) else set_date_header httpdate ds dst)"

text \<open>\<^verbatim>\<open>MessageEncoder\<close>; its \<^verbatim>\<open>length\<close> field is written by nobody.\<close>

record message_encoder =
  me_length :: body_size
  me_te :: transfer_encoding

definition me_default :: message_encoder where
  "me_default = \<lparr>me_length = SzNone, me_te = te_empty\<rparr>"

definition me_encode_chunk ::
  "message_encoder \<Rightarrow> bytes \<Rightarrow> bytes \<Rightarrow> (encode_error + bool) \<times> message_encoder \<times> bytes" where
  "me_encode_chunk me msg buf = (let (r, te, buf') = te_encode (me_te me) msg buf in (r, me\<lparr>me_te := te\<rparr>, buf'))"

definition me_encode_eof ::
  "message_encoder \<Rightarrow> bytes \<Rightarrow> (encode_error + unit) \<times> message_encoder \<times> bytes" where
  "me_encode_eof me buf = (let (r, te, buf') = te_encode_eof (me_te me) buf in (r, me\<lparr>me_te := te\<rparr>, buf'))"

definition me_transfer :: "bool \<Rightarrow> bool \<Rightarrow> bool \<Rightarrow> body_size \<Rightarrow> transfer_encoding" where
  "me_transfer chunked head stream len =
     (if head then te_empty
      else case len of
        SzEmpty \<Rightarrow> te_empty
      | SzNone \<Rightarrow> te_empty
      | SzSized n \<Rightarrow> te_length n
      | SzStream \<Rightarrow> if chunked \<and> \<not> stream then te_chunked else te_eof)"

definition me_encode ::
  "message_encoder \<Rightarrow> 't enc_type \<Rightarrow> 't \<Rightarrow> bytes \<Rightarrow> string \<Rightarrow> date_service \<Rightarrow> bytes \<Rightarrow> bool \<Rightarrow> bool \<Rightarrow> version \<Rightarrow>
   body_size \<Rightarrow> connection_type \<Rightarrow> header_map option \<Rightarrow> (message_encoder \<times> bytes \<times> date_service) option" where
  "me_encode me T msg junk httpdate ds dst head stream version len ctype extra =
     (let me = me\<lparr>me_te := me_transfer (et_chunked T msg) head stream len\<rparr>
      in case et_encode_status T msg dst of
           None \<Rightarrow> None
         | Some dst \<Rightarrow> map_option (Pair me) (encode_headers T msg junk httpdate ds dst version len ctype extra))"

section \<open>Decimal output is decimal\<close>

definition digit :: "nat \<Rightarrow> char" where
  "digit d = char_of (d + 48)"

fun dec :: "nat \<Rightarrow> bytes" where
  "dec n = (if n < 10 then [digit n] else dec (n div 10) @ [digit (n mod 10)])"

declare dec.simps [simp del]

lemma dec_small: "n < 10 \<Longrightarrow> dec n = [digit n]"
  by (simp add: dec.simps)

definition pair :: "nat \<Rightarrow> bytes" where
  "pair k = [digit (k div 10), digit (k mod 10)]"

lemma length_pair [simp]: "length (pair k) = 2"
  by (simp add: pair_def)

lemma length_LUT [simp]: "length DEC_DIGITS_LUT = 200"
  by (simp add: DEC_DIGITS_LUT_def)

lemma LUT_pairs: "DEC_DIGITS_LUT = concat (map pair [0..<100])"
  by code_simp

lemma concat_pairs:
  "take 2 (drop (2 * k) (concat (map pair [m..<m + n]))) = pair (m + k)" if "k < n"
  using that
proof (induction k arbitrary: m n)
  case 0
  then show ?case by (cases n) (simp_all add: upt_conv_Cons del: upt_Suc)
next
  case (Suc k)
  then obtain j where "n = Suc j" "k < j" by (cases n) auto
  with Suc.IH [of j "Suc m"] show ?case by (simp add: upt_conv_Cons del: upt_Suc)
qed

lemma LUT_pair: "k < 100 \<Longrightarrow> take 2 (drop (k * 2) DEC_DIGITS_LUT) = pair k"
  using concat_pairs [of k 100 0] by (simp add: LUT_pairs mult.commute)

lemma copy_digits_pair:
  "k < 100 \<Longrightarrow> at + 2 \<le> length buf \<Longrightarrow>
   copy_digits (k * 2) at buf = Some (take at buf @ pair k @ drop (at + 2) buf)"
  by (simp add: copy_digits_def LUT_pair)

lemma dec_pair:
  assumes "10 \<le> n" "n < 100"
  shows "dec n = pair n"
  using assms by (simp add: dec.simps [of n] dec_small pair_def less_mult_imp_div_less)

lemma mod_div_swap: "0 < a \<Longrightarrow> n mod (a * b) div a = n div a mod (b :: nat)"
  by (simp add: mod_mult2_eq)

lemma dec_hundred:
  assumes "100 \<le> n"
  shows "dec n = dec (n div 100) @ pair (n mod 100)"
proof -
  have "10 \<le> n div 10" using assms by simp
  then have "dec n = dec (n div 10 div 10) @ [digit (n div 10 mod 10), digit (n mod 10)]"
    using assms by (simp add: dec.simps [of n] dec.simps [of "n div 10"])
  moreover have "n div 10 mod 10 = n mod 100 div 10" "n mod 10 = n mod 100 mod 10"
    using mod_div_swap [of 10 n 10] by (simp_all add: mod_mod_cancel)
  ultimately show ?thesis by (simp add: pair_def div_mult2_eq [symmetric])
qed

lemma dec_ten_thousand:
  assumes "10000 \<le> n"
  shows "dec n = dec (n div 10000) @ pair (n mod 10000 div 100) @ pair (n mod 10000 mod 100)"
proof -
  have "100 \<le> n div 100" using assms by simp
  then have "dec n = dec (n div 100 div 100) @ pair (n div 100 mod 100) @ pair (n mod 100)"
    using assms by (simp add: dec_hundred [of n] dec_hundred [of "n div 100"])
  moreover have "n div 100 mod 100 = n mod 10000 div 100" "n mod 100 = n mod 10000 mod 100"
    using mod_div_swap [of 100 n 100] by (simp_all add: mod_mod_cancel)
  ultimately show ?thesis by (simp add: div_mult2_eq [symmetric])
qed

text \<open>The loop writes the low digits in front of position \<open>pos\<close>, four at a time.\<close>

lemma convert_loop_writes:
  assumes "n < 10000 ^ Suc k" "4 * k \<le> pos" "pos \<le> length buf"
  shows "\<exists>n' pos' buf' ds. convert_loop n pos buf = Some (n', pos', buf') \<and> n' < 10000 \<and>
    dec n = dec n' @ ds \<and> pos - 4 * k \<le> pos' \<and> pos' \<le> pos \<and> length buf' = length buf \<and>
    drop pos' buf' = ds @ drop pos buf"
  using assms
proof (induction k arbitrary: n pos buf)
  case 0
  then show ?case by (subst convert_loop.simps) auto
next
  case (Suc k)
  show ?case
  proof (cases "n < 10000")
    case True
    then show ?thesis by (subst convert_loop.simps) auto
  next
    case False
    let ?rem = "n mod 10000"
    have pairs: "?rem div 100 < 100" "?rem mod 100 < 100" by (simp_all add: less_mult_imp_div_less)
    define buf2 where "buf2 = take (pos - 4) buf @ pair (?rem div 100) @ pair (?rem mod 100) @ drop pos buf"
    have pos: "Suc (Suc (Suc (Suc (pos - 4)))) = pos" using Suc.prems by simp
    have c: "convert_loop n pos buf = convert_loop (n div 10000) (pos - 4) buf2"
      using False Suc.prems pairs
      by (subst convert_loop.simps) (simp add: copy_digits_pair buf2_def Let_def pos)
    have len: "length buf2 = length buf" "drop (pos - 4) buf2 = pair (?rem div 100) @ pair (?rem mod 100) @ drop pos buf"
      using Suc.prems by (simp_all add: buf2_def)
    have "n div 10000 < 10000 ^ Suc k"
      using Suc.prems(1) by (simp add: less_mult_imp_div_less mult.commute)
    moreover have "4 * k \<le> pos - 4" "pos - 4 \<le> length buf2" using Suc.prems len by auto
    ultimately obtain n' pos' buf' ds where
      ih: "convert_loop (n div 10000) (pos - 4) buf2 = Some (n', pos', buf')" "n' < 10000"
        "dec (n div 10000) = dec n' @ ds" "pos - 4 - 4 * k \<le> pos'" "pos' \<le> pos - 4" "length buf' = length buf2"
        "drop pos' buf' = ds @ drop (pos - 4) buf2"
      using Suc.IH by blast
    have "dec n = dec n' @ (ds @ pair (?rem div 100) @ pair (?rem mod 100))"
      using dec_ten_thousand [of n] False ih(3) by simp
    with c ih len show ?thesis by fastforce
  qed
qed

lemma convert_last_writes:
  assumes "n < 100" "2 \<le> pos" "pos \<le> length buf"
  shows "\<exists>pos' buf'. convert_last n pos buf = Some (pos', buf') \<and> pos' \<le> pos \<and> length buf' = length buf \<and>
    pos' = pos - length (dec n) \<and> drop pos' buf' = dec n @ drop pos buf"
proof (cases "n < 10")
  case True
  with assms show ?thesis
    by (auto simp: convert_last_def put_digit_def dec_small digit_def upd_conv_take_nth_drop)
next
  case False
  moreover have "Suc (Suc (pos - 2)) = pos" using assms by simp
  ultimately show ?thesis
    using assms by (auto simp: convert_last_def copy_digits_pair dec_pair)
qed

lemma convert_usize_dec:
  assumes "n < 2 ^ 64" "length junk = 41"
  shows "convert_usize junk n dst eol = Some (dst @ dec n @ (if eol then CRLF else []))"
proof -
  let ?buf = "junk[39 := CR, 40 := LF]"
  have tail: "drop 39 ?buf = CRLF"
    using assms(2) by (intro nth_equalityI) (auto simp: nth_list_update less_Suc_eq numeral_2_eq_2)
  have "n < 10000 ^ Suc 4" using assms(1) by simp
  from convert_loop_writes [OF this, of 39 ?buf] assms(2) obtain n' pos' buf' ds where
    l: "convert_loop n 39 ?buf = Some (n', pos', buf')" "n' < 10000" "dec n = dec n' @ ds" "23 \<le> pos'" "pos' \<le> 39"
      "length buf' = 41" "drop pos' buf' = ds @ CRLF"
    using tail by auto
  define mid where "mid = (if n' \<ge> 100 then
      if pos' < 2 then None
      else map_option (\<lambda>b. (n' div 100, pos' - 2, b)) (copy_digits ((n' mod 100) * 2) (pos' - 2) buf')
    else Some (n', pos', buf'))"
  have "\<exists>m p b. mid = Some (m, p, b) \<and> m < 100 \<and> 21 \<le> p \<and> p \<le> 39 \<and> length b = 41 \<and> (\<exists>ds. dec n = dec m @ ds \<and> drop p b = ds @ CRLF)"
  proof (cases "n' \<ge> 100")
    case True
    have "Suc (Suc (pos' - 2)) = pos'" using l by simp
    moreover have "length ds + 2 = 41 - pos'" using arg_cong [OF l(7), of length] l(6) by simp
    moreover have "dec n' = dec (n' div 100) @ pair (n' mod 100)" by (rule dec_hundred [OF True])
    ultimately show ?thesis
      using l True by (auto simp: mid_def copy_digits_pair less_mult_imp_div_less)
  qed (use l in \<open>auto simp: mid_def\<close>)
  then obtain m p b ds' where m: "mid = Some (m, p, b)" "m < 100" "21 \<le> p" "p \<le> 39" "length b = 41"
      "dec n = dec m @ ds'" "drop p b = ds' @ CRLF"
    by blast
  from convert_last_writes [OF m(2), of p b] m obtain p' b' where
    c: "convert_last m p b = Some (p', b')" "p' \<le> p" "length b' = 41" "drop p' b' = dec n @ CRLF"
    by auto
  have len: "length (dec n) = 39 - p'" using arg_cong [OF c(4), of length] c(2,3) by simp
  have "convert_usize junk n dst eol = Some (dst @ take (if eol then 41 - p' else 39 - p') (drop p' b'))"
    using l(1) m(1) c(1) by (simp add: convert_usize_def mid_def Let_def)
  also have "take (if eol then 41 - p' else 39 - p') (drop p' b') = dec n @ (if eol then CRLF else [])"
    using c len m(4) by (auto simp: Suc_diff_le)
  finally show ?thesis .
qed

lemma dec_three:
  assumes "100 \<le> n" "n < 1000"
  shows "dec n = digit (n div 100) # pair (n mod 100)"
  using assms by (simp add: dec_hundred dec_small less_mult_imp_div_less)

lemma write_content_length_dec:
  assumes "n < 2 ^ 64" "length junk = 41"
  shows "write_content_length junk n dst = Some (dst @ CRLF @ ''content-length: '' @ dec n @ CRLF)"
proof -
  consider "n < 10" | "10 \<le> n" "n < 100" | "100 \<le> n" "n < 1000" | "1000 \<le> n" by linarith
  then show ?thesis
  proof cases
    case 1
    then show ?thesis by (simp add: write_content_length_def put_digit_def dec_small digit_def eval_nat_numeral)
  next
    case 2
    then show ?thesis
      by (simp add: write_content_length_def copy_digits_pair dec_pair)
  next
    case 3
    then show ?thesis
      by (simp add: write_content_length_def copy_digits_pair dec_three put_digit_def digit_def)
  next
    case 4
    then show ?thesis by (simp add: write_content_length_def convert_usize_dec [OF assms])
  qed
qed

definition version_text :: "version \<Rightarrow> bytes" where
  "version_text v =
     (case v of HTTP_2 \<Rightarrow> ''HTTP/2  '' | HTTP_10 \<Rightarrow> ''HTTP/1.0'' | HTTP_09 \<Rightarrow> ''HTTP/0.9'' | _ \<Rightarrow> ''HTTP/1.1'')"

lemma write_status_line_dec:
  assumes "100 \<le> n" "n < 1000"
  shows "write_status_line version n dst = Some (dst @ version_text version @ '' '' @ dec n @ '' '')"
proof -
  have "n div 100 < 10" using assms by (simp add: less_mult_imp_div_less)
  then show ?thesis
    using assms
    by (cases version)
      (simp_all add: write_status_line_def status_line_buf_def version_text_def copy_digits_pair dec_three
        convert_last_def put_digit_def digit_def Let_def)
qed

section \<open>Bodies written and read back\<close>

text \<open>
  What is needed of \<^verbatim>\<open>parse_chunk_size\<close> to read back what \<^verbatim>\<open>{:X}\<close> wrote: an upper-case hexadecimal
  number that fits 64 bits, ended by CR LF, is a complete size line.
\<close>

definition chunk_size_hex :: "chunk_size_fun \<Rightarrow> bool" where
  "chunk_size_hex pcs \<longleftrightarrow>
     (\<forall>n rest. n < 2 ^ 64 \<longrightarrow> pcs (hex_upper n @ CRLF @ rest) = Ok (Complete (length (hex_upper n) + 2, n)))"

text \<open>Encoding the chunks of a body one after the other.\<close>

fun te_encode_all ::
  "transfer_encoding \<Rightarrow> bytes list \<Rightarrow> bytes \<Rightarrow> (encode_error + bool list) \<times> transfer_encoding \<times> bytes" where
  "te_encode_all te [] buf = (Ok [], te, buf)"
| "te_encode_all te (c # cs) buf =
     (case te_encode te c buf of
        (Err e, te', buf') \<Rightarrow> (Err e, te', buf')
      | (Ok b, te', buf') \<Rightarrow>
          (case te_encode_all te' cs buf' of
             (Err e, te'', buf'') \<Rightarrow> (Err e, te'', buf'')
           | (Ok bs, te'', buf'') \<Rightarrow> (Ok (b # bs), te'', buf'')))"

definition chunk_wire :: "bytes \<Rightarrow> bytes" where
  "chunk_wire c = hex_upper (length c) @ CRLF @ c @ CRLF"

lemma te_encode_all_chunked:
  "[] \<notin> set cs \<Longrightarrow>
   te_encode_all te_chunked cs buf = (Ok (replicate (length cs) False), te_chunked, buf @ concat (map chunk_wire cs))"
  by (induction cs arbitrary: buf) (auto simp: te_encode_def te_chunked_def chunk_wire_def)

lemma chunked_run_step:
  assumes "chunked_step pcs st src sz = Some (Ready (Ok st'), src', sz', buf)" "st' \<noteq> CS_End" "buf \<noteq> None \<or> src' \<noteq> []"
  shows "chunked_run pcs st sz src = prepend (case buf of None \<Rightarrow> [] | Some b \<Rightarrow> b) (chunked_run pcs st' sz' src')"
  using assms by (subst chunked_run.simps) auto

lemma chunked_run_chunk:
  assumes "chunk_size_hex pcs" "c \<noteq> []" "length c < 2 ^ 64" "rest \<noteq> []"
  shows "chunked_run pcs CS_Size sz (chunk_wire c @ rest) = prepend c (chunked_run pcs CS_Size 0 rest)"
proof -
  have "chunked_step pcs CS_Size (chunk_wire c @ rest) sz = Some (Ready (Ok CS_Body), c @ CRLF @ rest, length c, None)"
    using assms by (simp add: chunk_wire_def chunk_size_hex_def)
  from chunked_run_step [OF this]
  have "chunked_run pcs CS_Size sz (chunk_wire c @ rest) = chunked_run pcs CS_Body (length c) (c @ CRLF @ rest)"
    by simp
  moreover have "chunked_step pcs CS_Body (c @ CRLF @ rest) (length c) = Some (Ready (Ok CS_BodyCr), CRLF @ rest, 0, Some c)"
    using assms(2) by (simp add: read_body_def Let_def)
  from chunked_run_step [OF this]
  have "chunked_run pcs CS_Body (length c) (c @ CRLF @ rest) = prepend c (chunked_run pcs CS_BodyCr 0 (CRLF @ rest))"
    by simp
  moreover have "chunked_run pcs CS_BodyCr 0 (CRLF @ rest) = chunked_run pcs CS_BodyLf 0 (LF # rest)"
    by (subst chunked_run.simps) simp
  moreover have "chunked_run pcs CS_BodyLf 0 (LF # rest) = chunked_run pcs CS_Size 0 rest"
    using assms(4) by (subst chunked_run.simps) simp
  ultimately show ?thesis by simp
qed

lemma chunked_run_end:
  assumes "chunk_size_hex pcs"
  shows "chunked_run pcs CS_Size sz (''0'' @ CRLF @ CRLF @ rest) = Some ([], AtEof, CS_End, 0, rest)"
proof -
  have "hex_upper 0 = ''0''" by (simp add: hex_upper.simps hex_digit_def char_of_def bit_0)
  then have "pcs (''0'' @ CRLF @ CRLF @ rest) = Ok (Complete (3, 0))"
    using assms [unfolded chunk_size_hex_def, rule_format, of 0 "CRLF @ rest"] by simp
  then have "chunked_step pcs CS_Size (''0'' @ CRLF @ CRLF @ rest) sz = Some (Ready (Ok CS_EndCr), CRLF @ rest, 0, None)"
    by simp
  from chunked_run_step [OF this]
  have "chunked_run pcs CS_Size sz (''0'' @ CRLF @ CRLF @ rest) = chunked_run pcs CS_EndCr 0 (CRLF @ rest)"
    by simp
  also have "\<dots> = chunked_run pcs CS_EndLf 0 (LF # rest)" by (subst chunked_run.simps) simp
  also have "\<dots> = Some ([], AtEof, CS_End, 0, rest)" by (subst chunked_run.simps) simp
  finally show ?thesis .
qed

lemma chunked_run_wire:
  assumes "chunk_size_hex pcs" "[] \<notin> set cs" "\<forall>c\<in>set cs. length c < 2 ^ 64"
  shows "chunked_run pcs CS_Size sz (concat (map chunk_wire cs) @ ''0'' @ CRLF @ CRLF @ rest) =
    Some (concat cs, AtEof, CS_End, 0, rest)"
  using assms(2,3)
proof (induction cs arbitrary: sz)
  case Nil
  then show ?case using chunked_run_end [OF assms(1)] by simp
next
  case (Cons c cs)
  then have "c \<noteq> []" "length c < 2 ^ 64" by auto
  from chunked_run_chunk [OF assms(1) this, of "concat (map chunk_wire cs) @ ''0'' @ CRLF @ CRLF @ rest"] Cons
  show ?case by simp
qed

lemma hex_value_digit: "d < 16 \<Longrightarrow> hex_value (hex_digit d) = Some d"
  by (auto simp: hex_value_def hex_digit_def byte_val_def)

lemma simple_chunk_size_go_hex:
  "simple_chunk_size_go acc k (hex_upper n @ rest) =
   simple_chunk_size_go (16 ^ length (hex_upper n) * acc + n) (k + length (hex_upper n)) rest"
proof (induction n arbitrary: acc k rest rule: hex_upper.induct)
  case (1 n)
  show ?case
  proof (cases "n < 16")
    case True
    then show ?thesis by (simp add: hex_upper.simps hex_value_digit)
  next
    case False
    with 1 [of acc k "hex_digit (n mod 16) # rest"] show ?thesis
      by (simp add: hex_upper.simps [of n] hex_value_digit algebra_simps)
  qed
qed

lemma hex_upper_not_Nil [simp]: "hex_upper n \<noteq> []"
  by (simp add: hex_upper.simps)

lemma simple_chunk_size_hex: "chunk_size_hex simple_chunk_size"
  by (simp add: chunk_size_hex_def simple_chunk_size_def simple_chunk_size_go_hex hex_value_def byte_val_def)

lemma te_encode_all_length:
  "\<exists>bs. te_encode_all (te_length n) cs buf =
     (Ok bs, te_length (n - length (concat cs)), buf @ take n (concat cs))"
proof (induction cs arbitrary: n buf)
  case Nil
  then show ?case by simp
next
  case (Cons c cs)
  have "\<exists>b. te_encode (te_length n) c buf = (Ok b, te_length (n - length c), buf @ take n c)"
    by (auto simp: te_encode_def te_length_def Let_def min_def)
  with Cons [of "n - length c" "buf @ take n c"] show ?case by auto
qed

end
