(* ===== verification/Http_Response.thy ===== *)
theory Http_Response
  imports H1_Encoder
begin

text \<open>
  Responses and their builder (\<^verbatim>\<open>geario-http/src/response.rs\<close>, \<^verbatim>\<open>httpcodes.rs\<close>), the error type of
  \<^verbatim>\<open>types/error.rs\<close> and the default \<^verbatim>\<open>ResponseError::error_response\<close> of \<^verbatim>\<open>error.rs\<close>.

  A conversion \<^verbatim>\<open>HeaderName::try_from\<close> or \<^verbatim>\<open>HeaderValue::try_from\<close> has happened in the argument: a key or
  a value is the result of it. Heads come from the thread's pool, which is an argument. Cookies belong
  to the \<^verbatim>\<open>cookie\<close> crate: a jar is a value of type \<open>'j\<close> with the operations of a record. \<^const>\<open>None\<close> is the
  panic \<^verbatim>\<open>cannot reuse response builder\<close>.
\<close>

section \<open>Errors\<close>

datatype error_kind =
    EkStatusCode | EkMethod | EkUri | EkUriParts | EkHeaderName | EkHeaderValue | EkHttp

text \<open>The error values of the \<^verbatim>\<open>http\<close> crate, by their type.\<close>

datatype http_crate_error =
    HcInvalidStatusCode | HcInvalidMethod | HcInvalidUri | HcInvalidUriParts
  | HcInvalidHeaderName | HcInvalidHeaderValue | HcOther

fun error_from_http :: "http_crate_error \<Rightarrow> error_kind" where
  "error_from_http HcInvalidStatusCode = EkStatusCode"
| "error_from_http HcInvalidMethod = EkMethod"
| "error_from_http HcInvalidUri = EkUri"
| "error_from_http HcInvalidHeaderName = EkHeaderName"
| "error_from_http HcInvalidHeaderValue = EkHeaderValue"
| "error_from_http _ = EkHttp"

definition error_from_header_value :: "invalid_header_value \<Rightarrow> error_kind" where
  "error_from_header_value err = EkHeaderValue"

text \<open>\<^verbatim>\<open>Display\<close> of an error: the text of the error behind \<^verbatim>\<open>get_ref\<close>.\<close>

fun error_display :: "error_kind \<Rightarrow> string" where
  "error_display EkStatusCode = ''Invalid status code''"
| "error_display EkMethod = ''Invalid HTTP method''"
| "error_display EkUri = ''Invalid URI''"
| "error_display EkUriParts = ''Invalid URI''"
| "error_display EkHeaderName = ''Invalid HTTP header name''"
| "error_display EkHeaderValue = ''Invalid HTTP header value''"
| "error_display EkHttp = ''http error''"

section \<open>Responses\<close>

record response =
  rp_head :: response_head
  rp_body :: response_body

definition H_CONTENT_TYPE :: header_name where "H_CONTENT_TYPE = ''content-type''"
definition H_SET_COOKIE :: header_name where "H_SET_COOKIE = ''set-cookie''"

text \<open>\<^verbatim>\<open>Message::with_status\<close> on the thread's pool.\<close>

definition fresh_head :: "response_head list \<Rightarrow> status_code \<Rightarrow> response_head" where
  "fresh_head pool status = fst (rs_with_status status pool)"

definition rp_new :: "response_head list \<Rightarrow> status_code \<Rightarrow> response" where
  "rp_new pool status = \<lparr>rp_head = fresh_head pool status, rp_body = RBBody (MBBody BEmpty)\<rparr>"

text \<open>\<^verbatim>\<open>into_body\<close> is defined for \<^verbatim>\<open>Response<Body>\<close>, so the body is a \<^typ>\<open>body\<close>.\<close>

definition rp_into_body :: "response \<Rightarrow> response" where
  "rp_into_body r = r\<lparr>rp_body := rb_into_body (rp_body r)\<rparr>"

definition rp_with_body :: "response_head list \<Rightarrow> status_code \<Rightarrow> msg_body \<Rightarrow> response" where
  "rp_with_body pool status b = \<lparr>rp_head = fresh_head pool status, rp_body = RBBody b\<rparr>"

definition rp_status :: "response \<Rightarrow> status_code" where
  "rp_status r = rs_status (rp_head r)"

definition rp_upgrade :: "response \<Rightarrow> bool" where
  "rp_upgrade r = rs_upgrade (rp_head r)"

definition rp_keep_alive :: "response \<Rightarrow> bool" where
  "rp_keep_alive r = rs_keep_alive (rp_head r)"

definition rp_set_body :: "response \<Rightarrow> msg_body \<Rightarrow> response" where
  "rp_set_body r b = r\<lparr>rp_body := RBBody b\<rparr>"

definition rp_into_parts :: "response \<Rightarrow> response \<times> response_body" where
  "rp_into_parts r = (r\<lparr>rp_body := RBBody MBUnit\<rparr>, rp_body r)"

definition rp_drop_body :: "response \<Rightarrow> response" where
  "rp_drop_body r = r\<lparr>rp_body := RBBody MBUnit\<rparr>"

definition rp_map_body ::
  "(response_head \<Rightarrow> response_body \<Rightarrow> response_head \<times> response_body) \<Rightarrow> response \<Rightarrow> response" where
  "rp_map_body f r = (let (h, b) = f (rp_head r) (rp_body r) in \<lparr>rp_head = h, rp_body = b\<rparr>)"

definition rp_take_body :: "response \<Rightarrow> response_body \<times> response" where
  "rp_take_body r = (let (b, left) = rb_take_body (rp_body r) in (b, r\<lparr>rp_body := left\<rparr>))"

definition rp_take :: "response \<Rightarrow> response \<times> response" where
  "rp_take r = (let (b, r') = rp_take_body r in (\<lparr>rp_head = rp_head r, rp_body = b\<rparr>, r'))"

text \<open>
  Cookies of a response. \<open>cookie_name s\<close> is the name of the cookie \<^verbatim>\<open>Cookie::parse_encoded\<close> reads from
  \<open>s\<close>, \<^const>\<open>None\<close> if it reads none; a cookie is represented by the text it is read from.
\<close>

fun cookie_iter_next :: "(string \<Rightarrow> string option) \<Rightarrow> header_value list \<Rightarrow> string option \<times> header_value list" where
  "cookie_iter_next cookie_name [] = (None, [])"
| "cookie_iter_next cookie_name (v # vs) =
     (case hv_to_str v of
        Err _ \<Rightarrow> (None, vs)
      | Ok s \<Rightarrow> if cookie_name s \<noteq> None then (Some s, vs) else cookie_iter_next cookie_name vs)"

definition rp_add_cookie :: "string \<Rightarrow> response \<Rightarrow> (error_kind + unit) \<times> response" where
  "rp_add_cookie c r =
     (case hv_from_str c of
        Ok v \<Rightarrow> (Ok (), r\<lparr>rp_head := (rp_head r)\<lparr>rs_headers := hm_append (rs_headers (rp_head r)) H_SET_COOKIE v\<rparr>\<rparr>)
      | Err e \<Rightarrow> (Err (error_from_header_value e), r))"

text \<open>The loop of \<^verbatim>\<open>del_cookie\<close>: the values that stay are appended again, the others counted.\<close>

fun del_cookie_loop ::
  "(string \<Rightarrow> string option) \<Rightarrow> string \<Rightarrow> header_value list \<Rightarrow> header_map \<Rightarrow> nat \<Rightarrow> header_map \<times> nat" where
  "del_cookie_loop cookie_name name [] h count = (h, count)"
| "del_cookie_loop cookie_name name (v # vals) h count =
     (if (case hv_to_str v of Ok s \<Rightarrow> cookie_name s = Some name | Err _ \<Rightarrow> False)
      then del_cookie_loop cookie_name name vals h (count + 1)
      else del_cookie_loop cookie_name name vals (hm_append h H_SET_COOKIE v) count)"

definition rp_del_cookie ::
  "(string \<Rightarrow> header_name option) \<Rightarrow> (string \<Rightarrow> string option) \<Rightarrow> string \<Rightarrow> response \<Rightarrow> nat \<times> response" where
  "rp_del_cookie parse_name cookie_name name r =
     (let h = rs_headers (rp_head r);
          vals = ga_collect (hm_get_all parse_name h (Left H_SET_COOKIE));
          h1 = hm_remove parse_name h (Left H_SET_COOKIE);
          (h2, count) = del_cookie_loop cookie_name name vals h1 0
      in (count, r\<lparr>rp_head := (rp_head r)\<lparr>rs_headers := h2\<rparr>\<rparr>))"

text \<open>\<^verbatim>\<open>ResponseError::error_response\<close>: a 500 with the text of the error, and \<^verbatim>\<open>From<HttpError> for Response\<close>.\<close>

definition TEXT_PLAIN :: string where "TEXT_PLAIN = ''text/plain; charset=utf-8''"
definition OCTET_STREAM :: string where "OCTET_STREAM = ''application/octet-stream''"

definition error_response :: "response_head list \<Rightarrow> string \<Rightarrow> response" where
  "error_response pool txt =
     (let resp = rp_new pool 500;
          head = rp_head resp;
          value = the (hv_from_static TEXT_PLAIN)
      in rp_set_body (resp\<lparr>rp_head := head\<lparr>rs_headers := hm_insert (rs_headers head) H_CONTENT_TYPE value\<rparr>\<rparr>)
           (MBBody (BBytes txt)))"

definition response_from_error :: "response_head list \<Rightarrow> error_kind \<Rightarrow> response" where
  "response_from_error pool e = error_response pool (error_display e)"

section \<open>The builder\<close>

record 'j cookie_ops =
  cj_new :: 'j
  cj_add :: "string \<Rightarrow> 'j \<Rightarrow> 'j"
  cj_add_original :: "string \<Rightarrow> 'j \<Rightarrow> 'j"
  cj_remove :: "string \<Rightarrow> 'j \<Rightarrow> 'j"
  cj_delta :: "'j \<Rightarrow> string list"

record 'j response_builder =
  bl_head :: "response_head option"
  bl_err :: "error_kind option"
  bl_cookies :: "'j option"

definition bl_new :: "response_head list \<Rightarrow> status_code \<Rightarrow> 'j response_builder" where
  "bl_new pool status = \<lparr>bl_head = Some (fresh_head pool status), bl_err = None, bl_cookies = None\<rparr>"

text \<open>\<^verbatim>\<open>parts\<close>: the head, unless an error has been recorded; \<open>on_parts\<close> is an update through it.\<close>

definition parts :: "response_head option \<Rightarrow> error_kind option \<Rightarrow> response_head option" where
  "parts head err = (if err \<noteq> None then None else head)"

definition on_parts :: "(response_head \<Rightarrow> response_head) \<Rightarrow> 'j response_builder \<Rightarrow> 'j response_builder" where
  "on_parts f b =
     (case parts (bl_head b) (bl_err b) of
        Some h \<Rightarrow> b\<lparr>bl_head := Some (f h)\<rparr>
      | None \<Rightarrow> b)"

definition bl_status :: "status_code \<Rightarrow> 'j response_builder \<Rightarrow> 'j response_builder" where
  "bl_status status = on_parts (\<lambda>h. h\<lparr>rs_status := status\<rparr>)"

definition bl_header ::
  "error_kind + header_name \<Rightarrow> error_kind + header_value \<Rightarrow> 'j response_builder \<Rightarrow> 'j response_builder" where
  "bl_header key value b =
     (case parts (bl_head b) (bl_err b) of
        None \<Rightarrow> b
      | Some h \<Rightarrow>
          (case key of
             Err e \<Rightarrow> b\<lparr>bl_err := Some e\<rparr>
           | Ok k \<Rightarrow>
               (case value of
                  Err e \<Rightarrow> b\<lparr>bl_err := Some e\<rparr>
                | Ok v \<Rightarrow> b\<lparr>bl_head := Some (h\<lparr>rs_headers := hm_append (rs_headers h) k v\<rparr>)\<rparr>)))"

definition bl_set_header ::
  "error_kind + header_name \<Rightarrow> error_kind + header_value \<Rightarrow> 'j response_builder \<Rightarrow> 'j response_builder" where
  "bl_set_header key value b =
     (case parts (bl_head b) (bl_err b) of
        None \<Rightarrow> b
      | Some h \<Rightarrow>
          (case key of
             Err e \<Rightarrow> b\<lparr>bl_err := Some e\<rparr>
           | Ok k \<Rightarrow>
               (case value of
                  Err e \<Rightarrow> b\<lparr>bl_err := Some e\<rparr>
                | Ok v \<Rightarrow> b\<lparr>bl_head := Some (h\<lparr>rs_headers := hm_insert (rs_headers h) k v\<rparr>)\<rparr>)))"

definition bl_reason :: "string \<Rightarrow> 'j response_builder \<Rightarrow> 'j response_builder" where
  "bl_reason reason = on_parts (\<lambda>h. h\<lparr>rs_reason := Some reason\<rparr>)"

definition bl_keep_alive :: "'j response_builder \<Rightarrow> 'j response_builder" where
  "bl_keep_alive = on_parts (rs_set_connection_type KeepAlive)"

definition bl_upgrade :: "error_kind + header_value \<Rightarrow> 'j response_builder \<Rightarrow> 'j response_builder" where
  "bl_upgrade value b = bl_set_header (Ok H_UPGRADE) value (on_parts (rs_set_connection_type Upgrade) b)"

definition bl_force_close :: "'j response_builder \<Rightarrow> 'j response_builder" where
  "bl_force_close = on_parts (rs_set_connection_type Close)"

definition bl_no_chunking :: "'j response_builder \<Rightarrow> 'j response_builder" where
  "bl_no_chunking = on_parts (rs_no_chunking True)"

definition bl_content_type :: "error_kind + header_value \<Rightarrow> 'j response_builder \<Rightarrow> 'j response_builder" where
  "bl_content_type value b =
     (case parts (bl_head b) (bl_err b) of
        None \<Rightarrow> b
      | Some h \<Rightarrow>
          (case value of
             Err e \<Rightarrow> b\<lparr>bl_err := Some e\<rparr>
           | Ok v \<Rightarrow> b\<lparr>bl_head := Some (h\<lparr>rs_headers := hm_insert (rs_headers h) H_CONTENT_TYPE v\<rparr>)\<rparr>))"

text \<open>\<^verbatim>\<open>From<u64> for HeaderValue\<close>: the decimal text.\<close>

definition hv_from_int :: "nat \<Rightarrow> header_value" where
  "hv_from_int n = \<lparr>hv_inner = dec n, hv_is_sensitive = False\<rparr>"

definition bl_content_length :: "nat \<Rightarrow> 'j response_builder \<Rightarrow> 'j response_builder" where
  "bl_content_length len = bl_header (Ok H_CONTENT_LENGTH) (Ok (hv_from_int len))"

definition bl_cookie :: "'j cookie_ops \<Rightarrow> string \<Rightarrow> 'j response_builder \<Rightarrow> 'j response_builder" where
  "bl_cookie co c b =
     (case bl_cookies b of
        Some jar \<Rightarrow> b\<lparr>bl_cookies := Some (cj_add co c jar)\<rparr>
      | None \<Rightarrow> b\<lparr>bl_cookies := Some (cj_add co c (cj_new co))\<rparr>)"

definition bl_del_cookie :: "'j cookie_ops \<Rightarrow> string \<Rightarrow> 'j response_builder \<Rightarrow> 'j response_builder" where
  "bl_del_cookie co c b =
     (let jar = (case bl_cookies b of None \<Rightarrow> cj_new co | Some jar \<Rightarrow> jar)
      in b\<lparr>bl_cookies := Some (cj_remove co c (cj_add_original co c jar))\<rparr>)"

text \<open>The loop of \<^verbatim>\<open>message_body\<close> over the changed cookies.\<close>

fun append_cookies :: "string list \<Rightarrow> header_map \<Rightarrow> invalid_header_value + header_map" where
  "append_cookies [] h = Ok h"
| "append_cookies (c # cs) h =
     (case hv_from_str c of
        Ok v \<Rightarrow> append_cookies cs (hm_append h H_SET_COOKIE v)
      | Err e \<Rightarrow> Err e)"

definition bl_message_body ::
  "'j cookie_ops \<Rightarrow> response_head list \<Rightarrow> msg_body \<Rightarrow> 'j response_builder \<Rightarrow> (response \<times> 'j response_builder) option" where
  "bl_message_body co pool body b =
     (case bl_err b of
        Some e \<Rightarrow> Some (rp_into_body (response_from_error pool e), b\<lparr>bl_err := None\<rparr>)
      | None \<Rightarrow>
          (case bl_head b of
             None \<Rightarrow> None
           | Some h \<Rightarrow>
               (let b' = b\<lparr>bl_head := None\<rparr>
                in case append_cookies (case bl_cookies b of None \<Rightarrow> [] | Some jar \<Rightarrow> cj_delta co jar) (rs_headers h) of
                  Err e \<Rightarrow> Some (rp_into_body (response_from_error pool (error_from_header_value e)), b')
                | Ok hs \<Rightarrow> Some (\<lparr>rp_head = h\<lparr>rs_headers := hs\<rparr>, rp_body = RBBody body\<rparr>, b'))))"

definition bl_body ::
  "'j cookie_ops \<Rightarrow> response_head list \<Rightarrow> body \<Rightarrow> 'j response_builder \<Rightarrow> (response \<times> 'j response_builder) option" where
  "bl_body co pool body = bl_message_body co pool (MBBody body)"

definition bl_streaming ::
  "'j cookie_ops \<Rightarrow> response_head list \<Rightarrow> stream_poll list \<Rightarrow> 'j response_builder \<Rightarrow> (response \<times> 'j response_builder) option" where
  "bl_streaming co pool stream = bl_body co pool (body_from_message (MBStream stream))"

text \<open>\<^verbatim>\<open>json\<close>: \<open>serialized\<close> is what \<^verbatim>\<open>serde_json::to_string\<close> returns, an error as its text.\<close>

definition bl_json ::
  "(string \<Rightarrow> header_name option) \<Rightarrow> 'j cookie_ops \<Rightarrow> response_head list \<Rightarrow> string + string \<Rightarrow> 'j response_builder \<Rightarrow>
   (response \<times> 'j response_builder) option" where
  "bl_json parse_name co pool serialized b =
     (case serialized of
        Ok body \<Rightarrow>
          (let contains = (case parts (bl_head b) (bl_err b) of
                             Some h \<Rightarrow> hm_contains_key parse_name (rs_headers h) (Left H_CONTENT_TYPE)
                           | None \<Rightarrow> True);
               value = (case hv_from_str ''application/json'' of Ok v \<Rightarrow> Ok v | Err e \<Rightarrow> Err (error_from_header_value e));
               b = (if \<not> contains then bl_header (Ok H_CONTENT_TYPE) value b else b)
           in bl_body co pool (BBytes body) b)
      | Err txt \<Rightarrow> Some (error_response pool txt, b))"

definition bl_finish ::
  "'j cookie_ops \<Rightarrow> response_head list \<Rightarrow> 'j response_builder \<Rightarrow> (response \<times> 'j response_builder) option" where
  "bl_finish co pool = bl_body co pool BEmpty"

definition bl_take :: "'j response_builder \<Rightarrow> 'j response_builder \<times> 'j response_builder" where
  "bl_take b = (b, b\<lparr>bl_head := None, bl_err := None, bl_cookies := None\<rparr>)"

text \<open>Conversions. The cookies of the response go into a jar as originals.\<close>

fun load_cookies :: "'j cookie_ops \<Rightarrow> string list \<Rightarrow> 'j option \<Rightarrow> 'j option" where
  "load_cookies co [] jar = jar"
| "load_cookies co (c # cs) jar =
     load_cookies co cs (Some (cj_add_original co c (case jar of Some j \<Rightarrow> j | None \<Rightarrow> cj_new co)))"

fun cookies_of :: "(string \<Rightarrow> string option) \<Rightarrow> header_value list \<Rightarrow> string list" where
  "cookies_of cookie_name [] = []"
| "cookies_of cookie_name (v # vs) =
     (case hv_to_str v of
        Err _ \<Rightarrow> []
      | Ok s \<Rightarrow> if cookie_name s \<noteq> None then s # cookies_of cookie_name vs else cookies_of cookie_name vs)"

definition bl_from_response ::
  "(string \<Rightarrow> header_name option) \<Rightarrow> (string \<Rightarrow> string option) \<Rightarrow> 'j cookie_ops \<Rightarrow> response \<Rightarrow> 'j response_builder" where
  "bl_from_response parse_name cookie_name co res =
     \<lparr>bl_head = Some (rp_head res), bl_err = None,
      bl_cookies = load_cookies co
        (cookies_of cookie_name (ga_collect (hm_get_all parse_name (rs_headers (rp_head res)) (Left H_SET_COOKIE)))) None\<rparr>"

definition bl_from_head ::
  "(string \<Rightarrow> header_name option) \<Rightarrow> (string \<Rightarrow> string option) \<Rightarrow> 'j cookie_ops \<Rightarrow> response_head list \<Rightarrow> response_head \<Rightarrow>
   'j response_builder" where
  "bl_from_head parse_name cookie_name co pool head =
     (let msg = (fresh_head pool (rs_status head))\<lparr>rs_version := rs_version head, rs_reason := rs_reason head\<rparr>;
          msg = msg\<lparr>rs_headers := foldl (\<lambda>m (k, v). hm_append m k v) (rs_headers msg) (it_collect (hm_iter_new (rs_headers head)))\<rparr>
      in \<lparr>bl_head = Some (rs_no_chunking (\<not> rs_chunked head) msg), bl_err = None,
          bl_cookies = load_cookies co
            (cookies_of cookie_name (ga_collect (hm_get_all parse_name (rs_headers head) (Left H_SET_COOKIE)))) None\<rparr>)"

text \<open>\<^verbatim>\<open>From<&str>\<close>, \<^verbatim>\<open>From<String>\<close> and \<^verbatim>\<open>From<&[u8]>\<close>, \<^verbatim>\<open>From<Bytes>\<close> for \<^verbatim>\<open>Response\<close>.\<close>

definition response_of_content ::
  "'j cookie_ops \<Rightarrow> response_head list \<Rightarrow> string \<Rightarrow> bytes \<Rightarrow> response option" where
  "response_of_content co pool ctype val =
     (let value = (case hv_from_str ctype of Ok v \<Rightarrow> Ok v | Err e \<Rightarrow> Err (error_from_header_value e))
      in map_option fst (bl_body co pool (BBytes val) (bl_content_type value (bl_new pool 200))))"

definition response_from_text :: "'j cookie_ops \<Rightarrow> response_head list \<Rightarrow> string \<Rightarrow> response option" where
  "response_from_text co pool = response_of_content co pool TEXT_PLAIN"

definition response_from_bytes :: "'j cookie_ops \<Rightarrow> response_head list \<Rightarrow> bytes \<Rightarrow> response option" where
  "response_from_bytes co pool = response_of_content co pool OCTET_STREAM"

section \<open>Facts\<close>

text \<open>The static content types are valid header values, so \<^verbatim>\<open>from_static\<close> does not panic on them.\<close>

lemma content_types_static:
  "hv_from_static TEXT_PLAIN = Some \<lparr>hv_inner = TEXT_PLAIN, hv_is_sensitive = False\<rparr>"
  "hv_from_str TEXT_PLAIN = Ok \<lparr>hv_inner = TEXT_PLAIN, hv_is_sensitive = False\<rparr>"
  "hv_from_str OCTET_STREAM = Ok \<lparr>hv_inner = OCTET_STREAM, hv_is_sensitive = False\<rparr>"
  by code_simp+

lemma fresh_head_clean [simp]:
  "rs_status (fresh_head pool st) = st" "rs_headers (fresh_head pool st) = hm_new"
  "rs_flags (fresh_head pool st) = 0" "rs_reason (fresh_head pool st) = None"
  using rs_pool.get_message_carried [of pool]
  by (auto simp: fresh_head_def rs_with_status_def Let_def case_prod_unfold rs_carried_def rs_default_def rs_new_def)

text \<open>What the default error response is, field by field.\<close>

lemma response_from_error_fields:
  "rp_status (response_from_error pool e) = 500"
  "rs_headers (rp_head (response_from_error pool e)) =
     [(H_CONTENT_TYPE, One \<lparr>hv_inner = TEXT_PLAIN, hv_is_sensitive = False\<rparr>)]"
  "rp_body (rp_into_body (response_from_error pool e)) = RBOther (BBytes (error_display e))"
  "rp_head (rp_into_body (response_from_error pool e)) = rp_head (response_from_error pool e)"
  by (simp_all add: response_from_error_def error_response_def rp_status_def rp_set_body_def rp_into_body_def
      rp_new_def Let_def content_types_static hm_insert_def hm_new_def)

text \<open>The cookies a \<^verbatim>\<open>for\<close> loop sees are those \<^verbatim>\<open>CookieIter::next\<close> yields one after the other.\<close>

lemma cookies_of_next:
  "cookies_of cn vs =
     (case cookie_iter_next cn vs of (None, _) \<Rightarrow> [] | (Some s, rest) \<Rightarrow> s # cookies_of cn rest)"
  by (induction vs) (simp_all split: sum.splits)

text \<open>Deleting a cookie keeps the other cookies in order and counts the deleted ones.\<close>

definition names_cookie :: "(string \<Rightarrow> string option) \<Rightarrow> string \<Rightarrow> header_value \<Rightarrow> bool" where
  "names_cookie cn name v = (case hv_to_str v of Ok s \<Rightarrow> cn s = Some name | Err _ \<Rightarrow> False)"

lemma del_cookie_loop_spec:
  assumes "hm_invar h" "del_cookie_loop cn name vals h n = (h', n')"
  shows "hm_invar h' \<and> n' = n + length (filter (names_cookie cn name) vals) \<and>
    (\<forall>k. hm_values h' k = hm_values h k @ (if k = H_SET_COOKIE then filter (\<lambda>v. \<not> names_cookie cn name v) vals else []))"
  using assms
proof (induction vals arbitrary: h n)
  case Nil
  then show ?case by simp
next
  case (Cons v vals)
  note app = hm.invar_append [OF Cons.prems(1), of H_SET_COOKIE v] hm.vals_append [OF Cons.prems(1), of H_SET_COOKIE v]
  show ?case
  proof (cases "names_cookie cn name v")
    case True
    then show ?thesis
      using Cons.IH [OF Cons.prems(1), of "n + 1"] Cons.prems(2) by (simp flip: names_cookie_def)
  next
    case False
    then show ?thesis
      using Cons.IH [OF app(1), of n] Cons.prems(2) app(2) by (simp flip: names_cookie_def)
  qed
qed

lemma rp_del_cookie_spec:
  assumes "hm_invar (rs_headers (rp_head r))" "rp_del_cookie p cn name r = (n, r')"
  shows "hm_values (rs_headers (rp_head r')) H_SET_COOKIE =
      filter (\<lambda>v. \<not> names_cookie cn name v) (hm_values (rs_headers (rp_head r)) H_SET_COOKIE)"
    and "k \<noteq> H_SET_COOKIE \<Longrightarrow> hm_values (rs_headers (rp_head r')) k = hm_values (rs_headers (rp_head r)) k"
    and "n = length (filter (names_cookie cn name) (hm_values (rs_headers (rp_head r)) H_SET_COOKIE))"
    and "hm_invar (rs_headers (rp_head r'))"
proof -
  let ?h = "rs_headers (rp_head r)"
  let ?h1 = "hm_remove p ?h (Left H_SET_COOKIE)"
  obtain h2 where loop: "del_cookie_loop cn name (hm_values ?h H_SET_COOKIE) ?h1 0 = (h2, n)"
    and r': "r' = r\<lparr>rp_head := (rp_head r)\<lparr>rs_headers := h2\<rparr>\<rparr>"
    using assms(2) by (auto simp: rp_del_cookie_def Let_def ga_collect_get_all split: prod.splits)
  note spec = del_cookie_loop_spec [OF hm.invar_remove [OF assms(1)] loop]
  show "hm_values (rs_headers (rp_head r')) H_SET_COOKIE =
      filter (\<lambda>v. \<not> names_cookie cn name v) (hm_values ?h H_SET_COOKIE)"
    "k \<noteq> H_SET_COOKIE \<Longrightarrow> hm_values (rs_headers (rp_head r')) k = hm_values ?h k"
    "n = length (filter (names_cookie cn name) (hm_values ?h H_SET_COOKIE))"
    "hm_invar (rs_headers (rp_head r'))"
    using spec r' hm.vals_remove [OF assms(1), of p H_SET_COOKIE] by auto
qed

section \<open>Sequences of builder calls\<close>

datatype builder_op =
    OStatus status_code
  | OHeader "error_kind + header_name" "error_kind + header_value"
  | OSetHeader "error_kind + header_name" "error_kind + header_value"
  | OReason string
  | OKeepAlive
  | OUpgrade "error_kind + header_value"
  | OForceClose
  | ONoChunking
  | OContentType "error_kind + header_value"
  | OContentLength nat
  | OCookie string
  | ODelCookie string

fun apply_op :: "'j cookie_ops \<Rightarrow> builder_op \<Rightarrow> 'j response_builder \<Rightarrow> 'j response_builder" where
  "apply_op co (OStatus st) b = bl_status st b"
| "apply_op co (OHeader k v) b = bl_header k v b"
| "apply_op co (OSetHeader k v) b = bl_set_header k v b"
| "apply_op co (OReason s) b = bl_reason s b"
| "apply_op co OKeepAlive b = bl_keep_alive b"
| "apply_op co (OUpgrade v) b = bl_upgrade v b"
| "apply_op co OForceClose b = bl_force_close b"
| "apply_op co ONoChunking b = bl_no_chunking b"
| "apply_op co (OContentType v) b = bl_content_type v b"
| "apply_op co (OContentLength n) b = bl_content_length n b"
| "apply_op co (OCookie c) b = bl_cookie co c b"
| "apply_op co (ODelCookie c) b = bl_del_cookie co c b"

text \<open>The specification of one call: the error it meets, if any, and its effect on the head otherwise.\<close>

fun op_error :: "builder_op \<Rightarrow> error_kind option" where
  "op_error (OHeader (Inl e) v) = Some e"
| "op_error (OHeader k (Inl e)) = Some e"
| "op_error (OSetHeader (Inl e) v) = Some e"
| "op_error (OSetHeader k (Inl e)) = Some e"
| "op_error (OUpgrade (Inl e)) = Some e"
| "op_error (OContentType (Inl e)) = Some e"
| "op_error _ = None"

fun op_head :: "builder_op \<Rightarrow> response_head \<Rightarrow> response_head" where
  "op_head (OStatus st) h = h\<lparr>rs_status := st\<rparr>"
| "op_head (OHeader (Inr k) (Inr v)) h = h\<lparr>rs_headers := hm_append (rs_headers h) k v\<rparr>"
| "op_head (OSetHeader (Inr k) (Inr v)) h = h\<lparr>rs_headers := hm_insert (rs_headers h) k v\<rparr>"
| "op_head (OReason s) h = h\<lparr>rs_reason := Some s\<rparr>"
| "op_head OKeepAlive h = rs_set_connection_type KeepAlive h"
| "op_head (OUpgrade (Inr v)) h =
     (let h = rs_set_connection_type Upgrade h in h\<lparr>rs_headers := hm_insert (rs_headers h) H_UPGRADE v\<rparr>)"
| "op_head OForceClose h = rs_set_connection_type Close h"
| "op_head ONoChunking h = rs_no_chunking True h"
| "op_head (OContentType (Inr v)) h = h\<lparr>rs_headers := hm_insert (rs_headers h) H_CONTENT_TYPE v\<rparr>"
| "op_head (OContentLength n) h = h\<lparr>rs_headers := hm_append (rs_headers h) H_CONTENT_LENGTH (hv_from_int n)\<rparr>"
| "op_head _ h = h"

fun op_cookies :: "'j cookie_ops \<Rightarrow> builder_op \<Rightarrow> 'j option \<Rightarrow> 'j option" where
  "op_cookies co (OCookie c) jar = Some (cj_add co c (case jar of Some j \<Rightarrow> j | None \<Rightarrow> cj_new co))"
| "op_cookies co (ODelCookie c) jar = Some (cj_remove co c (cj_add_original co c (case jar of Some j \<Rightarrow> j | None \<Rightarrow> cj_new co)))"
| "op_cookies co _ jar = jar"

definition run_ops :: "'j cookie_ops \<Rightarrow> builder_op list \<Rightarrow> 'j response_builder \<Rightarrow> 'j response_builder" where
  "run_ops co ops b = foldl (\<lambda>b op. apply_op co op b) b ops"

lemma run_ops_simps [simp]:
  "run_ops co [] b = b" "run_ops co (op # ops) b = run_ops co ops (apply_op co op b)"
  by (simp_all add: run_ops_def)

lemmas builder_defs = bl_status_def bl_header_def bl_set_header_def bl_reason_def bl_keep_alive_def
  bl_upgrade_def bl_force_close_def bl_no_chunking_def bl_content_type_def bl_content_length_def
  bl_cookie_def bl_del_cookie_def
  on_parts_def parts_def

text \<open>A recorded error freezes the head; without one a call either records its error or acts on the head. The cookies are kept apart.\<close>

lemma apply_op_frozen: "bl_err b \<noteq> None \<Longrightarrow> bl_err (apply_op co op b) = bl_err b"
  by (cases op) (auto simp: builder_defs Let_def split: option.split)

lemma apply_op_error:
  assumes "bl_err b = None" "bl_head b = Some h" "op_error op = Some e"
  shows "bl_err (apply_op co op b) = Some e"
  using assms by (cases op rule: op_error.cases) (auto simp: builder_defs)

lemma apply_op_ok:
  assumes "bl_err b = None" "bl_head b = Some h" "op_error op = None"
  shows "apply_op co op b = b\<lparr>bl_head := Some (op_head op h), bl_cookies := op_cookies co op (bl_cookies b)\<rparr>"
  using assms by (cases b; cases "(op, h)" rule: op_head.cases) (auto simp: builder_defs Let_def split: sum.splits option.splits)

lemma run_ops_frozen: "bl_err b \<noteq> None \<Longrightarrow> bl_err (run_ops co ops b) = bl_err b"
proof (induction ops arbitrary: b)
  case (Cons op ops)
  with apply_op_frozen [of b co op] show ?case by simp
qed simp

lemma run_ops_spec:
  assumes "bl_err b = None" "bl_head b = Some h"
  shows "case find (\<lambda>op. op_error op \<noteq> None) ops of
      Some op \<Rightarrow> bl_err (run_ops co ops b) = op_error op
    | None \<Rightarrow> run_ops co ops b = b\<lparr>bl_head := Some (fold op_head ops h), bl_cookies := fold (op_cookies co) ops (bl_cookies b)\<rparr>"
  using assms
proof (induction ops arbitrary: b h)
  case Nil
  then show ?case by (cases b) simp
next
  case (Cons op ops)
  show ?case
  proof (cases "op_error op")
    case (Some e)
    with Cons.prems apply_op_error [of b h op e co] show ?thesis
      by (simp add: run_ops_frozen)
  next
    case None
    note step = apply_op_ok [OF Cons.prems None, of co]
    have "bl_err (apply_op co op b) = None" "bl_head (apply_op co op b) = Some (op_head op h)"
      using Cons.prems(1) step by simp_all
    from Cons.IH [OF this] show ?thesis
      using None step by (simp split: option.splits)
  qed
qed

text \<open>The cookies the calls leave to be set, the first error of the calls and of the cookies, and the headers of the cookies.\<close>

definition changed_cookies :: "'j cookie_ops \<Rightarrow> builder_op list \<Rightarrow> string list" where
  "changed_cookies co ops = (case fold (op_cookies co) ops None of None \<Rightarrow> [] | Some jar \<Rightarrow> cj_delta co jar)"

definition first_error :: "'j cookie_ops \<Rightarrow> builder_op list \<Rightarrow> error_kind option" where
  "first_error co ops =
     (case find (\<lambda>op. op_error op \<noteq> None) ops of
        Some op \<Rightarrow> op_error op
      | None \<Rightarrow>
          (case find (\<lambda>c. \<not> list_all is_valid c) (changed_cookies co ops) of
             Some c \<Rightarrow> Some (error_from_header_value InvalidHeaderValue)
           | None \<Rightarrow> None))"

definition with_cookies :: "string list \<Rightarrow> response_head \<Rightarrow> response_head" where
  "with_cookies cs h =
     h\<lparr>rs_headers := fold (\<lambda>c m. hm_append m H_SET_COOKIE \<lparr>hv_inner = c, hv_is_sensitive = False\<rparr>) cs (rs_headers h)\<rparr>"

lemma append_cookies_spec:
  "append_cookies cs m =
     (case find (\<lambda>c. \<not> list_all is_valid c) cs of
        Some c \<Rightarrow> Err InvalidHeaderValue
      | None \<Rightarrow> Ok (fold (\<lambda>c m. hm_append m H_SET_COOKIE \<lparr>hv_inner = c, hv_is_sensitive = False\<rparr>) cs m))"
  by (induction cs arbitrary: m) (simp_all add: hv_checks split: option.split)

section \<open>Properties\<close>

text \<open>
  C40: The first error wins in a response builder. After any sequence of its setters on a new builder, cookies included, the
  body call yields a 500 response whose only header is the plain text content type and whose body is the text of an error, if there is one: that of the first
  call that was given an invalid header name or value, or, when there is none, that of the first cookie to be set that is no header value.
  Otherwise it yields exactly the head the calls describe, applied in order, followed by a header for each cookie to be set,
  with the given body, after which a further body call panics.
\<close>

theorem builder_first_error_wins:
  fixes co :: "'j cookie_ops"
  shows "case first_error co ops of
     Some e \<Rightarrow>
       (\<exists>resp b. bl_message_body co pool body (run_ops co ops (bl_new pool st)) = Some (resp, b) \<and>
          rp_status resp = 500 \<and>
          rs_headers (rp_head resp) = [(H_CONTENT_TYPE, One \<lparr>hv_inner = TEXT_PLAIN, hv_is_sensitive = False\<rparr>)] \<and>
          rp_body resp = RBOther (BBytes (error_display e)))
   | None \<Rightarrow>
       (\<exists>b. bl_message_body co pool body (run_ops co ops (bl_new pool st)) =
             Some (\<lparr>rp_head = with_cookies (changed_cookies co ops) (fold op_head ops (fresh_head pool st)), rp_body = RBBody body\<rparr>, b) \<and>
          bl_message_body co pool body' b = None)"
proof -
  let ?b = "bl_new pool st :: 'j response_builder"
  have "bl_err ?b = None" "bl_head ?b = Some (fresh_head pool st)"
    by (simp_all add: bl_new_def)
  note spec = run_ops_spec [OF this, of co ops]
  show ?thesis
  proof (cases "find (\<lambda>op. op_error op \<noteq> None) ops")
    case None
    with spec have run: "run_ops co ops ?b =
        ?b\<lparr>bl_head := Some (fold op_head ops (fresh_head pool st)), bl_cookies := fold (op_cookies co) ops None\<rparr>"
      by (simp add: bl_new_def)
    show ?thesis
      unfolding run using None response_from_error_fields [of pool]
      by (simp add: bl_message_body_def bl_new_def append_cookies_spec first_error_def changed_cookies_def with_cookies_def rp_status_def
        split: option.splits)
  next
    case (Some op)
    then have "op_error op \<noteq> None" by (auto simp: find_Some_iff)
    then obtain e where e: "op_error op = Some e" by blast
    with Some spec show ?thesis
      using response_from_error_fields [of pool e]
      by (simp add: bl_message_body_def rp_status_def first_error_def)
  qed
qed

end
