(* ===== verification/H1_Decoder.thy ===== *)
theory H1_Decoder
  imports H1_Headers Service_Config
begin

text \<open>
  The incoming message decoder of \<^verbatim>\<open>geario-http/src/h1/decoder.rs\<close>: \<^verbatim>\<open>MessageDecoder\<close> with its saved
  inner state, the loop over the headers and the first-line parsers of requests and responses.

  The parsers of \<^verbatim>\<open>ntex_httparse\<close>, the checked constructors of the \<^verbatim>\<open>http\<close> crate and \<^verbatim>\<open>atoi_simd\<close> are
  the fields of the parameter \<open>env\<close>. A result \<open>None\<close> means that the call does not return: an index or
  \<^verbatim>\<open>unwrap\<close> panics, or the header loop never ends.
\<close>

section \<open>Model\<close>

datatype header_parsed = HP_Header nat | HP_Eof nat

record hp_header =
  hh_name :: "nat \<times> nat"
  hh_value :: "nat \<times> nat"

record hp_request =
  hq_method :: "nat \<times> nat"
  hq_path :: "nat \<times> nat"
  hq_version :: nat

record hp_response =
  hr_version :: nat
  hr_code :: nat

record 's parse_env =
  pe_header :: "bytes \<Rightarrow> hp_header \<Rightarrow> 's \<Rightarrow> (httparse_error + header_parsed hp_status) \<times> hp_header \<times> 's"
  pe_header0 :: hp_header
  pe_state0 :: 's
  pe_request :: "bytes \<Rightarrow> httparse_error + (nat \<times> hp_request) hp_status"
  pe_response :: "bytes \<Rightarrow> httparse_error + (nat \<times> hp_response) hp_status"
  pe_header_name :: "bytes \<Rightarrow> header_name option"
  pe_method :: "bytes \<Rightarrow> http_method option"
  pe_uri :: "bytes \<Rightarrow> uri option"
  pe_status :: "nat \<Rightarrow> status_code option"
  pe_atoi :: "bytes \<Rightarrow> nat option"

fun buf_slice :: "bytes \<Rightarrow> nat \<times> nat \<Rightarrow> bytes option" where
  "buf_slice buf (a, b) = (if a \<le> b \<and> b \<le> length buf then Some (take (b - a) (drop a buf)) else None)"

record ('t, 's) inner =
  in_st :: hdr_state
  in_val :: "'t option"
  in_hdr :: hp_header
  in_hdr_st :: 's
  in_cfg :: http_service_config
  in_consumed :: nat

record ('t, 's) message_decoder =
  md_hdrs :: bool
  md_inner :: "('t, 's) inner option"

definition in_new :: "'s parse_env \<Rightarrow> http_service_config \<Rightarrow> ('t, 's) inner" where
  "in_new env cfg =
     \<lparr>in_st = st_default, in_val = None, in_hdr = pe_header0 env, in_hdr_st = pe_state0 env,
      in_cfg = cfg, in_consumed = 0\<rparr>"

definition md_new :: "'s parse_env \<Rightarrow> http_service_config \<Rightarrow> ('t, 's) message_decoder" where
  "md_new env cfg = \<lparr>md_hdrs = False, md_inner = Some (in_new env cfg)\<rparr>"

definition md_clone ::
  "'s parse_env \<Rightarrow> ('t, 's) message_decoder \<Rightarrow> (('t, 's) message_decoder \<times> ('t, 's) message_decoder) option"
where
  "md_clone env d =
     (case md_inner d of
        None \<Rightarrow> None
      | Some inner \<Rightarrow> Some (\<lparr>md_hdrs = False, md_inner = Some (in_new env (in_cfg inner))\<rparr>, d))"

text \<open>\<^verbatim>\<open>MessageType::decode\<close>: the first line. \<open>fresh\<close> is the head taken from the pool.\<close>

definition rq_decode ::
  "'s parse_env \<Rightarrow> request_head \<Rightarrow> bytes \<Rightarrow> ((decode_error + request_head) poll \<times> bytes) option" where
  "rq_decode env fresh src =
     (case pe_request env src of
        Err e \<Rightarrow> Some (Ready (Err (decode_error_from_httparse e)), src)
      | Ok Partial \<Rightarrow> Some (Pending, src)
      | Ok (Complete (pos, req)) \<Rightarrow>
          (case buf_slice src (hq_method req) of
             None \<Rightarrow> None
           | Some m \<Rightarrow>
               (case pe_method env m of
                  None \<Rightarrow> Some (Ready (Err DMethod), src)
                | Some method \<Rightarrow>
                    (case buf_slice src (hq_path req) of
                       None \<Rightarrow> None
                     | Some p \<Rightarrow>
                         (case pe_uri env p of
                            None \<Rightarrow> Some (Ready (Err DUri), src)
                          | Some uri \<Rightarrow>
                              if pos > length src then None
                              else
                                let version = (if hq_version req = 1 then HTTP_11 else HTTP_10)
                                in Some (Ready (Ok (fresh\<lparr>rq_uri := uri, rq_method := method,
                                           rq_version := version\<rparr>)), drop pos src))))))"

definition rs_decode ::
  "'s parse_env \<Rightarrow> bytes \<Rightarrow> ((decode_error + response_head) poll \<times> bytes) option" where
  "rs_decode env src =
     (case pe_response env src of
        Err e \<Rightarrow> Some (Ready (Err (decode_error_from_httparse e)), src)
      | Ok Partial \<Rightarrow> Some (Pending, src)
      | Ok (Complete (pos, res)) \<Rightarrow>
          (let version = (if hr_version res = 1 then HTTP_11 else HTTP_10) in
           case pe_status env (hr_code res) of
             None \<Rightarrow> Some (Ready (Err DStatus), src)
           | Some status \<Rightarrow>
               if pos > length src then None
               else Some (Ready (Ok (rs_new status version)), drop pos src)))"

text \<open>The branch of \<^verbatim>\<open>decode_headers\<close> that takes one header line of length \<open>len\<close> from the buffer.\<close>

definition header_line ::
  "'s parse_env \<Rightarrow> 't message_type \<Rightarrow> nat \<Rightarrow> bytes \<Rightarrow> ('t, 's) inner \<Rightarrow>
     ((decode_error + unit) \<times> bytes \<times> ('t, 's) inner) option"
where
  "header_line env T len src inner =
     (if len > length src then None
      else
        let buf = take len src; src' = drop len src in
        case in_val inner of
          None \<Rightarrow> None
        | Some val \<Rightarrow>
            if hm_len (mt_headers T val) \<ge> cfg_max_headers (in_cfg inner)
            then Some (Err MaxHeaders, src', inner)
            else
              case buf_slice buf (hh_name (in_hdr inner)) of
                None \<Rightarrow> None
              | Some n \<Rightarrow>
                  (case pe_header_name env n of
                     None \<Rightarrow> None
                   | Some name \<Rightarrow>
                       (case buf_slice buf (hh_value (in_hdr inner)) of
                          None \<Rightarrow> None
                        | Some v \<Rightarrow>
                            let val' = hv_from_shared_unchecked v;
                                msg = (if cfg_headers_vec (in_cfg inner)
                                       then mt_set_headers_item T
                                              \<lparr>hi_name = name, hi_origin = n, hi_value = val'\<rparr> val
                                       else val);
                                (r, st, msg') = set_header (pe_atoi env) T msg (in_st inner) name val'
                            in Some (r, src',
                                 inner\<lparr>in_hdr_st := pe_state0 env, in_st := st, in_val := Some msg'\<rparr>))))"

partial_function (option) decode_headers ::
  "'s parse_env \<Rightarrow> 't message_type \<Rightarrow> bytes \<Rightarrow> ('t, 's) inner \<Rightarrow>
     ((decode_error + unit) poll \<times> bytes \<times> ('t, 's) inner) option"
where
  "decode_headers env T src inner =
     (case pe_header env src (in_hdr inner) (in_hdr_st inner) of
        (r, hdr, hdr_st) \<Rightarrow>
          (let inner' = inner\<lparr>in_hdr := hdr, in_hdr_st := hdr_st\<rparr> in
           case r of
             Err e \<Rightarrow> Some (Ready (Err (decode_error_from_httparse e)), src, inner')
           | Ok Partial \<Rightarrow> Some (Pending, src, inner')
           | Ok (Complete (HP_Header len)) \<Rightarrow>
               (case header_line env T len src inner' of
                  None \<Rightarrow> None
                | Some (Err e, src', inner'') \<Rightarrow> Some (Ready (Err e), src', inner'')
                | Some (Ok _, src', inner'') \<Rightarrow> decode_headers env T src' inner'')
           | Ok (Complete (HP_Eof len)) \<Rightarrow>
               (if len > length src then None
                else Some (Ready (Ok ()), drop len src, inner'\<lparr>in_hdr_st := pe_state0 env\<rparr>))))"

text \<open>
  The second half of \<^verbatim>\<open>decode\<close>, once the first line may be there. \<open>len\<close> is the length of the buffer
  before the call; a returned decoder whose inner state is gone has lost it to the early return.
\<close>

definition md_decode_rest ::
  "'s parse_env \<Rightarrow> 't message_type \<Rightarrow> nat \<Rightarrow> bool \<Rightarrow> bytes \<Rightarrow> ('t, 's) inner \<Rightarrow>
     ((decode_error + ('t \<times> payload_type) option) \<times> ('t, 's) message_decoder \<times> bytes) option"
where
  "md_decode_rest env T len hdrs src inner =
     (let finish = (\<lambda>result buf_size hdrs inner src.
            if buf_size \<ge> cfg_max_buf_size (in_cfg inner)
            then (Err (TooLarge buf_size), \<lparr>md_hdrs = hdrs, md_inner = None\<rparr>, src)
            else (result, \<lparr>md_hdrs = hdrs, md_inner = Some inner\<rparr>, src))
      in if in_val inner = None then Some (finish (Ok None) len hdrs inner src)
         else
           case decode_headers env T src inner of
             None \<Rightarrow> None
           | Some (Ready (Ok _), src', inner1) \<Rightarrow>
               (case in_val inner1 of
                  None \<Rightarrow> None
                | Some val \<Rightarrow>
                    (case mt_set_payload_length T val (in_st inner1) (st_payload_length (in_st inner1)) of
                       (Err e, _) \<Rightarrow> Some (Err e, \<lparr>md_hdrs = hdrs, md_inner = None\<rparr>, src')
                     | (Ok pl, val') \<Rightarrow>
                         let consumed = in_consumed inner1 + len - length src';
                             inner2 = inner1\<lparr>in_val := None, in_st := st_default, in_consumed := 0\<rparr>
                         in Some (finish (Ok (Some (val', pl))) consumed False inner2 src')))
           | Some (Pending, src', inner1) \<Rightarrow>
               (let buf_size = in_consumed inner1 + len
                in Some (finish (Ok None) buf_size hdrs
                           (inner1\<lparr>in_consumed := buf_size - length src'\<rparr>) src'))
           | Some (Ready (Err e), src', inner1) \<Rightarrow> Some (finish (Err e) 0 hdrs inner1 src'))"

definition md_decode ::
  "'s parse_env \<Rightarrow> 't message_type \<Rightarrow> ('t, 's) message_decoder \<Rightarrow> bytes \<Rightarrow>
     ((decode_error + ('t \<times> payload_type) option) \<times> ('t, 's) message_decoder \<times> bytes) option"
where
  "md_decode env T d src =
     (case md_inner d of
        None \<Rightarrow> None
      | Some inner \<Rightarrow>
          let len = length src;
              hdrs = (if len > 0 then True else md_hdrs d)
          in if in_val inner = None then
               (case mt_decode T src of
                  None \<Rightarrow> None
                | Some (Ready (Ok val), src') \<Rightarrow>
                    md_decode_rest env T len hdrs src'
                      (inner\<lparr>in_st := (in_st inner)\<lparr>st_version := mt_version T val\<rparr>, in_val := Some val\<rparr>)
                | Some (Ready (Err e), src') \<Rightarrow>
                    Some (Err e, \<lparr>md_hdrs = hdrs, md_inner = None\<rparr>, src')
                | Some (Pending, src') \<Rightarrow> md_decode_rest env T len hdrs src' inner)
             else md_decode_rest env T len hdrs src inner)"

section \<open>What the decoder knows between calls\<close>

lemma hm_len_append: "hm_len (hm_append m n v) \<le> Suc (hm_len m)"
proof -
  have "length (AList.update k w m) \<le> Suc (length m)" for k and w :: hvalue
    by (induction m) auto
  then show ?thesis by (auto simp: hm_len_def hm_append_def split: option.split)
qed

text \<open>
  A saved state belongs to a list \<open>hs\<close> of accepted headers: they are the headers of the message so far,
  and the header state is theirs.
\<close>

definition in_inv :: "'s parse_env \<Rightarrow> 't message_type \<Rightarrow> ('t, 's) inner \<Rightarrow> bool" where
  "in_inv env T inner \<longleftrightarrow>
     (case in_val inner of
        None \<Rightarrow> in_st inner = st_default \<and> in_consumed inner = 0
      | Some val \<Rightarrow>
          hm_invar (mt_headers T val) \<and> (mt_version T val = HTTP_10 \<or> mt_version T val = HTTP_11) \<and>
          hm_len (mt_headers T val) \<le> cfg_max_headers (in_cfg inner) \<and>
          (\<exists>hs. history (pe_atoi env) (mt_version T val) hs (in_st inner) \<and>
             (\<forall>n. hm_values (mt_headers T val) n = named n hs)))"

definition md_inv :: "'s parse_env \<Rightarrow> 't message_type \<Rightarrow> ('t, 's) message_decoder \<Rightarrow> bool" where
  "md_inv env T d \<longleftrightarrow> (case md_inner d of None \<Rightarrow> False | Some inner \<Rightarrow> in_inv env T inner)"

definition same_limits :: "('t, 's) inner \<Rightarrow> ('t, 's) inner \<Rightarrow> bool" where
  "same_limits i j \<longleftrightarrow> in_cfg j = in_cfg i \<and> in_consumed j = in_consumed i"

lemma md_inv_new: "md_inv env T (md_new env cfg)"
  by (simp add: md_inv_def md_new_def in_new_def in_inv_def)

lemma header_line_Some:
  assumes "header_line env T len src inner = Some (r, src', inner')"
  shows "\<exists>val. in_val inner = Some val \<and> len \<le> length src \<and> src' = drop len src \<and>
    (cfg_max_headers (in_cfg inner) \<le> hm_len (mt_headers T val) \<and> r = Err MaxHeaders \<and> inner' = inner \<or>
     hm_len (mt_headers T val) < cfg_max_headers (in_cfg inner) \<and>
     (\<exists>msg name v st msg'. (msg = val \<or> (\<exists>item. msg = mt_set_headers_item T item val)) \<and>
        set_header (pe_atoi env) T msg (in_st inner) name v = (r, st, msg') \<and>
        inner' = inner\<lparr>in_hdr_st := pe_state0 env, in_st := st, in_val := Some msg'\<rparr>))"
  using assms
  by (auto simp: header_line_def Let_def split: if_splits option.splits prod.splits) blast+

lemma header_line_Ok:
  assumes "header_line env T len src inner = Some (Ok u, src', inner')"
  shows "\<exists>val msg name v st msg'. in_val inner = Some val \<and>
    hm_len (mt_headers T val) < cfg_max_headers (in_cfg inner) \<and>
    (msg = val \<or> (\<exists>item. msg = mt_set_headers_item T item val)) \<and>
    set_header (pe_atoi env) T msg (in_st inner) name v = (Ok u, st, msg') \<and>
    inner' = inner\<lparr>in_hdr_st := pe_state0 env, in_st := st, in_val := Some msg'\<rparr>"
  using header_line_Some [OF assms] by simp blast

context message_ops
begin

lemma header_line_inv:
  assumes r: "header_line env T len src inner = Some (Ok u, src', inner')"
    and inv: "in_inv env T inner"
  shows "in_inv env T inner' \<and> in_val inner' \<noteq> None \<and> same_limits inner inner'"
proof -
  from header_line_Ok [OF r] obtain val msg name v st msg' where val: "in_val inner = Some val"
    and lt: "hm_len (mt_headers T val) < cfg_max_headers (in_cfg inner)"
    and msg: "msg = val \<or> (\<exists>item. msg = mt_set_headers_item T item val)"
    and sh: "set_header (pe_atoi env) T msg (in_st inner) name v = (Ok u, st, msg')"
    and inner': "inner' = inner\<lparr>in_hdr_st := pe_state0 env, in_st := st, in_val := Some msg'\<rparr>"
    by blast
  from inv val obtain hs where h: "history (pe_atoi env) (mt_version T val) hs (in_st inner)"
    and hv: "\<And>n. hm_values (mt_headers T val) n = named n hs" and hi: "hm_invar (mt_headers T val)"
    and ver: "mt_version T val \<in> {HTTP_10, HTTP_11}"
    by (auto simp: in_inv_def)
  have hdrs: "mt_headers T msg' = hm_append (mt_headers T val) name v"
    and ver': "mt_version T msg' = mt_version T val"
    using set_header_msg [OF sh] msg by (auto simp: headers_mut headers_item version_mut version_item)
  have "history (pe_atoi env) (mt_version T val) (hs @ [(name, v)]) st"
    using history_step [OF h ver sh] .
  moreover have "hm_values (mt_headers T msg') n = named n (hs @ [(name, v)])" for n
    using hdrs hv hi by (simp add: hm.vals_append)
  moreover have "hm_len (mt_headers T msg') \<le> cfg_max_headers (in_cfg inner)"
    using hm_len_append [of "mt_headers T val" name v] hdrs lt by simp
  moreover have "hm_invar (mt_headers T msg')" using hdrs hi by (simp add: hm.invar_append)
  ultimately have "in_inv env T inner'"
    using inner' ver ver' by (auto simp: in_inv_def)
  with inner' show ?thesis by (simp add: same_limits_def)
qed

end

text \<open>What a call of the header loop keeps, whatever it returns.\<close>

definition loop_keeps ::
  "'s parse_env \<Rightarrow> 't message_type \<Rightarrow> bytes \<Rightarrow> ('t, 's) inner \<Rightarrow>
     (decode_error + unit) poll \<times> bytes \<times> ('t, 's) inner \<Rightarrow> bool" where
  "loop_keeps env T src inner y =
     (case y of (r, src', inner') \<Rightarrow>
        same_limits inner inner' \<and> length src' \<le> length src \<and>
        (case r of
           Ready (Err _) \<Rightarrow> True
         | Ready (Ok _) \<Rightarrow> in_inv env T inner' \<and> in_val inner' \<noteq> None \<and> in_hdr_st inner' = pe_state0 env
         | Pending \<Rightarrow> in_inv env T inner' \<and> in_val inner' \<noteq> None))"

lemma in_inv_hdr [simp]:
  "in_inv env T (inner\<lparr>in_hdr := h\<rparr>) = in_inv env T inner"
  "in_inv env T (inner\<lparr>in_hdr_st := s\<rparr>) = in_inv env T inner"
  "in_val inner \<noteq> None \<Longrightarrow> in_inv env T (inner\<lparr>in_consumed := n\<rparr>) = in_inv env T inner"
  by (auto simp: in_inv_def split: option.split)

lemma header_line_limits:
  assumes "header_line env T len src inner = Some (r, src', inner')"
  shows "same_limits inner inner' \<and> length src' \<le> length src"
  using header_line_Some [OF assms] by (auto simp: same_limits_def)

lemma loop_keeps_trans:
  "same_limits inner inner1 \<Longrightarrow> length src1 \<le> length src \<Longrightarrow> loop_keeps env T src1 inner1 y \<Longrightarrow>
   loop_keeps env T src inner y"
  by (auto simp: loop_keeps_def same_limits_def split: prod.splits)

lemma decode_headers_keeps:
  assumes "decode_headers env T src inner = Some y"
    "message_ops T" "in_inv env T inner" "in_val inner \<noteq> None"
  shows "loop_keeps env T src inner y"
  using assms
proof (induction rule: decode_headers.raw_induct [rotated, consumes 1, case_names step])
  case (step f env T src inner y)
  obtain r hdr hst where p: "pe_header env src (in_hdr inner) (in_hdr_st inner) = (r, hdr, hst)"
    by (metis prod_cases3)
  let ?inner = "inner\<lparr>in_hdr := hdr, in_hdr_st := hst\<rparr>"
  show ?case
  proof (cases "\<exists>len. r = Ok (Complete (HP_Header len))")
    case False
    with step p show ?thesis
      by (auto simp: loop_keeps_def same_limits_def Let_def
          split: sum.splits hp_status.splits header_parsed.splits if_splits)
  next
    case True
    then obtain len where r: "r = Ok (Complete (HP_Header len))" by blast
    with step.hyps p obtain q src1 inner1 where hl: "header_line env T len src ?inner = Some (q, src1, inner1)"
      by (auto simp: Let_def split: option.splits)
    have lim: "same_limits inner inner1" "length src1 \<le> length src"
      using header_line_limits [OF hl] by (auto simp: same_limits_def)
    show ?thesis
    proof (cases q)
      case (Inl e)
      with step.hyps p r hl lim show ?thesis by (auto simp: loop_keeps_def Let_def)
    next
      case (Inr u)
      have "in_inv env T inner1 \<and> in_val inner1 \<noteq> None"
        using message_ops.header_line_inv [OF step.prems(1) hl [unfolded Inr]] step.prems by simp
      moreover have "f env T src1 inner1 = Some y"
        using step.hyps p r hl Inr by (simp add: Let_def)
      ultimately have "loop_keeps env T src1 inner1 y" using step.IH step.prems(1) by blast
      with lim show ?thesis by (rule loop_keeps_trans)
    qed
  qed
qed

section \<open>Calls of the decoder\<close>

text \<open>
  A message type that also parses its first line: the new message has no headers yet and is of
  version 1.0 or 1.1, and an incomplete line leaves the buffer alone.
\<close>

locale message_reader = message_ops +
  assumes decode_first: "mt_decode T src = Some (Ready (Ok val), src') \<Longrightarrow>
      mt_headers T val = hm_new \<and> (mt_version T val = HTTP_10 \<or> mt_version T val = HTTP_11) \<and>
      length src' \<le> length src"
    and decode_pending: "mt_decode T src = Some (Pending, src') \<Longrightarrow> src' = src"
begin

lemma in_inv_first:
  assumes "mt_decode T src = Some (Ready (Ok val), src')" "in_inv env T inner" "in_val inner = None"
  shows "in_inv env T (inner\<lparr>in_st := (in_st inner)\<lparr>st_version := mt_version T val\<rparr>, in_val := Some val\<rparr>)"
proof -
  note first = decode_first [OF assms(1)]
  have "history (pe_atoi env) (mt_version T val) [] (st_default\<lparr>st_version := mt_version T val\<rparr>)"
    by (rule history_Nil)
  moreover have "hm_invar hm_new" "hm_len hm_new = 0" "\<forall>n. hm_values hm_new n = named n []"
    by (simp_all add: hm_invar_def hm_values_def hm_len_def hm_new_def)
  ultimately show ?thesis
    using assms(2,3) first by (simp add: in_inv_def) (metis filter.simps(1) list.simps(8))
qed

text \<open>Both entries of \<^verbatim>\<open>decode\<close> reach its second half with a state that keeps the invariant.\<close>

lemma md_decode_cases:
  assumes "md_decode env T d src = Some (Ok res, d', rest)" "md_inv env T d"
  obtains inner inner1 hdrs src1 where "md_inner d = Some inner" "in_inv env T inner1"
    "same_limits inner inner1" "length src1 \<le> length src"
    "md_decode_rest env T (length src) hdrs src1 inner1 = Some (Ok res, d', rest)"
    "in_val inner1 = None \<Longrightarrow> src1 = src \<and> inner1 = inner"
proof -
  from assms obtain inner where i: "md_inner d = Some inner" "in_inv env T inner"
    by (auto simp: md_inv_def split: option.splits)
  let ?hdrs = "if length src > 0 then True else md_hdrs d"
  show thesis
  proof (cases "in_val inner")
    case (Some v)
    with assms(1) i have "md_decode_rest env T (length src) ?hdrs src inner = Some (Ok res, d', rest)"
      by (simp add: md_decode_def Let_def)
    with i Some show thesis by (intro that [of inner inner src ?hdrs]) (auto simp: same_limits_def)
  next
    case None
    with assms(1) i obtain q src1 where q: "mt_decode T src = Some (q, src1)"
      by (auto simp: md_decode_def Let_def split: option.splits)
    show thesis
    proof (cases q)
      case Pending
      then have "src1 = src" using decode_pending q by blast
      with Pending q assms(1) i None
      have "md_decode_rest env T (length src) ?hdrs src inner = Some (Ok res, d', rest)"
        by (simp add: md_decode_def Let_def)
      with i None show thesis
        by (intro that [of inner inner src ?hdrs]) (auto simp: same_limits_def)
    next
      case (Ready x)
      with q assms(1) i None obtain val where x: "x = Ok val"
        by (auto simp: md_decode_def Let_def split: sum.splits)
      let ?i = "inner\<lparr>in_st := (in_st inner)\<lparr>st_version := mt_version T val\<rparr>, in_val := Some val\<rparr>"
      have "md_decode_rest env T (length src) ?hdrs src1 ?i = Some (Ok res, d', rest)"
        using q assms(1) i None Ready x by (simp add: md_decode_def Let_def)
      with in_inv_first [of src val src1] decode_first [of src val src1] q Ready x i None show thesis
        by (intro that [of inner ?i src1 ?hdrs]) (auto simp: same_limits_def)
    qed
  qed
qed

text \<open>A call that completes a message, and a call that needs more data.\<close>

lemma md_decode_message:
  assumes "md_decode env T d src = Some (Ok (Some (msg, pl)), d', rest)" "md_inv env T d"
    "md_inner d = Some inner"
  shows "\<exists>val st hs inner'.
    history (pe_atoi env) (mt_version T val) hs st \<and>
    (mt_version T val = HTTP_10 \<or> mt_version T val = HTTP_11) \<and>
    (\<forall>n. hm_values (mt_headers T val) n = named n hs) \<and>
    hm_len (mt_headers T val) \<le> cfg_max_headers (in_cfg inner) \<and>
    mt_set_payload_length T val st (st_payload_length st) = (Ok pl, msg) \<and>
    d' = \<lparr>md_hdrs = False, md_inner = Some inner'\<rparr> \<and> in_val inner' = None \<and>
    in_st inner' = st_default \<and> in_consumed inner' = 0 \<and> in_hdr_st inner' = pe_state0 env \<and>
    in_cfg inner' = in_cfg inner \<and>
    in_consumed inner + length src - length rest < cfg_max_buf_size (in_cfg inner)"
proof -
  obtain inner1 hdrs src1 where c: "in_inv env T inner1"
    "same_limits inner inner1" "length src1 \<le> length src"
    "md_decode_rest env T (length src) hdrs src1 inner1 = Some (Ok (Some (msg, pl)), d', rest)"
    using md_decode_cases [OF assms(1,2)] assms(3) by (metis option.inject)
  then obtain inner2 val where v: "in_val inner1 \<noteq> None"
    and h: "decode_headers env T src1 inner1 = Some (Ready (Ok ()), rest, inner2)"
    and v2: "in_val inner2 = Some val"
    and p: "mt_set_payload_length T val (in_st inner2) (st_payload_length (in_st inner2)) = (Ok pl, msg)"
    and b: "in_consumed inner2 + length src - length rest < cfg_max_buf_size (in_cfg inner2)"
    and d': "d' = \<lparr>md_hdrs = False, md_inner =
        Some (inner2\<lparr>in_val := None, in_st := st_default, in_consumed := 0\<rparr>)\<rparr>"
    by (auto simp: md_decode_rest_def Let_def split: if_splits option.splits poll.splits sum.splits
        prod.splits)
  have k: "loop_keeps env T src1 inner1 (Ready (Ok ()), rest, inner2)"
    using decode_headers_keeps [OF h _ c(1) v] message_ops_axioms by blast
  then have "in_inv env T inner2" "in_hdr_st inner2 = pe_state0 env" "same_limits inner inner2"
    using c(2) by (auto simp: loop_keeps_def same_limits_def)
  with v2 p b d' show ?thesis
    by (auto simp: in_inv_def same_limits_def)
qed

lemma md_decode_pending:
  assumes "md_decode env T d src = Some (Ok None, d', rest)" "md_inv env T d"
    "md_inner d = Some inner"
  shows "\<exists>inner'. md_inner d' = Some inner' \<and> in_inv env T inner' \<and> in_cfg inner' = in_cfg inner \<and>
    in_consumed inner' + length rest = in_consumed inner + length src \<and>
    in_consumed inner' + length rest < cfg_max_buf_size (in_cfg inner)"
proof -
  obtain inner1 hdrs src1 where c: "in_inv env T inner1"
    "same_limits inner inner1" "length src1 \<le> length src"
    "md_decode_rest env T (length src) hdrs src1 inner1 = Some (Ok None, d', rest)"
    "in_val inner1 = None \<Longrightarrow> src1 = src \<and> inner1 = inner"
    using md_decode_cases [OF assms(1,2)] assms(3) by (metis option.inject)
  show ?thesis
  proof (cases "in_val inner1")
    case None
    with c assms(3) show ?thesis
      by (auto simp: md_decode_rest_def Let_def in_inv_def split: if_splits)
  next
    case (Some v)
    with c(4) obtain inner2 where
      h: "decode_headers env T src1 inner1 = Some (Pending, rest, inner2)"
      and d': "md_inner d' = Some (inner2\<lparr>in_consumed := in_consumed inner2 + length src - length rest\<rparr>)"
      and b: "in_consumed inner2 + length src < cfg_max_buf_size (in_cfg inner2)"
      by (auto simp: md_decode_rest_def Let_def split: if_splits option.splits poll.splits sum.splits
          prod.splits)
    have k: "loop_keeps env T src1 inner1 (Pending, rest, inner2)"
      using decode_headers_keeps [OF h _ c(1)] Some message_ops_axioms by blast
    then have "in_inv env T inner2" "in_val inner2 \<noteq> None" "same_limits inner inner2"
      "length rest \<le> length src"
      using c(2,3) by (auto simp: loop_keeps_def same_limits_def)
    with d' b show ?thesis by (auto simp: same_limits_def)
  qed
qed

end

section \<open>Totality\<close>

text \<open>
  What the decoder relies on of the header parser: a header line is not empty and lies in the
  buffer, the ranges of its name and value lie in the line, and the name is a valid header name.
\<close>

definition range_in :: "nat \<times> nat \<Rightarrow> nat \<Rightarrow> bool" where
  "range_in r len \<longleftrightarrow> fst r \<le> snd r \<and> snd r \<le> len"

definition header_contract :: "'s parse_env \<Rightarrow> bool" where
  "header_contract env \<longleftrightarrow>
     (\<forall>src hdr st hdr' st'.
        (\<forall>len. pe_header env src hdr st = (Ok (Complete (HP_Eof len)), hdr', st') \<longrightarrow> len \<le> length src) \<and>
        (\<forall>len. pe_header env src hdr st = (Ok (Complete (HP_Header len)), hdr', st') \<longrightarrow>
           0 < len \<and> len \<le> length src \<and> range_in (hh_name hdr') len \<and> range_in (hh_value hdr') len \<and>
           pe_header_name env
             (take (snd (hh_name hdr') - fst (hh_name hdr')) (drop (fst (hh_name hdr')) (take len src))) \<noteq> None))"

lemma buf_slice_in: "range_in r (length buf) \<Longrightarrow> buf_slice buf r = Some (take (snd r - fst r) (drop (fst r) buf))"
  by (cases r) (simp add: range_in_def)

lemma header_line_total:
  assumes "header_contract env" "in_val inner \<noteq> None"
    and p: "pe_header env src hdr st = (Ok (Complete (HP_Header len)), in_hdr inner, st')"
  shows "\<exists>r inner'. header_line env T len src inner = Some (r, drop len src, inner') \<and> in_val inner' \<noteq> None"
proof -
  from assms(1) p have c: "0 < len" "len \<le> length src" "range_in (hh_name (in_hdr inner)) len"
    "range_in (hh_value (in_hdr inner)) len"
    "pe_header_name env (take (snd (hh_name (in_hdr inner)) - fst (hh_name (in_hdr inner)))
       (drop (fst (hh_name (in_hdr inner))) (take len src))) \<noteq> None"
    unfolding header_contract_def by blast+
  then have "length (take len src) = len" by simp
  with c have "buf_slice (take len src) (hh_name (in_hdr inner)) =
      Some (take (snd (hh_name (in_hdr inner)) - fst (hh_name (in_hdr inner)))
       (drop (fst (hh_name (in_hdr inner))) (take len src)))"
    "buf_slice (take len src) (hh_value (in_hdr inner)) \<noteq> None"
    using buf_slice_in [of _ "take len src"] by simp_all
  with c assms(2) show ?thesis
    by (auto simp: header_line_def Let_def split: prod.split)
qed

lemma decode_headers_total:
  assumes "header_contract env" "in_val inner \<noteq> None"
  shows "\<exists>r. decode_headers env T src inner = Some r"
  using assms(2)
proof (induction "length src" arbitrary: src inner rule: less_induct)
  case less
  obtain r hdr hst where p: "pe_header env src (in_hdr inner) (in_hdr_st inner) = (r, hdr, hst)"
    by (metis prod_cases3)
  let ?inner = "inner\<lparr>in_hdr := hdr, in_hdr_st := hst\<rparr>"
  show ?case
  proof (cases "\<exists>len. r = Ok (Complete (HP_Header len))")
    case False
    have "len \<le> length src" if "r = Ok (Complete (HP_Eof len))" for len
      using assms(1) p that unfolding header_contract_def by blast
    with False p show ?thesis
      by (subst decode_headers.simps)
        (auto simp: Let_def split: sum.splits hp_status.splits header_parsed.splits)
  next
    case True
    then obtain len where r: "r = Ok (Complete (HP_Header len))" by blast
    have len: "0 < len" "len \<le> length src"
      using assms(1) p r unfolding header_contract_def by blast+
    obtain q inner1 where hl: "header_line env T len src ?inner = Some (q, drop len src, inner1)"
      "in_val inner1 \<noteq> None"
      using header_line_total [OF assms(1), of ?inner src "in_hdr inner" "in_hdr_st inner" len hst T]
        less.prems p r by auto
    have "\<exists>y. decode_headers env T (drop len src) inner1 = Some y"
      using less.hyps [of "drop len src" inner1] hl(2) len by simp
    with p r hl show ?thesis
      by (subst decode_headers.simps) (auto simp: Let_def split: sum.split)
  qed
qed

text \<open>And of the request line parser: the ranges and the end of the line lie in the buffer.\<close>

definition request_contract :: "'s parse_env \<Rightarrow> bool" where
  "request_contract env \<longleftrightarrow>
     (\<forall>src pos req. pe_request env src = Ok (Complete (pos, req)) \<longrightarrow>
        pos \<le> length src \<and> range_in (hq_method req) (length src) \<and> range_in (hq_path req) (length src))"

lemma rq_decode_total:
  assumes "request_contract env"
  shows "\<exists>r. rq_decode env fresh src = Some r"
proof (cases "\<exists>pos req. pe_request env src = Ok (Complete (pos, req))")
  case True
  then obtain pos req where p: "pe_request env src = Ok (Complete (pos, req))" by blast
  with assms have "pos \<le> length src" "range_in (hq_method req) (length src)"
    "range_in (hq_path req) (length src)"
    unfolding request_contract_def by blast+
  with p buf_slice_in [of _ src] show ?thesis
    by (auto simp: rq_decode_def Let_def simp del: buf_slice.simps split: option.split)
next
  case False
  then show ?thesis
    by (auto simp: rq_decode_def split: sum.split hp_status.split)
qed

lemma md_decode_rest_total:
  assumes "header_contract env" "message_ops T" "in_inv env T inner"
  shows "\<exists>r. md_decode_rest env T len hdrs src inner = Some r"
proof (cases "in_val inner")
  case None
  then show ?thesis by (simp add: md_decode_rest_def Let_def)
next
  case (Some v)
  then obtain r src' inner' where h: "decode_headers env T src inner = Some (r, src', inner')"
    using decode_headers_total [OF assms(1), of inner T src] by (metis option.distinct(1) prod_cases3)
  have "loop_keeps env T src inner (r, src', inner')"
    using decode_headers_keeps [OF h assms(2,3)] Some by simp
  then have "r = Ready (Ok u) \<Longrightarrow> in_val inner' \<noteq> None" for u
    by (simp add: loop_keeps_def)
  with h Some show ?thesis
    by (cases r) (auto simp: md_decode_rest_def Let_def split: sum.split prod.split)
qed

section \<open>The readers of requests and responses\<close>

abbreviation request_reader ::
  "'s parse_env \<Rightarrow> request_head list \<Rightarrow> request_head message_type" where
  "request_reader env pool \<equiv>
     request_type (rq_decode env (fst (get_message rq_clear rq_default pool)))"

abbreviation response_reader :: "'s parse_env \<Rightarrow> response_head message_type" where
  "response_reader env \<equiv> response_type (rs_decode env)"

lemma get_message_headers: "rq_headers (fst (get_message rq_clear rq_default pool)) = hm_new"
  using rq_pool.get_message_carried [of pool] by (simp add: rq_carried_def rq_default_def)

interpretation rq_reader: message_reader "request_reader env pool"
proof unfold_locales
  fix src src' :: bytes and val
  show "mt_decode (request_reader env pool) src = Some (Ready (Ok val), src') \<Longrightarrow>
      mt_headers (request_reader env pool) val = hm_new \<and>
      (mt_version (request_reader env pool) val = HTTP_10 \<or>
       mt_version (request_reader env pool) val = HTTP_11) \<and> length src' \<le> length src"
    by (auto simp: request_type_def rq_decode_def Let_def get_message_headers simp del: get_message.simps
        split: sum.splits hp_status.splits prod.splits option.splits if_splits)
  show "mt_decode (request_reader env pool) src = Some (Pending, src') \<Longrightarrow> src' = src"
    by (auto simp: request_type_def rq_decode_def Let_def
        split: sum.splits hp_status.splits prod.splits option.splits if_splits)
qed

interpretation rs_reader: message_reader "response_reader env"
proof unfold_locales
  fix src src' :: bytes and val
  show "mt_decode (response_reader env) src = Some (Ready (Ok val), src') \<Longrightarrow>
      mt_headers (response_reader env) val = hm_new \<and>
      (mt_version (response_reader env) val = HTTP_10 \<or>
       mt_version (response_reader env) val = HTTP_11) \<and> length src' \<le> length src"
    by (auto simp: response_type_def rs_decode_def rs_new_def Let_def
        split: sum.splits hp_status.splits prod.splits option.splits if_splits)
  show "mt_decode (response_reader env) src = Some (Pending, src') \<Longrightarrow> src' = src"
    by (auto simp: response_type_def rs_decode_def Let_def
        split: sum.splits hp_status.splits prod.splits option.splits if_splits)
qed

text \<open>How the headers of an accepted request determine its body.\<close>

definition request_body ::
  "(bytes \<Rightarrow> nat option) \<Rightarrow> header_map \<Rightarrow> http_method \<Rightarrow> payload_type" where
  "request_body atoi hdrs method =
     (if \<exists>t\<in>set (hm_values hdrs H_TRANSFER_ENCODING). says ''chunked'' t then PPayload pd_chunked
      else
        let cl = hm_values hdrs H_CONTENT_LENGTH;
            n = (case cl of [] \<Rightarrow> 0 | c # _ \<Rightarrow> the (atoi (hv_inner c)))
        in if n > 0 then PPayload (pd_length n)
           else if cl = [] \<and> hm_values hdrs H_UPGRADE \<noteq> [] \<or> method = ''CONNECT'' then PStream pd_eof
           else PNone)"

lemma rq_set_payload_length_Ok:
  assumes "rq_set_payload_length h st len = (Ok pl, h')"
  shows "rq_headers h' = rq_headers h \<and> rq_method h' = rq_method h \<and> rq_version h' = rq_version h \<and>
    pl = (case len of
       PLPayload p \<Rightarrow> if pl_is_zero len then (if rq_method h = ''CONNECT'' then PStream pd_eof else PNone) else p
     | PLUpgrade \<Rightarrow> PStream pd_eof
     | PLNone \<Rightarrow> if rq_method h = ''CONNECT'' then PStream pd_eof else PNone)"
  using assms
  by (auto simp: rq_set_payload_length_def Let_def rq_set_expect_def rq_set_upgrade_def pl_is_zero_def
      split: if_splits option.splits payload_length.splits)

lemma request_body_history:
  assumes h: "history atoi v hs st" and ws: "\<not> websocket_upgrade hs"
    and hv: "\<And>n. hm_values hdrs n = named n hs"
    and p: "rq_set_payload_length h0 st (st_payload_length st) = (Ok pl, h')" and "rq_headers h0 = hdrs"
  shows "pl = request_body atoi (rq_headers h') (rq_method h')"
proof -
  note f = history_framing [OF h ws, folded hv]
  note r = rq_set_payload_length_Ok [OF p]
  show ?thesis
  proof (cases "\<exists>t\<in>set (hm_values hdrs H_TRANSFER_ENCODING). says ''chunked'' t")
    case True
    with f r assms(5) show ?thesis by (simp add: request_body_def pl_is_zero_def pd_chunked_def)
  next
    case False
    then show ?thesis
      using f r assms(5)
      by (cases "hm_values hdrs H_CONTENT_LENGTH")
        (auto simp: request_body_def Let_def pl_is_zero_def pd_length_def)
  qed
qed

section \<open>A parser environment\<close>

text \<open>
  A minimal instance of the parameters. A request line is one byte (an exclamation mark is
  malformed), a header is one byte of name and one of value, and \<^verbatim>\<open>E\<close> ends the head.
\<close>

fun tiny_header ::
  "bytes \<Rightarrow> hp_header \<Rightarrow> unit \<Rightarrow> (httparse_error + header_parsed hp_status) \<times> hp_header \<times> unit" where
  "tiny_header [] hdr st = (Ok Partial, hdr, st)"
| "tiny_header (c # cs) hdr st =
     (if c = CHR ''E'' then (Ok (Complete (HP_Eof 1)), hdr, st)
      else if cs = [] then (Ok Partial, hdr, st)
      else (Ok (Complete (HP_Header 2)), \<lparr>hh_name = (0, 1), hh_value = (1, 2)\<rparr>, st))"

fun tiny_request :: "bytes \<Rightarrow> httparse_error + (nat \<times> hp_request) hp_status" where
  "tiny_request [] = Ok Partial"
| "tiny_request (c # cs) =
     (if c = CHR ''!'' then Err HE_Token
      else Ok (Complete (1, \<lparr>hq_method = (0, 1), hq_path = (0, 1), hq_version = 1\<rparr>)))"

definition tiny_env :: "unit parse_env" where
  "tiny_env =
     \<lparr>pe_header = tiny_header, pe_header0 = \<lparr>hh_name = (0, 0), hh_value = (0, 0)\<rparr>, pe_state0 = (),
      pe_request = tiny_request, pe_response = (\<lambda>_. Err HE_Token),
      pe_header_name = (\<lambda>b. Some (if b = ''L'' then H_CONTENT_LENGTH else b)),
      pe_method = Some, pe_uri = Some, pe_status = Some, pe_atoi = simple_atoi\<rparr>"

lemma tiny_header_contract: "header_contract tiny_env"
proof -
  have "len \<le> length src" if "tiny_header src hdr st = (Ok (Complete (HP_Eof len)), hdr', st')"
    for src hdr st len hdr' st'
    using that by (cases "(src, hdr, st)" rule: tiny_header.cases) (auto split: if_splits)
  moreover have "len = 2 \<and> len \<le> length src \<and> hdr' = \<lparr>hh_name = (0, 1), hh_value = (1, 2)\<rparr>"
    if "tiny_header src hdr st = (Ok (Complete (HP_Header len)), hdr', st')" for src hdr st len hdr' st'
    using that by (cases "(src, hdr, st)" rule: tiny_header.cases)
      (auto split: if_splits simp: Suc_le_eq)
  ultimately show ?thesis
    by (fastforce simp: header_contract_def tiny_env_def range_in_def)
qed

lemma tiny_request_contract: "request_contract tiny_env"
proof -
  have "pos \<le> length src \<and> range_in (hq_method req) (length src) \<and> range_in (hq_path req) (length src)"
    if "tiny_request src = Ok (Complete (pos, req))" for src pos req
    using that by (cases src) (auto simp: range_in_def split: if_splits)
  then show ?thesis by (simp add: request_contract_def tiny_env_def)
qed

definition small_cfg :: http_service_config where
  "small_cfg =
     \<lparr>cfg_keep_alive = 5, cfg_ka_enabled = True, cfg_headers_vec = False, cfg_max_headers = 4,
      cfg_max_buf_size = 60, cfg_headers_read_rate = None, cfg_payload_read_rate = None\<rparr>"

lemma tiny_decode:
  "\<exists>msg d'. md_decode tiny_env (request_reader tiny_env []) (md_new tiny_env small_cfg) ''RL2Ehi'' =
      Some (Ok (Some (msg, PPayload (pd_length 2))), d', ''hi'') \<and>
    rq_headers msg = [(H_CONTENT_LENGTH, One (plain ''2''))]"
  by (simp add: md_decode_def md_new_def in_new_def md_decode_rest_def decode_headers.simps
      tiny_env_def request_type_def rq_decode_def Let_def header_line_def small_cfg_def rq_default_def
      hm_new_def hm_len_def byte_val_def set_header_def st_default_def hv_from_shared_unchecked_def
      hv_checks is_visible_ascii_def trim_start_def is_whitespace_def flag_simps simple_atoi_def
      hm_append_def st_payload_length_def rq_set_payload_length_def pl_is_none_def pl_is_zero_def
      pd_length_def plain_def)

section \<open>Properties\<close>

text \<open>
  C22: Whenever the request decoder completes a request, however many calls and reads that took, the
  body it announces is the one its headers determine: chunked exactly if \<^verbatim>\<open>Transfer-Encoding\<close> says so,
  otherwise the one content length when it is positive, otherwise a raw stream for an upgrade or
  \<^verbatim>\<open>CONNECT\<close> and nothing else; there is at most one header of each kind, never both a chunked
  encoding and a content length, and no more distinct header names than configured. The case of a
  websocket upgrade, which clears the content length, is excluded.
\<close>

theorem request_decode_framing:
  assumes "md_decode env (request_reader env pool) d src = Some (Ok (Some (msg, pl)), d', rest)"
    "md_inv env (request_reader env pool) d" "md_inner d = Some inner"
    "\<not> (\<exists>u\<in>set (hm_values (rq_headers msg) H_UPGRADE). says ''websocket'' u)"
  shows "pl = request_body (pe_atoi env) (rq_headers msg) (rq_method msg) \<and>
    length (hm_values (rq_headers msg) H_CONTENT_LENGTH) \<le> 1 \<and>
    length (hm_values (rq_headers msg) H_TRANSFER_ENCODING) \<le> 1 \<and>
    (pl = PPayload pd_chunked \<longrightarrow> hm_values (rq_headers msg) H_CONTENT_LENGTH = []) \<and>
    hm_len (rq_headers msg) \<le> cfg_max_headers (in_cfg inner)"
proof -
  from rq_reader.md_decode_message [OF assms(1-3)] obtain val st hs where
    h: "history (pe_atoi env) (rq_version val) hs st"
    and hv: "\<And>n. hm_values (rq_headers val) n = named n hs"
    and len: "hm_len (rq_headers val) \<le> cfg_max_headers (in_cfg inner)"
    and p: "rq_set_payload_length val st (st_payload_length st) = (Ok pl, msg)"
    by (auto simp: request_type_def)
  have hdrs: "rq_headers msg = rq_headers val" using rq_set_payload_length_Ok [OF p] by simp
  have ws: "\<not> websocket_upgrade hs"
    using assms(4) hv [of H_UPGRADE] hdrs by (simp add: websocket_upgrade_def)
  have pl: "pl = request_body (pe_atoi env) (rq_headers msg) (rq_method msg)"
    by (rule request_body_history [OF h ws hv p refl])
  have "pl = PPayload pd_chunked \<longrightarrow> (\<exists>t\<in>set (hm_values (rq_headers msg) H_TRANSFER_ENCODING). says ''chunked'' t)"
    using pl by (auto simp: request_body_def pd_chunked_def pd_length_def Let_def split: if_splits)
  with history_framing [OF h ws, folded hv] pl len hdrs show ?thesis by simp
qed

theorem request_decode_framing_witness:
  "\<exists>msg :: request_head. PPayload (pd_length 2) = request_body simple_atoi (rq_headers msg) (rq_method msg)"
proof -
  obtain msg d' where r: "md_decode tiny_env (request_reader tiny_env []) (md_new tiny_env small_cfg)
      ''RL2Ehi'' = Some (Ok (Some (msg, PPayload (pd_length 2))), d', ''hi'')"
    and h: "rq_headers msg = [(H_CONTENT_LENGTH, One (plain ''2''))]"
    using tiny_decode by blast
  have i: "md_inner (md_new tiny_env small_cfg) = Some (in_new tiny_env small_cfg)"
    by (simp add: md_new_def)
  have "\<not> (\<exists>u\<in>set (hm_values (rq_headers msg) H_UPGRADE). says ''websocket'' u)"
    by (simp add: h hm_values_def)
  from request_decode_framing [OF r md_inv_new i this]
  have "PPayload (pd_length 2) = request_body (pe_atoi tiny_env) (rq_headers msg) (rq_method msg)" by blast
  moreover have "pe_atoi tiny_env = simple_atoi" by (simp add: tiny_env_def)
  ultimately show ?thesis by metis
qed

lemma rq_decoder_returns:
  assumes "header_contract env" "request_contract env" "md_inv env (request_reader env pool) d"
  shows "\<exists>r. md_decode env (request_reader env pool) d src = Some r"
proof -
  let ?T = "request_reader env pool"
  from assms(3) obtain inner where i: "md_inner d = Some inner" "in_inv env ?T inner"
    by (auto simp: md_inv_def split: option.splits)
  obtain q src1 where q: "mt_decode ?T src = Some (q, src1)"
    using rq_decode_total [OF assms(2)] by (simp add: request_type_def del: get_message.simps) fast
  have rest: "\<exists>r. md_decode_rest env ?T len hdrs src2 inner2 = Some r" if "in_inv env ?T inner2"
    for len hdrs src2 inner2
    using md_decode_rest_total [OF assms(1) _ that] rq_ops.message_ops_axioms by blast
  show ?thesis
  proof (cases "in_val inner")
    case (Some v)
    with i rest [OF i(2)] show ?thesis by (simp add: md_decode_def Let_def)
  next
    case None
    with i q rest [OF i(2)] rest [OF rq_reader.in_inv_first [OF _ i(2) None]] show ?thesis
      by (auto simp: md_decode_def Let_def split: poll.split sum.split)
  qed
qed

text \<open>A call that succeeds leaves a decoder that can be called again.\<close>

lemma rq_decoder_keeps:
  assumes "md_decode env (request_reader env pool) d src = Some (Ok res, d', rest)" "md_inv env (request_reader env pool) d"
  shows "md_inv env (request_reader env pool) d'"
proof -
  from assms(2) obtain inner where i: "md_inner d = Some inner" by (auto simp: md_inv_def split: option.splits)
  show ?thesis
  proof (cases res)
    case None
    with assms(1) have "md_decode env (request_reader env pool) d src = Some (Ok None, d', rest)" by metis
    from rq_reader.md_decode_pending [OF this assms(2) i] show ?thesis unfolding md_inv_def by fastforce
  next
    case (Some r)
    obtain msg pl where "r = (msg, pl)" by (cases r)
    with Some assms(1) have "md_decode env (request_reader env pool) d src = Some (Ok (Some (msg, pl)), d', rest)" by metis
    from rq_reader.md_decode_message [OF this assms(2) i] show ?thesis unfolding md_inv_def in_inv_def by fastforce
  qed
qed

text \<open>
  C23: Given parsers that stay within the buffer and accept only valid header names, a call of the
  request decoder always returns: neither an index nor an \<^verbatim>\<open>unwrap\<close> panics, and the loop over the
  headers ends.
\<close>

theorem request_decoder_total:
  assumes "header_contract env" "request_contract env" "md_inv env (request_reader env pool) d"
  shows "\<exists>r. md_decode env (request_reader env pool) d src = Some r"
  using assms by (rule rq_decoder_returns)

theorem request_decoder_total_witness:
  "\<exists>r. md_decode tiny_env (request_reader tiny_env []) (md_new tiny_env small_cfg) ''RL2Ehi'' = Some r"
  using request_decoder_total [OF tiny_header_contract tiny_request_contract md_inv_new] .

text \<open>
  Reading a head in pieces, as the framing layer does: each piece is appended to what the last call left in the buffer, until the decoder
  has a message or fails. Every call may find another pool of message heads. What follows the piece that ended the reading is counted as left.
\<close>

fun md_feed ::
  "'s parse_env \<Rightarrow> (request_head, 's) message_decoder \<Rightarrow> bytes \<Rightarrow> (request_head list \<times> bytes) list \<Rightarrow>
     ((decode_error + (request_head \<times> payload_type) option) \<times> (request_head, 's) message_decoder \<times> bytes) option"
where
  "md_feed env d buf [] = Some (Ok None, d, buf)"
| "md_feed env d buf ((pool, piece) # ps) =
     (case md_decode env (request_reader env pool) d (buf @ piece) of
        None \<Rightarrow> None
      | Some (Ok None, d', rest) \<Rightarrow> md_feed env d' rest ps
      | Some (r, d', rest) \<Rightarrow> Some (r, d', rest @ concat (map snd ps)))"

lemma md_inv_pool: "md_inv env (request_reader env pool) d = md_inv env (request_reader env pool') d"
  by (simp add: md_inv_def in_inv_def request_type_def del: get_message.simps split: option.split)

lemma md_feed_bounded:
  assumes "md_feed env d buf ps = Some (r, d', left)" "md_inv env (request_reader env pool) d" "md_inner d = Some inner"
  shows "(\<forall>msg pl. r = Ok (Some (msg, pl)) \<longrightarrow> hm_len (rq_headers msg) \<le> cfg_max_headers (in_cfg inner) \<and>
      in_consumed inner + length buf + length (concat (map snd ps)) < cfg_max_buf_size (in_cfg inner) + length left) \<and>
    (r = Ok None \<and> ps \<noteq> [] \<longrightarrow> in_consumed inner + length buf + length (concat (map snd ps)) < cfg_max_buf_size (in_cfg inner))"
  using assms
proof (induction ps arbitrary: d buf inner)
  case Nil
  then show ?case by auto
next
  case (Cons x ps)
  obtain pool1 piece where x: "x = (pool1, piece)" by (cases x)
  have inv: "md_inv env (request_reader env pool1) d" using Cons.prems(2) md_inv_pool by metis
  obtain r1 d1 rest where c: "md_decode env (request_reader env pool1) d (buf @ piece) = Some (r1, d1, rest)"
    using Cons.prems(1) x by (auto split: option.splits)
  show ?case
  proof (cases "r1 = Ok None")
    case True
    from rq_reader.md_decode_pending [OF c [unfolded True] inv Cons.prems(3)] obtain inner1 where
      i: "md_inner d1 = Some inner1" "in_inv env (request_reader env pool1) inner1" "in_cfg inner1 = in_cfg inner"
      "in_consumed inner1 + length rest = in_consumed inner + length (buf @ piece)"
      "in_consumed inner1 + length rest < cfg_max_buf_size (in_cfg inner)" by blast
    have "md_inv env (request_reader env pool) d1" using i(1,2) md_inv_pool [of env pool d1 pool1] by (simp add: md_inv_def)
    moreover have "md_feed env d1 rest ps = Some (r, d', left)" using Cons.prems(1) c True x by simp
    ultimately show ?thesis using Cons.IH [of d1 rest inner1] i x by (cases ps) auto
  next
    case False
    with Cons.prems(1) c x have r: "r = r1" "left = rest @ concat (map snd ps)"
      by (auto split: sum.splits option.splits)
    from False r(1) show ?thesis
    proof (intro conjI allI impI)
      fix msg pl
      assume "r = Ok (Some (msg, pl))"
      with c r(1) have "md_decode env (request_reader env pool1) d (buf @ piece) = Some (Ok (Some (msg, pl)), d1, rest)" by simp
      from rq_reader.md_decode_message [OF this inv Cons.prems(3)] obtain val st where
        "hm_len (rq_headers val) \<le> cfg_max_headers (in_cfg inner)"
        "rq_set_payload_length val st (st_payload_length st) = (Ok pl, msg)"
        and size: "in_consumed inner + length (buf @ piece) - length rest < cfg_max_buf_size (in_cfg inner)"
        by (auto simp: request_type_def)
      then show "hm_len (rq_headers msg) \<le> cfg_max_headers (in_cfg inner)" by (simp add: rq_set_payload_length_Ok)
      show "in_consumed inner + length buf + length (concat (map snd (x # ps))) < cfg_max_buf_size (in_cfg inner) + length left"
        using size r(2) x by simp
    qed auto
  qed
qed

text \<open>
  C24: The head of a request is bounded, in whatever pieces it arrives. When the decoder completes a request, its head
  has at most \<^verbatim>\<open>max_headers\<close> distinct names, and the bytes it took from the connection, all that arrived less what is left, are fewer
  than \<^verbatim>\<open>max_buf_size\<close>. As long as the decoder asks for more data, all bytes that arrived are fewer than that.
\<close>

theorem message_head_bounded:
  assumes "md_feed env (md_new env cfg) [] ps = Some (r, d', left)"
  shows "(\<forall>msg pl. r = Ok (Some (msg, pl)) \<longrightarrow> hm_len (rq_headers msg) \<le> cfg_max_headers cfg \<and>
      length (concat (map snd ps)) < cfg_max_buf_size cfg + length left) \<and>
    (r = Ok None \<and> ps \<noteq> [] \<longrightarrow> length (concat (map snd ps)) < cfg_max_buf_size cfg)"
  using md_feed_bounded [OF assms md_inv_new, of "in_new env cfg"] by (simp add: md_new_def in_new_def)

theorem message_head_bounded_witness:
  "\<exists>msg pl d'. md_feed tiny_env (md_new tiny_env small_cfg) [] [([], ''RL2Ehi'')] = Some (Ok (Some (msg, pl)), d', ''hi'') \<and>
     hm_len (rq_headers msg) \<le> 4 \<and> length ''RL2Ehi'' < 60 + length ''hi''"
proof -
  obtain msg pl d' where r: "md_feed tiny_env (md_new tiny_env small_cfg) [] [([], ''RL2Ehi'')] = Some (Ok (Some (msg, pl)), d', ''hi'')"
    using tiny_decode by auto
  from message_head_bounded [OF r] r show ?thesis by (auto simp: small_cfg_def)
qed

text \<open>
  After a complete message the decoder is as good as new: its state is that of a fresh decoder
  with the same configuration, up to the scratch positions of the last header, so nothing of one
  request influences how the next one on the connection is read; and the head stayed below the
  configured size.
\<close>

lemma decoder_reusable:
  assumes "md_decode env (request_reader env pool) d src = Some (Ok (Some (msg, pl)), d', rest)"
    "md_inv env (request_reader env pool) d" "md_inner d = Some inner"
  shows "(\<exists>hdr. d' = \<lparr>md_hdrs = False, md_inner = Some ((in_new env (in_cfg inner))\<lparr>in_hdr := hdr\<rparr>)\<rparr>) \<and>
    in_consumed inner + length src - length rest < cfg_max_buf_size (in_cfg inner)"
proof -
  from rq_reader.md_decode_message [OF assms] obtain inner' where
    d': "d' = \<lparr>md_hdrs = False, md_inner = Some inner'\<rparr>" and
    i: "in_val inner' = None" "in_st inner' = st_default" "in_consumed inner' = 0"
       "in_hdr_st inner' = pe_state0 env" "in_cfg inner' = in_cfg inner" and
    b: "in_consumed inner + length src - length rest < cfg_max_buf_size (in_cfg inner)"
    by blast
  from i have "inner' = (in_new env (in_cfg inner))\<lparr>in_hdr := in_hdr inner'\<rparr>"
    by (cases inner') (simp add: in_new_def)
  with d' b show ?thesis by blast
qed

text \<open>The state in which \<^verbatim>\<open>decode\<close> enters the loop over the headers, if it does, and whether that loop fails.\<close>

definition head_entry ::
  "'t message_type \<Rightarrow> ('t, 's) message_decoder \<Rightarrow> bytes \<Rightarrow> (bytes \<times> ('t, 's) inner) option" where
  "head_entry T d src =
     (case md_inner d of
        None \<Rightarrow> None
      | Some inner \<Rightarrow>
          if in_val inner \<noteq> None then Some (src, inner)
          else (case mt_decode T src of
                  Some (Ready (Ok val), src') \<Rightarrow>
                    Some (src', inner\<lparr>in_st := (in_st inner)\<lparr>st_version := mt_version T val\<rparr>, in_val := Some val\<rparr>)
                | _ \<Rightarrow> None))"

definition header_error :: "'s parse_env \<Rightarrow> 't message_type \<Rightarrow> ('t, 's) message_decoder \<Rightarrow> bytes \<Rightarrow> bool" where
  "header_error env T d src \<longleftrightarrow>
     (\<exists>src1 inner1 e src2 inner2. head_entry T d src = Some (src1, inner1) \<and>
        decode_headers env T src1 inner1 = Some (Ready (Err e), src2, inner2))"

lemma md_decode_rest_Err:
  assumes "md_decode_rest env T len hdrs src inner = Some (Err e, d', rest)" "message_ops T" "in_inv env T inner"
    and "0 < cfg_max_buf_size (in_cfg inner)"
  shows "md_inner d' \<noteq> None \<longleftrightarrow> in_val inner \<noteq> None \<and> (\<exists>e src2 inner2. decode_headers env T src inner = Some (Ready (Err e), src2, inner2))"
proof (cases "in_val inner")
  case None
  with assms(1) show ?thesis by (auto simp: md_decode_rest_def Let_def split: if_splits)
next
  case (Some v)
  then obtain r src1 inner1 where h: "decode_headers env T src inner = Some (r, src1, inner1)"
    using assms(1) by (auto simp: md_decode_rest_def Let_def split: option.splits)
  have "same_limits inner inner1" using decode_headers_keeps [OF h assms(2,3)] Some by (simp add: loop_keeps_def)
  with h Some assms(1,4) show ?thesis
    by (cases r) (auto simp: md_decode_rest_def Let_def same_limits_def split: if_splits option.splits sum.splits prod.splits)
qed

text \<open>
  C25: An error poisons the decoder, unless it is one of the loop over the headers. When a call reports an error, the
  decoder still has its state only if that loop reported it. After every other error, that is a malformed request line, a method or
  target that is refused, a body without a length or a head that is too large, the early return has dropped the saved state, and
  every later call panics on it instead of reporting an error.
\<close>

theorem decoder_poisoned:
  assumes "md_decode env (request_reader env pool) d src = Some (Err e, d', rest)"
    and "md_inv env (request_reader env pool) d" "md_inner d = Some inner" "0 < cfg_max_buf_size (in_cfg inner)"
  shows "if header_error env (request_reader env pool) d src then md_inner d' \<noteq> None
    else \<forall>pool' src'. md_decode env (request_reader env pool') d' src' = None"
proof -
  let ?T = "request_reader env pool"
  have inv: "in_inv env ?T inner" using assms(2,3) by (simp add: md_inv_def)
  have ops: "message_ops ?T" by (rule rq_ops.message_ops_axioms)
  have "md_inner d' \<noteq> None \<longleftrightarrow> header_error env ?T d src"
  proof (cases "in_val inner")
    case (Some v)
    with assms(1,3) obtain hdrs where "md_decode_rest env ?T (length src) hdrs src inner = Some (Err e, d', rest)"
      by (auto simp: md_decode_def Let_def)
    from md_decode_rest_Err [OF this ops inv assms(4)] Some assms(3) show ?thesis by (simp add: header_error_def head_entry_def)
  next
    case None
    obtain q src1 where q: "mt_decode ?T src = Some (q, src1)"
      using assms(1,3) None by (auto simp: md_decode_def Let_def split: option.splits)
    show ?thesis
    proof (cases "\<exists>val. q = Ready (Ok val)")
      case True
      then obtain val where val: "q = Ready (Ok val)" by blast
      let ?i = "inner\<lparr>in_st := (in_st inner)\<lparr>st_version := mt_version ?T val\<rparr>, in_val := Some val\<rparr>"
      have "in_inv env ?T ?i" using rq_reader.in_inv_first [OF _ inv None] q val by blast
      moreover obtain hdrs where "md_decode_rest env ?T (length src) hdrs src1 ?i = Some (Err e, d', rest)"
        using assms(1,3) None q val by (auto simp: md_decode_def Let_def)
      ultimately show ?thesis
        using md_decode_rest_Err [OF _ ops, of env "length src" _ src1 ?i e d' rest] assms(3,4) None q val
        by (simp add: header_error_def head_entry_def)
    next
      case False
      with q assms(3) None have "\<not> header_error env ?T d src"
        by (auto simp: header_error_def head_entry_def split: poll.splits sum.splits)
      moreover have "md_inner d' = None"
        using assms(1,3) None q False by (auto simp: md_decode_def md_decode_rest_def Let_def split: poll.splits sum.splits if_splits)
      ultimately show ?thesis by simp
    qed
  qed
  then show ?thesis by (auto simp: md_decode_def)
qed

theorem decoder_poisoned_witness:
  "\<exists>d'. md_decode tiny_env (request_reader tiny_env []) (md_new tiny_env small_cfg) ''!'' = Some (Err DHeader, d', ''!'') \<and>
    md_decode tiny_env (request_reader tiny_env []) d' ''RL2Ehi'' = None"
proof -
  let ?d = "md_new tiny_env small_cfg :: (request_head, unit) message_decoder"
  obtain d' where r: "md_decode tiny_env (request_reader tiny_env []) ?d ''!'' = Some (Err DHeader, d', ''!'')"
    by (simp add: md_decode_def Let_def request_type_def rq_decode_def tiny_env_def md_new_def in_new_def)
  moreover have "\<not> header_error tiny_env (request_reader tiny_env []) ?d ''!''"
    by (simp add: header_error_def head_entry_def md_new_def in_new_def request_type_def rq_decode_def tiny_env_def)
  moreover have "md_inner ?d = Some (in_new tiny_env small_cfg)" "0 < cfg_max_buf_size (in_cfg (in_new tiny_env small_cfg))"
    by (simp_all add: md_new_def in_new_def small_cfg_def)
  note lost = decoder_poisoned [OF r md_inv_new this]
  ultimately have "md_decode tiny_env (request_reader tiny_env []) d' ''RL2Ehi'' = None" by (simp only: if_False)
  with r show ?thesis by blast
qed

end
