(* ===== verification/H1_Roundtrip.thy ===== *)
theory H1_Roundtrip
  imports H1_Encoder
begin

text \<open>
  The HTTP/1 encoder against the decoder: numbers, bodies and heads that the encoder writes are read
  back as what they stand for.
\<close>

section \<open>The fields of an encoded head\<close>

type_synonym field = "header_name \<times> bytes"

definition render :: "field list \<Rightarrow> bytes" where
  "render fs = concat (map (\<lambda>(n, v). n @ '': '' @ v @ CRLF) fs)"

lemma render_simps [simp]:
  "render [] = []" "render ((n, v) # fs) = n @ '': '' @ v @ CRLF @ render fs" "render (fs @ gs) = render fs @ render gs"
  by (simp_all add: render_def)

definition framing_fields :: "bool \<Rightarrow> body_size \<Rightarrow> field list" where
  "framing_fields chunked len =
     (case len of
        SzNone \<Rightarrow> []
      | SzEmpty \<Rightarrow> [(H_CONTENT_LENGTH, ''0'')]
      | SzSized n \<Rightarrow> [(H_CONTENT_LENGTH, dec n)]
      | SzStream \<Rightarrow> if chunked then [(H_TRANSFER_ENCODING, ''chunked'')] else [])"

definition connection_fields :: "version \<Rightarrow> connection_type \<Rightarrow> field list" where
  "connection_fields version ctype =
     (if ctype = Upgrade then [(H_CONNECTION, ''upgrade'')]
      else if ctype = KeepAlive \<and> version < HTTP_11 then [(H_CONNECTION, ''keep-alive'')]
      else if ctype = Close \<and> version \<ge> HTTP_11 then [(H_CONNECTION, ''close'')]
      else [])"

fun value_fields :: "header_name \<times> hvalue \<Rightarrow> field list" where
  "value_fields (n, One v) = [(n, hv_inner v)]"
| "value_fields (n, Multi vs) = map (\<lambda>v. (n, hv_inner v)) vs"

definition kept :: "bool \<Rightarrow> header_name \<Rightarrow> bool" where
  "kept skip_len n \<longleftrightarrow> n \<noteq> H_CONNECTION \<and> \<not> ((n = H_TRANSFER_ENCODING \<or> n = H_CONTENT_LENGTH) \<and> skip_len)"

definition merged :: "header_map \<Rightarrow> header_map option \<Rightarrow> header_map" where
  "merged m extra =
     (let x = (case extra of None \<Rightarrow> hm_new | Some m \<Rightarrow> m) in filter (\<lambda>(name, _). map_of x name = None) m @ x)"

definition user_fields :: "bool \<Rightarrow> header_map \<Rightarrow> field list" where
  "user_fields skip_len m = concat (map value_fields (filter (kept skip_len \<circ> fst) m))"

definition skips_length :: "bool \<Rightarrow> bool \<times> body_size \<Rightarrow> bool" where
  "skips_length chunked = (\<lambda>(skip_len, len). if len = SzStream then chunked else skip_len)"

lemma put_header_render: "put_header n v dst = dst @ render (value_fields (n, v))"
proof (cases v)
  case (Multi vs)
  have "foldl (\<lambda>dst v. dst @ n @ '': '' @ hv_inner v @ CRLF) dst vs = dst @ render (map (\<lambda>v. (n, hv_inner v)) vs)"
    by (induction vs arbitrary: dst) simp_all
  with Multi show ?thesis by simp
qed simp

lemma header_step_fold:
  "foldl (header_step skip_len) (dst, d) m =
     (dst @ render (user_fields skip_len m), d \<or> (\<exists>(n, _)\<in>set m. n = H_DATE))"
proof (induction m arbitrary: dst d)
  case Nil
  then show ?case by (simp add: user_fields_def)
next
  case (Cons x m)
  obtain n v where x: "x = (n, v)" by (cases x)
  show ?case
  proof (cases "kept skip_len n")
    case True
    with Cons x show ?thesis
      by (auto simp: header_step_def kept_def user_fields_def put_header_render)
  next
    case False
    then have "n \<noteq> H_DATE" by (auto simp: kept_def)
    with False Cons x show ?thesis
      by (auto simp: header_step_def kept_def user_fields_def)
  qed
qed

lemma write_connection_render: "write_connection v ct dst = dst @ render (connection_fields v ct)"
  by (simp add: write_connection_def connection_fields_def header_name_defs)

definition sized_ok :: "body_size \<Rightarrow> bool" where
  "sized_ok len = (case len of SzSized n \<Rightarrow> n < 2 ^ 64 | _ \<Rightarrow> True)"

lemma write_framing_render:
  assumes "length junk = 41" "sized_ok len"
  shows "write_framing junk chunked (skip_len, len) dst =
    Some (skips_length chunked (skip_len, len), dst @ CRLF @ render (framing_fields chunked len))"
  using assms
  by (cases len)
    (simp_all add: write_framing_def framing_fields_def skips_length_def write_content_length_dec sized_ok_def
      header_name_defs)

text \<open>The fields of a head, with the date the cache holds when the application sets none.\<close>

definition head_fields ::
  "'t enc_type \<Rightarrow> 't \<Rightarrow> string \<Rightarrow> version \<Rightarrow> body_size \<Rightarrow> connection_type \<Rightarrow> header_map option \<Rightarrow> field list" where
  "head_fields T msg date version len ctype extra =
     (let (skip, len') = status_length (et_status T msg) len;
          m = merged (et_headers T msg) extra
      in framing_fields (et_chunked T msg) len' @ connection_fields version ctype @
         user_fields (skips_length (et_chunked T msg) (skip, len')) m @
         (if \<exists>(n, _)\<in>set m. n = H_DATE then [] else [(H_DATE, date)]))"

lemma status_length_sized: "sized_ok len \<Longrightarrow> sized_ok (snd (status_length st len))"
  by (cases st) (auto simp: status_length_def Let_def sized_ok_def)

lemma check_date_total:
  assumes "date_wf ds" "length httpdate = 29"
  shows "\<exists>ds' date. check_date httpdate ds = Some ds' \<and> date_wf ds' \<and> length date = 29 \<and> ds_current_date ds' = date_line date"
proof -
  from assms obtain ds' where "check_date httpdate ds = Some ds'"
    by (cases "ds_current ds") (auto simp: check_date_def date_update_def)
  with check_date_wf [OF this assms(1)] show ?thesis by (auto simp: date_wf_def)
qed

lemma encode_headers_render:
  assumes "length junk = 41" "sized_ok len" "date_wf ds" "length httpdate = 29"
  shows "\<exists>date ds'. length date = 29 \<and> date_wf ds' \<and>
    encode_headers T msg junk httpdate ds dst version len ctype extra =
      Some (dst @ CRLF @ render (head_fields T msg date version len ctype extra) @ CRLF, ds')"
proof -
  obtain skip len' where sl: "status_length (et_status T msg) len = (skip, len')" by (metis surj_pair)
  with status_length_sized [OF assms(2), of "et_status T msg"] have "sized_ok len'" by simp
  note w = write_framing_render [OF assms(1) this]
  obtain ds' date where d: "check_date httpdate ds = Some ds'" "date_wf ds'" "length date = 29" "ds_current_date ds' = date_line date"
    using check_date_total [OF assms(3,4)] by blast
  let ?m = "merged (et_headers T msg) extra"
  show ?thesis
  proof (cases "\<exists>(n, _)\<in>set ?m. n = H_DATE")
    case True
    have "encode_headers T msg junk httpdate ds dst version len ctype extra =
      Some (dst @ CRLF @ render (head_fields T msg date version len ctype extra) @ CRLF, ds)"
      using True unfolding merged_def Let_def
      by (simp add: encode_headers_def sl w head_fields_def write_connection_render header_step_fold merged_def Let_def)
    with assms(3) d(3) show ?thesis by blast
  next
    case False
    have "encode_headers T msg junk httpdate ds dst version len ctype extra =
      Some (dst @ CRLF @ render (head_fields T msg date version len ctype extra) @ CRLF, ds')"
      using False d unfolding merged_def Let_def
      by (simp add: encode_headers_def sl w head_fields_def write_connection_render header_step_fold merged_def Let_def
          set_date_header_def date_line_def H_DATE_def)
    with d show ?thesis by blast
  qed
qed

section \<open>Reading the fields back\<close>

definition as_headers :: "field list \<Rightarrow> (header_name \<times> header_value) list" where
  "as_headers fs = map (\<lambda>(n, v). (n, plain v)) fs"

lemma as_headers_append [simp]: "as_headers (fs @ gs) = as_headers fs @ as_headers gs"
  by (simp add: as_headers_def)

definition atoi_decimal :: "(bytes \<Rightarrow> nat option) \<Rightarrow> bool" where
  "atoi_decimal atoi \<longleftrightarrow> (\<forall>n < 2 ^ 64. atoi (dec n) = Some n)"

lemma zero_dec: "''0'' = dec 0"
  by (simp add: dec_small digit_def char_of_def bit_0)

lemma digit_val: "d < 10 \<Longrightarrow> byte_val (digit d) = d + 48"
  by (simp add: digit_def byte_val_def)

lemma dec_digits: "c \<in> set (dec n) \<Longrightarrow> \<exists>d<10. c = digit d"
proof (induction n rule: dec.induct)
  case (1 n)
  have "\<exists>d<10. digit (n mod 10) = digit d" by (rule exI [of _ "n mod 10"]) simp
  with 1 show ?case by (cases "n < 10") (auto simp: dec.simps [of n])
qed

lemma dec_visible: "hv_to_str (plain (dec n)) = Ok (dec n)"
proof -
  have "\<forall>c\<in>set (dec n). is_visible_ascii c"
    by (auto dest!: dec_digits simp: is_visible_ascii_def digit_val)
  then show ?thesis by (simp add: hv_checks plain_def list_all_iff)
qed

lemma dec_not_plus: "take 1 (trim_start (dec n)) \<noteq> ''+''"
proof -
  have "\<not> is_whitespace c \<and> c \<noteq> CHR ''+''" if "c \<in> set (dec n)" for c
  proof -
    from dec_digits [OF that] obtain d where "d < 10" "c = digit d" by blast
    then have "byte_val c = d + 48" by (simp add: digit_val)
    then show ?thesis by (auto simp: is_whitespace_def byte_val_def)
  qed
  then show ?thesis by (cases "dec n") (auto simp: trim_start_def)
qed

lemma set_header_length:
  assumes "atoi_decimal atoi" "n < 2 ^ 64" "st_content_length st = None" "\<not> fl_contains (st_flags st) SF_CHUNKED"
  shows "\<exists>st' m'. set_header atoi D m st H_CONTENT_LENGTH (plain (dec n)) = (Ok (), st', m')"
  using assms by (simp add: set_header_def Let_def dec_visible dec_not_plus [simplified] atoi_decimal_def)

lemma says_chunked: "says ''chunked'' (plain ''chunked'')"
  by (simp add: says_def hv_checks plain_def is_visible_ascii_def byte_val_def trim_def is_whitespace_def)

lemma set_header_chunked:
  assumes "st_content_length st = None" "\<not> fl_contains (st_flags st) SF_SEEN_TE" "st_version st = HTTP_11"
  shows "\<exists>st' m'. set_header atoi D m st H_TRANSFER_ENCODING (plain ''chunked'') = (Ok (), st', m')"
proof -
  have "hv_to_str (plain ''chunked'') = Ok ''chunked''" "eq_ignore_ascii_case (trim ''chunked'') ''chunked''"
    by (simp_all add: hv_checks plain_def is_visible_ascii_def byte_val_def trim_def is_whitespace_def)
  with assms show ?thesis by (simp add: set_header_def Let_def)
qed

text \<open>The framing field comes first, and nothing after it is about the length.\<close>

lemma framing_accepted:
  assumes "atoi_decimal atoi" "sized_ok len"
    and "\<forall>(n, v)\<in>set fs. n \<noteq> H_CONTENT_LENGTH \<and> n \<noteq> H_TRANSFER_ENCODING"
  shows "\<exists>st' m'. set_headers atoi D m (st_default\<lparr>st_version := HTTP_11\<rparr>) (as_headers (framing_fields chunked len @ fs)) =
    (Ok (), st', m')"
proof -
  let ?st = "st_default\<lparr>st_version := HTTP_11\<rparr>"
  have "neutral (as_headers fs)"
    using assms(3) by (auto simp: as_headers_def neutral_def list_all_iff)
  then have rest: "\<exists>st' m'. set_headers atoi D m st (as_headers fs) = (Ok (), st', m')" for m st
    using set_headers_accepted [of "as_headers fs" atoi D m st] by blast
  have st: "st_content_length ?st = None" "\<not> fl_contains (st_flags ?st) SF_CHUNKED"
    "\<not> fl_contains (st_flags ?st) SF_SEEN_TE" "st_version ?st = HTTP_11"
    by (simp_all add: st_default_def flag_simps)
  consider "framing_fields chunked len = []" | n where "n < 2 ^ 64" "framing_fields chunked len = [(H_CONTENT_LENGTH, dec n)]"
    | "framing_fields chunked len = [(H_TRANSFER_ENCODING, ''chunked'')]"
  proof (cases len)
    case SzEmpty
    with that(2) [of 0] zero_dec show ?thesis by (simp add: framing_fields_def)
  next
    case SzStream
    with that(1,3) show ?thesis by (cases chunked) (simp_all add: framing_fields_def)
  qed (use assms(2) that in \<open>auto simp: framing_fields_def sized_ok_def\<close>)
  then show ?thesis
  proof cases
    case 1
    with rest [of m ?st] show ?thesis by simp
  next
    case 2
    from set_header_length [OF assms(1) 2(1) st(1,2), of D m] obtain st1 m1 where
      "set_header atoi D m ?st H_CONTENT_LENGTH (plain (dec n)) = (Ok (), st1, m1)" by blast
    with 2 rest [of m1 st1] show ?thesis by (simp add: as_headers_def)
  next
    case 3
    from set_header_chunked [OF st(1,3,4), of atoi D m] obtain st1 m1 where
      "set_header atoi D m ?st H_TRANSFER_ENCODING (plain ''chunked'') = (Ok (), st1, m1)" by blast
    with 3 rest [of m1 st1] show ?thesis by (simp add: as_headers_def)
  qed
qed

text \<open>What a reader should make of a body size.\<close>

definition announced :: "bool \<Rightarrow> body_size \<Rightarrow> payload_length" where
  "announced upgrade len =
     (case len of
        SzNone \<Rightarrow> if upgrade then PLUpgrade else PLNone
      | SzEmpty \<Rightarrow> PLPayload (PPayload (pd_length 0))
      | SzSized n \<Rightarrow> PLPayload (PPayload (pd_length n))
      | SzStream \<Rightarrow> PLPayload (PPayload pd_chunked))"

lemma named_other: "\<forall>(k, v)\<in>set fs. k \<noteq> n \<Longrightarrow> named n (as_headers fs) = []"
  by (auto simp: as_headers_def filter_empty_conv)

lemma framing_read:
  assumes "atoi_decimal atoi" "sized_ok len" "len = SzStream \<longrightarrow> chunked"
    and "\<forall>(n, v)\<in>set fs. n \<noteq> H_CONTENT_LENGTH \<and> n \<noteq> H_TRANSFER_ENCODING"
    and "\<not> websocket_upgrade (as_headers fs)"
  shows "\<exists>st m'. set_headers atoi D m (st_default\<lparr>st_version := HTTP_11\<rparr>) (as_headers (framing_fields chunked len @ fs)) =
      (Ok (), st, m') \<and> st_payload_length st = announced (named H_UPGRADE (as_headers fs) \<noteq> []) len"
proof -
  let ?hs = "as_headers (framing_fields chunked len @ fs)"
  obtain st m' where r: "set_headers atoi D m (st_default\<lparr>st_version := HTTP_11\<rparr>) ?hs = (Ok (), st, m')"
    using framing_accepted [OF assms(1,2,4), where D = D and m = m and chunked = chunked] by blast
  have none: "named H_CONTENT_LENGTH (as_headers fs) = []" "named H_TRANSFER_ENCODING (as_headers fs) = []"
    using assms(4) by (intro named_other; auto)+
  have up: "named H_UPGRADE (as_headers (framing_fields chunked len)) = []"
    by (cases len) (simp_all add: framing_fields_def as_headers_def)
  with assms(5) have "\<not> websocket_upgrade ?hs" by (simp add: websocket_upgrade_def)
  from history_framing [OF set_headers_history [OF _ r] this]
  have "st_payload_length st =
      (if \<exists>t\<in>set (named H_TRANSFER_ENCODING ?hs). says ''chunked'' t then PLPayload (PPayload pd_chunked)
       else case named H_CONTENT_LENGTH ?hs of
         c # _ \<Rightarrow> PLPayload (PPayload (pd_length (the (atoi (hv_inner c)))))
       | [] \<Rightarrow> if named H_UPGRADE ?hs \<noteq> [] then PLUpgrade else PLNone)"
    by simp
  also have "\<dots> = announced (named H_UPGRADE (as_headers fs) \<noteq> []) len"
  proof (cases len)
    case SzNone
    with none up show ?thesis by (simp add: announced_def framing_fields_def as_headers_def)
  next
    case SzEmpty
    have "atoi ''0'' = Some 0" using assms(1) zero_dec by (simp add: atoi_decimal_def)
    with SzEmpty none show ?thesis
      by (simp add: announced_def framing_fields_def as_headers_def plain_def)
  next
    case (SzSized n)
    with assms(1,2) none show ?thesis
      by (simp add: announced_def framing_fields_def as_headers_def plain_def atoi_decimal_def sized_ok_def)
  next
    case SzStream
    with assms(3) none says_chunked show ?thesis
      by (simp add: announced_def framing_fields_def as_headers_def)
  qed
  finally show ?thesis using r by blast
qed

lemma user_fields_names:
  "(n, v) \<in> set (user_fields skip m) \<Longrightarrow> kept skip n"
proof -
  have "fst f = fst x" if "f \<in> set (value_fields x)" for f :: field and x
    using that by (cases x rule: value_fields.cases) auto
  then show "(n, v) \<in> set (user_fields skip m) \<Longrightarrow> kept skip n"
    by (fastforce simp: user_fields_def)
qed

lemma connection_fields_names: "(n, v) \<in> set (connection_fields version ct) \<Longrightarrow> n = H_CONNECTION"
  by (auto simp: connection_fields_def split: if_splits)

lemma simple_atoi_go_dec:
  "simple_atoi_go acc (dec n @ rest) = simple_atoi_go (10 ^ length (dec n) * acc + n) rest"
proof (induction n arbitrary: acc rest rule: dec.induct)
  case (1 n)
  show ?case
  proof (cases "n < 10")
    case True
    then show ?thesis by (simp add: dec_small digit_val)
  next
    case False
    have "n mod 10 < 10" by simp
    then have "n mod 10 \<le> 9" by linarith
    with False 1 [of acc "digit (n mod 10) # rest"] show ?thesis
      by (simp add: dec.simps [of n] digit_val algebra_simps)
  qed
qed

lemma dec_not_Nil [simp]: "dec n \<noteq> []"
  by (simp add: dec.simps)

lemma simple_atoi_decimal: "atoi_decimal simple_atoi"
  using simple_atoi_go_dec [of 0 _ "[]"] by (simp add: atoi_decimal_def simple_atoi_def)

text \<open>The head an encoder writes, read back.\<close>

lemma head_framing_read:
  assumes "length junk = 41" "sized_ok len" "date_wf ds" "length httpdate = 29" "atoi_decimal atoi"
    and "status_length (et_status T msg) len = (skip, len')" "skips_length (et_chunked T msg) (skip, len')"
    and "\<not> websocket_upgrade (as_headers (user_fields True (merged (et_headers T msg) extra)))"
  shows "\<exists>date ds' st m' upgrade.
    encode_headers T msg junk httpdate ds dst version len ctype extra =
      Some (dst @ CRLF @ render (head_fields T msg date version len ctype extra) @ CRLF, ds') \<and>
    set_headers atoi D m (st_default\<lparr>st_version := HTTP_11\<rparr>) (as_headers (head_fields T msg date version len ctype extra)) = (Ok (), st, m') \<and>
    st_payload_length st = announced upgrade len' \<and>
    (upgrade \<longleftrightarrow> named H_UPGRADE (as_headers (user_fields True (merged (et_headers T msg) extra))) \<noteq> [])"
proof -
  obtain date ds' where e: "encode_headers T msg junk httpdate ds dst version len ctype extra =
      Some (dst @ CRLF @ render (head_fields T msg date version len ctype extra) @ CRLF, ds')"
    using encode_headers_render [OF assms(1-4), where T = T and msg = msg and dst = dst and version = version and
        ctype = ctype and extra = extra] by blast
  let ?m = "merged (et_headers T msg) extra"
  let ?u = "user_fields True ?m"
  define rest where "rest = connection_fields version ctype @ ?u @ (if \<exists>(n, _)\<in>set ?m. n = H_DATE then [] else [(H_DATE, date)])"
  have f: "head_fields T msg date version len ctype extra = framing_fields (et_chunked T msg) len' @ rest"
    using assms(6,7) by (simp add: head_fields_def rest_def)
  have "\<forall>(n, v)\<in>set rest. n \<noteq> H_CONTENT_LENGTH \<and> n \<noteq> H_TRANSFER_ENCODING"
    by (auto simp: rest_def kept_def dest: connection_fields_names user_fields_names split: if_splits)
  moreover have "named H_UPGRADE (as_headers (connection_fields version ctype)) = []"
    by (rule named_other) (auto dest: connection_fields_names)
  then have up: "named H_UPGRADE (as_headers rest) = named H_UPGRADE (as_headers ?u)"
    by (simp add: rest_def as_headers_def H_DATE_def header_name_defs)
  moreover from up assms(8) have "\<not> websocket_upgrade (as_headers rest)" by (simp add: websocket_upgrade_def)
  moreover have "sized_ok len'" using status_length_sized [OF assms(2), of "et_status T msg"] assms(6) by simp
  moreover have "len' = SzStream \<longrightarrow> et_chunked T msg" using assms(7) by (simp add: skips_length_def)
  ultimately obtain st m' where
    "set_headers atoi D m (st_default\<lparr>st_version := HTTP_11\<rparr>) (as_headers (framing_fields (et_chunked T msg) len' @ rest)) = (Ok (), st, m')"
    "st_payload_length st = announced (named H_UPGRADE (as_headers ?u) \<noteq> []) len'"
    using framing_read [OF assms(5), of len' "et_chunked T msg" rest D m] by auto
  with e f show ?thesis by metis
qed

text \<open>
  A reader that expects the framing \<open>pl\<close> finds the end of a body where an encoder with the encoding \<open>te\<close> puts it, and takes the
  bytes of the application from it; if it expects no body, the encoder writes none.
\<close>

definition body_agrees :: "chunk_size_fun \<Rightarrow> payload_length \<Rightarrow> transfer_encoding \<Rightarrow> bool" where
  "body_agrees pcs pl te \<longleftrightarrow>
     (\<forall>cs bs te1 wire te2 wire'.
        [] \<notin> set cs \<and> (\<forall>c\<in>set cs. length c < 2 ^ 64) \<and> te_encode_all te cs [] = (Ok bs, te1, wire) \<and>
        te_encode_eof te1 wire = (Ok (), te2, wire') \<longrightarrow>
        (case pl of
           PLPayload (PPayload pd) \<Rightarrow>
             (\<forall>rest. \<exists>pd'. drain pcs pd (wire' @ rest) =
                Some (case te_kind te of TLength n \<Rightarrow> take n (concat cs) | _ \<Rightarrow> concat cs, AtEof, pd', rest))
         | _ \<Rightarrow> wire' = []))"

lemma body_agrees_length: "body_agrees pcs (PLPayload (PPayload (pd_length n))) (te_length n)"
proof -
  have "drain pcs (pd_length n) (take n (concat cs) @ rest) =
      Some (take n (concat cs), AtEof, \<lparr>pd_kind = KLength (n - length (take n (concat cs) @ rest))\<rparr>, rest)"
    if "n \<le> length (concat cs)" for cs rest
    using that by (simp add: pd_length_def drain_length min_absorb2)
  moreover have "te1 = te_length (n - length (concat cs)) \<and> wire = take n (concat cs)"
    if "te_encode_all (te_length n) cs [] = (Ok bs, te1, wire)" for cs bs te1 wire
    using te_encode_all_length [of n cs "[]"] that by auto
  ultimately show ?thesis
    by (fastforce simp: body_agrees_def te_encode_eof_def te_length_def split: if_splits)
qed

lemma body_agrees_chunked:
  assumes "chunk_size_hex pcs"
  shows "body_agrees pcs (PLPayload (PPayload pd_chunked)) te_chunked"
  unfolding body_agrees_def
proof (intro allI impI, elim conjE)
  fix cs bs te1 wire te2 wire'
  assume cs: "[] \<notin> set cs" "\<forall>c\<in>set cs. length c < 2 ^ 64" and "te_encode_all te_chunked cs [] = (Ok bs, te1, wire)"
    and "te_encode_eof te1 wire = (Ok (), te2, wire')"
  then have "wire' = concat (map chunk_wire cs) @ ''0'' @ CRLF @ CRLF"
    using te_encode_all_chunked [OF cs(1), of "[]"] by (auto simp: te_encode_eof_def te_chunked_def)
  then show "case PLPayload (PPayload pd_chunked) of
      PLPayload (PPayload pd) \<Rightarrow> \<forall>rest. \<exists>pd'. drain pcs pd (wire' @ rest) =
        Some (case te_kind te_chunked of TLength n \<Rightarrow> take n (concat cs) | _ \<Rightarrow> concat cs, AtEof, pd', rest)
    | _ \<Rightarrow> wire' = []"
    using chunked_run_wire [OF assms cs, of 0] by (simp add: pd_chunked_def drain_chunked te_chunked_def)
qed

lemma body_agrees_none: "\<forall>pd. pl \<noteq> PLPayload (PPayload pd) \<Longrightarrow> body_agrees pcs pl te_empty"
proof -
  assume "\<forall>pd. pl \<noteq> PLPayload (PPayload pd)"
  moreover have "wire = [] \<and> te1 = te_empty" if "te_encode_all te_empty cs [] = (Ok bs, te1, wire)" for cs bs te1 wire
    using te_encode_all_length [of 0 cs "[]"] that by (auto simp: te_length_def te_empty_def)
  ultimately show ?thesis
    by (fastforce simp: body_agrees_def te_encode_eof_def te_empty_def split: payload_length.split payload_type.split)
qed

lemma body_agrees_announced:
  assumes "chunk_size_hex pcs" "len = SzStream \<longrightarrow> chunked"
  shows "body_agrees pcs (announced upgrade len) (me_transfer chunked False False len)"
proof (cases len)
  case SzNone
  then show ?thesis using body_agrees_none by (simp add: announced_def me_transfer_def)
next
  case SzEmpty
  then show ?thesis using body_agrees_length [of pcs 0] by (simp add: announced_def me_transfer_def te_empty_def te_length_def)
next
  case (SzSized n)
  then show ?thesis using body_agrees_length by (simp add: announced_def me_transfer_def)
next
  case SzStream
  then show ?thesis using body_agrees_chunked [OF assms(1)] assms(2) by (simp add: announced_def me_transfer_def)
qed

section \<open>Properties\<close>

text \<open>
  Content lengths are written as decimal numbers: for every 64-bit number the table-driven
  routine, which writes pairs of digits backwards into an uninitialised buffer, stays inside the
  buffer and the digit table and writes exactly the decimal digits, whatever the buffer held.
\<close>

lemma content_length_decimal:
  assumes "n < 2 ^ 64" "length junk = 41"
  shows "write_content_length junk n dst = Some (dst @ CRLF @ ''content-length: '' @ dec n @ CRLF) \<and>
    convert_usize junk n dst eol = Some (dst @ dec n @ (if eol then CRLF else []))"
  using write_content_length_dec [OF assms] convert_usize_dec [OF assms] by blast

text \<open>
  C35: A streamed body survives the chunked encoding: the chunks a body yields until it ends, each
  encoded, followed by the end marker, and read by the payload decoder in whatever fragments, give
  exactly the data of the body, the end of the message, and leave what follows in the buffer. The
  reader's chunk size parser is a parameter that reads upper-case hexadecimal size lines.
\<close>

theorem chunked_body_roundtrip:
  assumes "chunk_size_contract pcs" "chunk_size_hex pcs"
    and "rb_pages_full b" "collect b = (cs, None)" "\<forall>c\<in>set cs. length c < 2 ^ 64"
    and "te_encode_all te_chunked cs [] = (r, te, wire)" "te_encode_eof te wire = (r', te', wire')"
    and "concat (f # fs) = wire' @ rest"
  shows "r' = Ok () \<and>
    feed (drain pcs) pd_chunked [] (f # fs) = Some (fst (rb_data b), AtEof, \<lparr>pd_kind = KChunked CS_End 0\<rparr>, rest)"
proof -
  have cs: "[] \<notin> set cs" "concat cs = fst (rb_data b)"
    using rb_collected [of b] assms(3,4) by auto
  have w: "te = te_chunked" "wire = concat (map chunk_wire cs)"
    using assms(6) te_encode_all_chunked [OF cs(1), of "[]"] by simp_all
  then have w': "r' = Ok ()" "wire' = concat (map chunk_wire cs) @ ''0'' @ CRLF @ CRLF"
    using assms(7) by (simp_all add: te_encode_eof_def te_chunked_def)
  have "feed (drain pcs) pd_chunked [] (f # fs) = drain pcs pd_chunked (wire' @ rest)"
    using payload.feed_eq_run [OF assms(1), of pd_chunked "[]" f fs] assms(8) by simp
  also have "\<dots> = Some (concat cs, AtEof, \<lparr>pd_kind = KChunked CS_End 0\<rparr>, rest)"
    using chunked_run_wire [OF assms(2) cs(1) assms(5), of 0 rest] w'
    by (simp add: pd_chunked_def drain_chunked)
  finally show ?thesis using w' cs by simp
qed

theorem chunked_body_roundtrip_witness:
  "feed (drain simple_chunk_size) pd_chunked [] [''3'' @ CRLF @ ''a'', ''bc'' @ CRLF @ ''0'' @ CRLF, CRLF @ ''GET''] =
     Some (''abc'', AtEof, \<lparr>pd_kind = KChunked CS_End 0\<rparr>, ''GET'')"
proof -
  let ?b = "RBBody (MBStream [SItem (Ok []), SItem (Ok ''abc''), SPending])"
  have "hex_upper 3 = ''3''" by (simp add: hex_upper.simps hex_digit_def char_of_def bit_0 bit_Suc)
  then have "te_encode_all te_chunked [''abc''] [] = (Ok [False], te_chunked, ''3'' @ CRLF @ ''abc'' @ CRLF)"
    by (simp add: te_encode_def te_chunked_def numeral_3_eq_3)
  moreover have "collect ?b = ([''abc''], None)"
    by (simp add: collect.simps)
  ultimately show ?thesis
    using chunked_body_roundtrip [OF simple_chunk_size_contract simple_chunk_size_hex, of ?b "[''abc'']" "Ok [False]" te_chunked
        "''3'' @ CRLF @ ''abc'' @ CRLF" "Ok ()" "\<lparr>te_kind = TChunked True\<rparr>"
        "''3'' @ CRLF @ ''abc'' @ CRLF @ ''0'' @ CRLF @ CRLF" "''3'' @ CRLF @ ''a''"
        "[''bc'' @ CRLF @ ''0'' @ CRLF, CRLF @ ''GET'']" "''GET''"]
    by (simp add: te_encode_eof_def te_chunked_def del: feed.simps)
qed

text \<open>
  C36: A body sent with a content length never exceeds it: whatever chunks are written, exactly the
  first \<open>n\<close> bytes reach the wire, and ending the body is refused exactly when it was too short.
\<close>

theorem sized_body_exact:
  "\<exists>bs te. te_encode_all (te_length n) cs buf = (Ok bs, te, buf @ take n (concat cs)) \<and>
     te_encode_eof te out = (if length (concat cs) < n then Err UnexpectedEof else Ok (), te, out)"
proof -
  from te_encode_all_length [of n cs buf] obtain bs where
    "te_encode_all (te_length n) cs buf = (Ok bs, te_length (n - length (concat cs)), buf @ take n (concat cs))"
    by blast
  then show ?thesis by (auto simp: te_encode_eof_def te_length_def)
qed



text \<open>
  C38: For a response of status 204 with a body the two halves of the encoder disagree: the head has
  no length header of any kind, so that its reader expects no body, yet the encoder is set to pass
  the body on, and its bytes follow the head on the wire.
\<close>

theorem no_content_body_sent:
  assumes "length junk = 41" "date_wf ds" "length httpdate = 29" "rs_status h = 204" "n < 2 ^ 64"
  shows "\<exists>me' status fields ds'.
    me_encode me (enc_response reason) h junk httpdate ds [] False stream v (SzSized n) ctype None =
      Some (me', status @ CRLF @ render fields @ CRLF, ds') \<and>
    (\<forall>(k, _)\<in>set fields. k \<noteq> H_CONTENT_LENGTH \<and> k \<noteq> H_TRANSFER_ENCODING) \<and>
    (\<forall>data buf. snd (snd (me_encode_chunk me' data buf)) = buf @ take n data)"
proof -
  let ?T = "enc_response reason"
  define status where "status = version_text (rs_version h) @ '' '' @ dec 204 @ '' '' @ rs_reason_str reason h"
  have st: "et_encode_status ?T h [] = Some status"
    using write_status_line_dec [of 204 "rs_version h" "[]"] assms(4)
    by (simp add: enc_response_def rs_encode_status_def status_def)
  obtain date ds' where e: "encode_headers ?T h junk httpdate ds status v (SzSized n) ctype None =
      Some (status @ CRLF @ render (head_fields ?T h date v (SzSized n) ctype None) @ CRLF, ds')"
    using encode_headers_render [OF assms(1) _ assms(2,3), where T = ?T and msg = h and dst = status and version = v and
        ctype = ctype and extra = None and len = "SzSized n"] assms(5) by (auto simp: sized_ok_def)
  have "status_length (et_status ?T h) (SzSized n) = (True, SzNone)"
    using assms(4) by (simp add: enc_response_def status_length_def)
  then have "\<forall>(k, _)\<in>set (head_fields ?T h date v (SzSized n) ctype None). k \<noteq> H_CONTENT_LENGTH \<and> k \<noteq> H_TRANSFER_ENCODING"
    by (auto simp: head_fields_def framing_fields_def skips_length_def kept_def Let_def
        dest: connection_fields_names user_fields_names split: if_splits)
  moreover define me' where "me' = me\<lparr>me_te := te_length n\<rparr>"
  have "me_encode me ?T h junk httpdate ds [] False stream v (SzSized n) ctype None =
      Some (me', status @ CRLF @ render (head_fields ?T h date v (SzSized n) ctype None) @ CRLF, ds')"
    using st e by (simp add: me_encode_def me_transfer_def me'_def)
  moreover have "snd (snd (me_encode_chunk me' data buf)) = buf @ take n data" for data buf
    by (simp add: me_encode_chunk_def me'_def te_encode_def te_length_def Let_def min_def)
  ultimately show ?thesis by blast
qed

theorem no_content_body_sent_witness:
  "\<exists>me' status fields ds'.
    me_encode me_default (enc_response (\<lambda>_. None)) (rs_new 204 HTTP_11) (replicate 41 CHR ''?'') sample_date date_new []
      False False HTTP_11 (SzSized 5) KeepAlive None = Some (me', status @ CRLF @ render fields @ CRLF, ds') \<and>
    snd (snd (me_encode_chunk me' ''hello'' [])) = ''hello''"
proof -
  have "length sample_date = 29" by (simp add: sample_date_def)
  then obtain me' status fields ds' where
    "me_encode me_default (enc_response (\<lambda>_. None)) (rs_new 204 HTTP_11) (replicate 41 CHR ''?'') sample_date date_new []
      False False HTTP_11 (SzSized 5) KeepAlive None = Some (me', status @ CRLF @ render fields @ CRLF, ds')"
    "snd (snd (me_encode_chunk me' ''hello'' [])) = [] @ take 5 ''hello''"
    using no_content_body_sent [of "replicate 41 CHR ''?''" date_new sample_date "rs_new 204 HTTP_11" 5 me_default
        "\<lambda>_. None" False HTTP_11 KeepAlive] date_new_wf
    by (auto simp: rs_new_def)
  then show ?thesis by auto
qed

end
