(* ===== verification/H1_Codec.thy ===== *)
theory H1_Codec
  imports H1_Decoder H1_Roundtrip
begin

text \<open>
  The HTTP/1 server codec (\<^verbatim>\<open>geario-http/src/h1/codec.rs\<close>, \<^verbatim>\<open>Message\<close> of \<^verbatim>\<open>h1/mod.rs\<close>): it ties the decoder
  of requests to the encoder of responses through the version, the connection type and the flags of
  the last request. \<open>None\<close> is a panic of the decoder or of the cached date.
\<close>

section \<open>Definitions\<close>

abbreviation HF_HEAD :: u8 where "HF_HEAD \<equiv> 0x01"
abbreviation HF_STREAM :: u8 where "HF_STREAM \<equiv> 0x02"
abbreviation HF_KEEPALIVE_ENABLED :: u8 where "HF_KEEPALIVE_ENABLED \<equiv> 0x04"

datatype 'a h1_message = MItem 'a | MChunk "bytes option"

record 's h1_codec =
  hc_con_id :: nat
  hc_decoder :: "(request_head, 's) message_decoder"
  hc_version :: version
  hc_ctype :: connection_type
  hc_cfg :: http_service_config
  hc_flags :: u8
  hc_encoder :: message_encoder

definition hc_new :: "'s parse_env \<Rightarrow> nat \<Rightarrow> http_service_config \<Rightarrow> 's h1_codec" where
  "hc_new env con_id cfg =
     \<lparr>hc_con_id = con_id, hc_decoder = md_new env cfg, hc_version = HTTP_11, hc_ctype = KeepAlive, hc_cfg = cfg,
      hc_flags = (if cfg_ka_enabled cfg then HF_KEEPALIVE_ENABLED else 0), hc_encoder = me_default\<rparr>"

definition hc_clone :: "'s parse_env \<Rightarrow> 's h1_codec \<Rightarrow> 's h1_codec option" where
  "hc_clone env c = map_option (\<lambda>(d, _). c\<lparr>hc_decoder := d\<rparr>) (md_clone env (hc_decoder c))"

definition hc_is_reading_hdrs :: "'s h1_codec \<Rightarrow> bool" where
  "hc_is_reading_hdrs c = md_hdrs (hc_decoder c)"

definition hc_upgrade :: "'s h1_codec \<Rightarrow> bool" where
  "hc_upgrade c = (hc_ctype c = Upgrade)"

definition hc_keepalive :: "'s h1_codec \<Rightarrow> bool" where
  "hc_keepalive c = (hc_ctype c = KeepAlive)"

definition hc_insert_flags :: "'s h1_codec \<Rightarrow> u8 \<Rightarrow> 's h1_codec" where
  "hc_insert_flags c f = c\<lparr>hc_flags := fl_insert (hc_flags c) f\<rparr>"

definition hc_reset_upgrade :: "'s h1_codec \<Rightarrow> 's h1_codec" where
  "hc_reset_upgrade c = c\<lparr>hc_flags := fl_remove (hc_flags c) HF_STREAM, hc_ctype := Close\<rparr>"

text \<open>What \<^verbatim>\<open>decode\<close> does with a complete request; \<open>pool\<close> is the pool heads are taken from.\<close>

definition hc_request :: "'s h1_codec \<Rightarrow> request_head \<Rightarrow> payload_type \<Rightarrow> request_head \<times> 's h1_codec" where
  "hc_request c req payload =
     (let head = req\<lparr>rq_id := hc_con_id c\<rparr>;
          flags = fl_set (hc_flags c) HF_HEAD (rq_method head = ''HEAD'');
          ctype = rq_connection_type head;
          c = c\<lparr>hc_flags := flags, hc_version := rq_version head,
            hc_ctype := (if ctype = KeepAlive \<and> \<not> fl_contains flags HF_KEEPALIVE_ENABLED then Close else ctype)\<rparr>;
          c = (case payload of PStream _ \<Rightarrow> hc_insert_flags c HF_STREAM | _ \<Rightarrow> c)
      in (head, c))"

definition hc_decode ::
  "'s parse_env \<Rightarrow> request_head list \<Rightarrow> 's h1_codec \<Rightarrow> bytes \<Rightarrow>
   ((decode_error + (request_head \<times> payload_type) option) \<times> 's h1_codec \<times> bytes) option" where
  "hc_decode env pool c src =
     (case md_decode env (request_reader env pool) (hc_decoder c) src of
        None \<Rightarrow> None
      | Some (Err e, d, src') \<Rightarrow> Some (Err e, c\<lparr>hc_decoder := d\<rparr>, src')
      | Some (Ok None, d, src') \<Rightarrow> Some (Ok None, c\<lparr>hc_decoder := d\<rparr>, src')
      | Some (Ok (Some (req, payload)), d, src') \<Rightarrow>
          (let (head, c') = hc_request (c\<lparr>hc_decoder := d\<rparr>) req payload
           in Some (Ok (Some (head, payload)), c', src')))"

text \<open>
  The surroundings of the encoder: canonical reasons, the contents of uninitialised memory, the clock
  and the cached date.
\<close>

record enc_env =
  ee_reason :: "status_code \<Rightarrow> string option"
  ee_junk :: bytes
  ee_httpdate :: string

definition hc_encode_item ::
  "enc_env \<Rightarrow> date_service \<Rightarrow> 's h1_codec \<Rightarrow> response_head \<Rightarrow> body_size \<Rightarrow> bytes \<Rightarrow> ('s h1_codec \<times> bytes \<times> date_service) option" where
  "hc_encode_item ee ds c res len dst =
     (let res = res\<lparr>rs_version := hc_version c\<rparr>;
          c = (case rs_ctype res of
                 Some ct \<Rightarrow> if ct \<noteq> KeepAlive then c\<lparr>hc_ctype := ct\<rparr> else c
               | None \<Rightarrow> c)
      in map_option (\<lambda>(me, dst, ds). (c\<lparr>hc_encoder := me\<rparr>, dst, ds))
           (me_encode (hc_encoder c) (enc_response (ee_reason ee)) res (ee_junk ee) (ee_httpdate ee) ds dst
              (fl_contains (hc_flags c) HF_HEAD) (fl_contains (hc_flags c) HF_STREAM) (hc_version c) len (hc_ctype c) None))"

definition hc_encodev ::
  "enc_env \<Rightarrow> date_service \<Rightarrow> 's h1_codec \<Rightarrow> (response_head \<times> body_size) h1_message \<Rightarrow> bytes \<Rightarrow>
   ((encode_error + unit) \<times> 's h1_codec \<times> bytes \<times> date_service) option" where
  "hc_encodev ee ds c item dst =
     (case item of
        MItem (res, len) \<Rightarrow> map_option (Pair (Ok ())) (hc_encode_item ee ds c res len dst)
      | MChunk (Some bytes) \<Rightarrow>
          (case me_encode_chunk (hc_encoder c) bytes dst of
             (Err e, me, dst') \<Rightarrow> Some (Err e, c\<lparr>hc_encoder := me\<rparr>, dst', ds)
           | (Ok _, me, dst') \<Rightarrow> Some (Ok (), c\<lparr>hc_encoder := me\<rparr>, dst', ds))
      | MChunk None \<Rightarrow>
          (case me_encode_eof (hc_encoder c) dst of
             (r, me, dst') \<Rightarrow> Some (r, c\<lparr>hc_encoder := me\<rparr>, dst', ds)))"

section \<open>Facts\<close>

lemma hc_request_flags:
  assumes "hc_request c req pl = (head, c')"
  shows "fl_contains (hc_flags c') HF_HEAD = (rq_method head = ''HEAD'')"
    and "fl_contains (hc_flags c') HF_KEEPALIVE_ENABLED = fl_contains (hc_flags c) HF_KEEPALIVE_ENABLED"
    and "hc_keepalive c' \<longleftrightarrow> rq_connection_type head = KeepAlive \<and> fl_contains (hc_flags c) HF_KEEPALIVE_ENABLED"
    and "hc_version c' = rq_version head" "hc_cfg c' = hc_cfg c"
  using assms
  by (auto simp: hc_request_def hc_insert_flags_def hc_keepalive_def Let_def flag_simps
      split: payload_type.splits if_splits)

lemma hc_decode_Ok:
  assumes "hc_decode env pool c src = Some (Ok (Some (head, pl)), c', src')"
  shows "\<exists>d req. md_decode env (request_reader env pool) (hc_decoder c) src = Some (Ok (Some (req, pl)), d, src') \<and>
    hc_request (c\<lparr>hc_decoder := d\<rparr>) req pl = (head, c')"
  using assms by (fastforce simp: hc_decode_def split: option.splits sum.splits prod.splits)

lemma hc_encode_item_Some:
  assumes "hc_encode_item ee ds c res len dst = Some (c', out, ds')"
  shows "me_te (hc_encoder c') =
      me_transfer (rs_chunked res) (fl_contains (hc_flags c) HF_HEAD) (fl_contains (hc_flags c) HF_STREAM) len"
    and "hc_flags c' = hc_flags c" "hc_version c' = hc_version c" "hc_cfg c' = hc_cfg c" "hc_decoder c' = hc_decoder c"
    and "hc_ctype c' = (case rs_ctype res of Some ct \<Rightarrow> if ct \<noteq> KeepAlive then ct else hc_ctype c | None \<Rightarrow> hc_ctype c)"
proof -
  have [simp]: "rs_ctype (res\<lparr>rs_version := v\<rparr>) = rs_ctype res" "rs_chunked (res\<lparr>rs_version := v\<rparr>) = rs_chunked res" for v
    by (simp_all add: rs_ctype_def rs_chunked_def)
  show "me_te (hc_encoder c') =
      me_transfer (rs_chunked res) (fl_contains (hc_flags c) HF_HEAD) (fl_contains (hc_flags c) HF_STREAM) len"
    "hc_flags c' = hc_flags c" "hc_version c' = hc_version c" "hc_cfg c' = hc_cfg c" "hc_decoder c' = hc_decoder c"
    "hc_ctype c' = (case rs_ctype res of Some ct \<Rightarrow> if ct \<noteq> KeepAlive then ct else hc_ctype c | None \<Rightarrow> hc_ctype c)"
    using assms
    by (auto simp: hc_encode_item_def me_encode_def Let_def enc_response_def split: option.splits if_splits)
qed

text \<open>Encoding a response head cannot panic when the status is one and the clock tells a date.\<close>

definition enc_env_ok :: "enc_env \<Rightarrow> bool" where
  "enc_env_ok ee \<longleftrightarrow> length (ee_junk ee) = 41 \<and> length (ee_httpdate ee) = 29"

lemma hc_encode_item_total:
  assumes "enc_env_ok ee" "date_wf ds" "sized_ok len" "100 \<le> rs_status res" "rs_status res < 1000"
  shows "\<exists>c' out ds'. hc_encode_item ee ds c res len dst = Some (c', dst @ out, ds') \<and> date_wf ds'"
proof -
  define c1 where "c1 = (case rs_ctype (res\<lparr>rs_version := hc_version c\<rparr>) of
      Some ct \<Rightarrow> if ct \<noteq> KeepAlive then c\<lparr>hc_ctype := ct\<rparr> else c | None \<Rightarrow> c)"
  let ?T = "enc_response (ee_reason ee)" and ?res = "res\<lparr>rs_version := hc_version c\<rparr>"
  obtain st where st: "et_encode_status ?T ?res dst = Some (dst @ st)"
    using write_status_line_dec [OF assms(4,5)] by (auto simp: enc_response_def rs_encode_status_def)
  from encode_headers_render [of "ee_junk ee" len ds "ee_httpdate ee", where T = ?T and msg = ?res and dst = "dst @ st" and
      version = "hc_version c1" and ctype = "hc_ctype c1" and extra = None] assms
  obtain date ds' where "date_wf ds'" "encode_headers ?T ?res (ee_junk ee) (ee_httpdate ee) ds (dst @ st) (hc_version c1) len (hc_ctype c1) None =
      Some ((dst @ st) @ CRLF @ render (head_fields ?T ?res date (hc_version c1) len (hc_ctype c1) None) @ CRLF, ds')"
    by (auto simp: enc_env_ok_def)
  with st show ?thesis
    by (simp add: hc_encode_item_def me_encode_def Let_def flip: c1_def)
qed

text \<open>The head that is written, and what its connection headers say to a reader of the version.\<close>

lemma hc_encode_item_render:
  assumes "hc_encode_item ee ds c res len dst = Some (c', out, ds')"
    and "enc_env_ok ee" "date_wf ds" "sized_ok len" "100 \<le> rs_status res" "rs_status res < 1000"
  shows "\<exists>date. let h = res\<lparr>rs_version := hc_version c\<rparr> in
    out = dst @ (version_text (hc_version c) @ '' '' @ dec (rs_status res) @ '' '' @ rs_reason_str (ee_reason ee) h) @ CRLF @
      render (head_fields (enc_response (ee_reason ee)) h date (hc_version c) len (hc_ctype c') None) @ CRLF"
proof -
  let ?T = "enc_response (ee_reason ee)" and ?res = "res\<lparr>rs_version := hc_version c\<rparr>"
  let ?st = "version_text (hc_version c) @ '' '' @ dec (rs_status res) @ '' '' @ rs_reason_str (ee_reason ee) ?res"
  have st: "et_encode_status ?T ?res dst = Some (dst @ ?st)"
    using write_status_line_dec [OF assms(5,6)] by (simp add: enc_response_def rs_encode_status_def)
  from encode_headers_render [of "ee_junk ee" len ds "ee_httpdate ee", where T = ?T and msg = ?res and dst = "dst @ ?st" and
      version = "hc_version c" and ctype = "hc_ctype c'" and extra = None] assms(2-4)
  obtain date ds1 where "encode_headers ?T ?res (ee_junk ee) (ee_httpdate ee) ds (dst @ ?st) (hc_version c) len (hc_ctype c') None =
      Some ((dst @ ?st) @ CRLF @ render (head_fields ?T ?res date (hc_version c) len (hc_ctype c') None) @ CRLF, ds1)"
    by (auto simp: enc_env_ok_def)
  with assms(1) st hc_encode_item_Some(6) [OF assms(1)] show ?thesis
    by (auto simp: hc_encode_item_def me_encode_def Let_def rs_ctype_def split: option.splits if_splits intro!: exI [of _ date])
qed

definition persistent :: "version \<Rightarrow> header_value list \<Rightarrow> bool" where
  "persistent v conns \<longleftrightarrow>
     (if v < HTTP_11 then \<exists>c\<in>set conns. says ''keep-alive'' c else \<forall>c\<in>set conns. \<not> says ''close'' c \<and> \<not> says ''upgrade'' c)"

lemma persistent_fields:
  "persistent v (named H_CONNECTION (as_headers (head_fields T msg date v len ct extra))) \<longleftrightarrow> ct = KeepAlive"
proof -
  have "named H_CONNECTION (as_headers (user_fields skip m)) = []" for skip m
    by (rule named_other) (auto dest: user_fields_names simp: kept_def)
  moreover have "named H_CONNECTION (as_headers (framing_fields chunked l)) = []" for chunked l
    by (cases l) (simp_all add: framing_fields_def as_headers_def)
  ultimately have "named H_CONNECTION (as_headers (head_fields T msg date v len ct extra)) = named H_CONNECTION (as_headers (connection_fields v ct))"
    by (simp add: head_fields_def Let_def as_headers_def split: prod.split)
  moreover have "says ''keep-alive'' (plain ''keep-alive'')" "says ''close'' (plain ''close'')" "says ''upgrade'' (plain ''upgrade'')"
    "\<not> says ''keep-alive'' (plain ''upgrade'')"
    by (simp_all add: says_def hv_checks plain_def is_visible_ascii_def byte_val_def trim_def is_whitespace_def eq_ignore_ascii_case_def
      to_ascii_lowercase_def)
  ultimately show ?thesis
    by (cases ct) (auto simp: persistent_def connection_fields_def as_headers_def)
qed

section \<open>Properties\<close>

text \<open>
  C39: Whether a connection stays open is settled by both sides, and the response says so. After a request and its response the
  codec keeps the connection alive exactly if keep-alive is configured, the request asked for it (by
  header or version) and the response did not ask to close or upgrade; nothing a response says can
  revive a connection the request closed. The head that is written consists of the status line with the version of the request and the fields of the
  response, and its \<^verbatim>\<open>Connection\<close> headers, whatever the application set, tell a reader of that version to keep the connection exactly in this
  case. The second part is for a status of three digits and a size of 64 bits.
\<close>

theorem keepalive_agreed:
  assumes "hc_decode env pool c src = Some (Ok (Some (req, pl)), c1, src')"
    and "hc_encodev ee ds c1 (MItem (res, len)) dst = Some (Ok (), c2, out, ds')"
  shows "(hc_keepalive c2 \<longleftrightarrow>
      fl_contains (hc_flags c) HF_KEEPALIVE_ENABLED \<and> rq_connection_type req = KeepAlive \<and>
      rs_ctype res \<in> {None, Some KeepAlive}) \<and>
    (enc_env_ok ee \<and> date_wf ds \<and> sized_ok len \<and> 100 \<le> rs_status res \<and> rs_status res < 1000 \<longrightarrow>
      (\<exists>date. let h = res\<lparr>rs_version := rq_version req\<rparr>;
                fields = head_fields (enc_response (ee_reason ee)) h date (rq_version req) len (hc_ctype c2) None
            in out = dst @ (version_text (rq_version req) @ '' '' @ dec (rs_status res) @ '' '' @ rs_reason_str (ee_reason ee) h) @ CRLF @
                 render fields @ CRLF \<and>
               (hc_keepalive c2 \<longleftrightarrow> persistent (rq_version req) (named H_CONNECTION (as_headers fields)))))"
proof -
  from hc_decode_Ok [OF assms(1)] obtain d r where "hc_request (c\<lparr>hc_decoder := d\<rparr>) r pl = (req, c1)" by blast
  note rq = hc_request_flags(3,4) [OF this]
  have item: "hc_encode_item ee ds c1 res len dst = Some (c2, out, ds')"
    using assms(2) by (auto simp: hc_encodev_def)
  have "hc_keepalive c2 \<longleftrightarrow> fl_contains (hc_flags c) HF_KEEPALIVE_ENABLED \<and> rq_connection_type req = KeepAlive \<and>
      rs_ctype res \<in> {None, Some KeepAlive}"
    using rq(1) hc_encode_item_Some(6) [OF item] by (auto simp: hc_keepalive_def split: option.splits)
  moreover have "hc_keepalive c2 \<longleftrightarrow> persistent v (named H_CONNECTION (as_headers (head_fields T msg date v len (hc_ctype c2) extra)))"
    for v date extra and T :: "response_head enc_type" and msg
    by (simp add: hc_keepalive_def persistent_fields)
  ultimately show ?thesis
    using hc_encode_item_render [OF item] rq(2) by (simp add: Let_def)
qed

text \<open>A request and the surroundings of an encoder, as instances.\<close>

definition sample_ee :: enc_env where
  "sample_ee = \<lparr>ee_reason = (\<lambda>_. None), ee_junk = replicate 41 CHR ''?'', ee_httpdate = sample_date\<rparr>"

definition head_env :: "unit parse_env" where
  "head_env = tiny_env\<lparr>pe_method := (\<lambda>_. Some ''HEAD'')\<rparr>"

lemma sample_ee_ok: "enc_env_ok sample_ee"
  by (simp add: enc_env_ok_def sample_ee_def sample_date_def)

lemma head_decode:
  "\<exists>req c1. hc_decode head_env [] (hc_new head_env 7 small_cfg) ''RE'' = Some (Ok (Some (req, PNone)), c1, []) \<and>
    rq_method req = ''HEAD'' \<and> rq_connection_type req = KeepAlive"
  by (simp add: hc_decode_def hc_new_def hc_request_def md_decode_def md_new_def in_new_def md_decode_rest_def
      decode_headers.simps head_env_def tiny_env_def request_type_def rq_decode_def Let_def small_cfg_def
      rq_default_def hm_new_def st_default_def st_payload_length_def rq_set_payload_length_def pl_is_none_def
      pl_is_zero_def flag_simps rq_connection_type_def less_version_def)

lemma sample_response:
  "\<exists>c2 out ds'. hc_encodev sample_ee date_new c1 (MItem (rs_new 200 HTTP_11, SzSized 3)) [] = Some (Ok (), c2, out, ds')"
  using hc_encode_item_total [OF sample_ee_ok date_new_wf, of "SzSized 3" "rs_new 200 HTTP_11" c1 "[]"]
  by (auto simp: hc_encodev_def sized_ok_def rs_new_def)

theorem keepalive_agreed_witness:
  "\<exists>req c1 c2 out ds'. hc_decode head_env [] (hc_new head_env 7 small_cfg) ''RE'' = Some (Ok (Some (req, PNone)), c1, []) \<and>
    hc_encodev sample_ee date_new c1 (MItem (rs_new 200 HTTP_11, SzSized 3)) [] = Some (Ok (), c2, out, ds') \<and>
    hc_keepalive c2 \<and>
    (\<exists>status fields. out = status @ CRLF @ render fields @ CRLF \<and> persistent (rq_version req) (named H_CONNECTION (as_headers fields)))"
proof -
  obtain req c1 where r: "hc_decode head_env [] (hc_new head_env 7 small_cfg) ''RE'' = Some (Ok (Some (req, PNone)), c1, [])"
    "rq_connection_type req = KeepAlive"
    using head_decode by blast
  obtain c2 out ds' where e: "hc_encodev sample_ee date_new c1 (MItem (rs_new 200 HTTP_11, SzSized 3)) [] = Some (Ok (), c2, out, ds')"
    using sample_response by blast
  from keepalive_agreed [OF r(1) e] r(2) have k: "hc_keepalive c2"
    by (simp add: hc_new_def small_cfg_def rs_ctype_def rs_new_def fl_contains_def)
  moreover have "enc_env_ok sample_ee \<and> date_wf date_new \<and> sized_ok (SzSized 3) \<and> 100 \<le> rs_status (rs_new 200 HTTP_11) \<and>
      rs_status (rs_new 200 HTTP_11) < 1000"
    by (simp add: sample_ee_ok date_new_wf sized_ok_def rs_new_def)
  from mp [OF keepalive_agreed [OF r(1) e, THEN conjunct2] this] k
  obtain status fields where "out = status @ CRLF @ render fields @ CRLF" "persistent (rq_version req) (named H_CONNECTION (as_headers fields))"
    unfolding Let_def append_Nil by blast
  ultimately show ?thesis using r e by blast
qed

text \<open>
  A response to a \<^verbatim>\<open>HEAD\<close> request has no body: whatever its announced size, no chunk the
  application sends afterwards puts a byte on the wire, and ending the body succeeds silently.
\<close>

lemma head_response_bodyless:
  assumes "hc_decode env pool c src = Some (Ok (Some (req, pl)), c1, src')" "rq_method req = ''HEAD''"
    and "hc_encodev ee ds c1 (MItem (res, len)) dst = Some (Ok (), c2, out, ds')"
  shows "hc_encodev ee ds' c2 (MChunk (Some data)) out = Some (Ok (), c2, out, ds') \<and>
    hc_encodev ee ds' c2 (MChunk None) out = Some (Ok (), c2, out, ds')"
proof -
  from hc_decode_Ok [OF assms(1)] obtain d r where "hc_request (c\<lparr>hc_decoder := d\<rparr>) r pl = (req, c1)" by blast
  from hc_request_flags(1) [OF this] assms(2) have "fl_contains (hc_flags c1) HF_HEAD" by simp
  moreover have "hc_encode_item ee ds c1 res len dst = Some (c2, out, ds')"
    using assms(3) by (auto simp: hc_encodev_def)
  note hc_encode_item_Some(1) [OF this]
  ultimately have "me_te (hc_encoder c2) = te_empty" by (simp add: me_transfer_def)
  then show ?thesis
    by (simp add: hc_encodev_def me_encode_chunk_def me_encode_eof_def te_encode_def te_encode_eof_def te_empty_def)
qed

end
