(* ===== verification/H1_Control.thy ===== *)
theory H1_Control
  imports Http_Request Http_Response H1_Codec
begin

text \<open>
  Control messages of the HTTP/1 dispatcher and their answers (\<^verbatim>\<open>geario-http/src/h1/control.rs\<close>, the default
  service of \<^verbatim>\<open>h1/default.rs\<close>, \<^verbatim>\<open>ProtocolError\<close> of \<^verbatim>\<open>h1/mod.rs\<close>). An application error is a value of type \<open>'e\<close>
  together with the response its \<^verbatim>\<open>error_response\<close> builds. An answer can only be made from a message, by
  one of the methods below: \<open>acks\<close> collects them.
\<close>

section \<open>Protocol errors\<close>

datatype h1_error =
    HpDecode decode_error
  | HpEncode encode_error
  | HpSlowRequestTimeout
  | HpSlowPayloadTimeout
  | HpResponsePayload body_error

text \<open>\<^verbatim>\<open>Response::BadRequest().into()\<close> and its like: a builder that is finished at once. No cookie is involved.\<close>

definition no_cookies :: "unit cookie_ops" where
  "no_cookies = \<lparr>cj_new = (), cj_add = (\<lambda>_ j. j), cj_add_original = (\<lambda>_ j. j), cj_remove = (\<lambda>_ j. j), cj_delta = (\<lambda>_. [])\<rparr>"

definition static_response :: "response_head list \<Rightarrow> status_code \<Rightarrow> response" where
  "static_response pool status = fst (the (bl_finish no_cookies pool (bl_new pool status)))"

fun hp_status :: "h1_error \<Rightarrow> status_code" where
  "hp_status (HpDecode MaxHeaders) = 431"
| "hp_status (HpDecode (TooLarge _)) = 431"
| "hp_status (HpDecode _) = 400"
| "hp_status HpSlowRequestTimeout = 408"
| "hp_status HpSlowPayloadTimeout = 408"
| "hp_status (HpEncode _) = 500"
| "hp_status (HpResponsePayload _) = 500"

definition hp_error_response :: "response_head list \<Rightarrow> h1_error \<Rightarrow> response" where
  "hp_error_response pool e = static_response pool (hp_status e)"

section \<open>Messages\<close>

datatype service_disconnect_reason =
    SdShutdown | SdUpgradeHandled | SdUpgradeFailed | SdExpectFailed | SdPayloadDropped

datatype 'e reason =
    RService service_disconnect_reason
  | RError 'e response
  | RProtocolError h1_error
  | RPeerGone "io_error option"
  | RKeepAlive bool

datatype ('s, 'e) control =
    CtlConnect nat io_handle
  | CtlRequest request
  | CtlUpgrade request io_handle "'s h1_codec"
  | CtlExpect request
  | CtlDisconnect "'e reason"

datatype control_result =
    CrConnect io_handle
  | CrContinue request
  | CrExpect request
  | CrUpgrade request
  | CrUpgradeAck request
  | CrUpgradeHandled
  | CrPublish request
  | CrResponse response body
  | CrError response body
  | CrProtocolError response body
  | CrUpgradeFailed response body
  | CrExpectFailed response body
  | CrStop

definition ctl_connect :: "nat \<Rightarrow> io_handle \<Rightarrow> ('s, 'e) control" where
  "ctl_connect con io = CtlConnect con io"

definition ctl_request :: "request \<Rightarrow> ('s, 'e) control" where
  "ctl_request req = CtlRequest req"

definition ctl_upgrade_msg :: "request \<Rightarrow> io_handle \<Rightarrow> 's h1_codec \<Rightarrow> ('s, 'e) control" where
  "ctl_upgrade_msg req io codec = CtlUpgrade req io codec"

definition ctl_expect :: "request \<Rightarrow> ('s, 'e) control" where
  "ctl_expect req = CtlExpect req"

definition ctl_err :: "('e \<Rightarrow> response) \<Rightarrow> 'e \<Rightarrow> ('s, 'e) control" where
  "ctl_err err_response err = CtlDisconnect (RError err (err_response err))"

definition ctl_peer_gone_msg :: "io_error option \<Rightarrow> ('s, 'e) control" where
  "ctl_peer_gone_msg err = CtlDisconnect (RPeerGone err)"

definition ctl_proto_err_msg :: "h1_error \<Rightarrow> ('s, 'e) control" where
  "ctl_proto_err_msg err = CtlDisconnect (RProtocolError err)"

definition ctl_keepalive_msg :: "bool \<Rightarrow> ('s, 'e) control" where
  "ctl_keepalive_msg enabled = CtlDisconnect (RKeepAlive enabled)"

definition ctl_svc_disconnect_msg :: "service_disconnect_reason \<Rightarrow> ('s, 'e) control" where
  "ctl_svc_disconnect_msg reason = CtlDisconnect (RService reason)"

section \<open>Answers\<close>

text \<open>\<^verbatim>\<open>From<ResponseBody<Body>> for Body\<close>: the body of a \<^verbatim>\<open>Response\<close> is a \<^verbatim>\<open>Body\<close>.\<close>

fun body_of_response_body :: "response_body \<Rightarrow> body" where
  "body_of_response_body (RBBody (MBBody b)) = b"
| "body_of_response_body (RBOther b) = b"
| "body_of_response_body (RBBody m) = BMessage m"

definition parts_of :: "response \<Rightarrow> response \<times> body" where
  "parts_of res = (let (r, b) = rp_into_parts res in (r, body_of_response_body b))"

definition new_request_ack :: "request \<Rightarrow> control_result" where
  "new_request_ack req =
     (if rq_expect (req_head req) then CrExpect req
      else if req_upgrade req then CrUpgrade req
      else CrPublish req)"

definition new_request_fail_with :: "response \<Rightarrow> control_result" where
  "new_request_fail_with res = (let (r, b) = parts_of res in CrResponse r b)"

definition upgrade_ack :: "request \<Rightarrow> io_handle \<Rightarrow> control_result" where
  "upgrade_ack req io = CrUpgradeAck (req\<lparr>req_head := (req_head req)\<lparr>rq_io := IoAccess io\<rparr>\<rparr>)"

definition upgrade_handle :: "request \<Rightarrow> io_handle \<Rightarrow> 's h1_codec \<Rightarrow> control_result \<times> io_handle \<times> request \<times> 's h1_codec" where
  "upgrade_handle req io codec = (CrUpgradeHandled, io, req, codec)"

definition upgrade_fail_with :: "response \<Rightarrow> control_result" where
  "upgrade_fail_with res = (let (r, b) = parts_of res in CrUpgradeFailed r b)"

definition error_ack :: "response \<Rightarrow> control_result" where
  "error_ack pkt = (let (r, b) = parts_of pkt in CrError r b)"

definition error_fail_with :: "response \<Rightarrow> control_result" where
  "error_fail_with res = (let (r, b) = parts_of res in CrError r b)"

definition proto_error_ack :: "response_head list \<Rightarrow> h1_error \<Rightarrow> control_result" where
  "proto_error_ack pool err = (let (r, b) = parts_of (hp_error_response pool err) in CrProtocolError r b)"

definition proto_error_fail_with :: "response \<Rightarrow> control_result" where
  "proto_error_fail_with res = (let (r, b) = parts_of res in CrProtocolError r b)"

definition expect_ack :: "request \<Rightarrow> control_result" where
  "expect_ack req = CrContinue req"

definition expect_fail_with :: "response \<Rightarrow> control_result" where
  "expect_fail_with res = (let (r, b) = parts_of res in CrExpectFailed r b)"

fun reason_ack :: "response_head list \<Rightarrow> 'e reason \<Rightarrow> control_result" where
  "reason_ack pool (RError err pkt) = error_ack pkt"
| "reason_ack pool (RProtocolError err) = proto_error_ack pool err"
| "reason_ack pool (RPeerGone err) = CrStop"
| "reason_ack pool (RKeepAlive enabled) = CrStop"
| "reason_ack pool (RService reason) = CrStop"

fun control_ack :: "response_head list \<Rightarrow> ('s, 'e) control \<Rightarrow> control_result" where
  "control_ack pool (CtlConnect con io) = CrConnect io"
| "control_ack pool (CtlRequest req) = new_request_ack req"
| "control_ack pool (CtlUpgrade req io codec) = upgrade_ack req io"
| "control_ack pool (CtlExpect req) = expect_ack req"
| "control_ack pool (CtlDisconnect reason) = reason_ack pool reason"

text \<open>\<^verbatim>\<open>DefaultControlService::call\<close>.\<close>

definition default_control_call :: "response_head list \<Rightarrow> ('s, 'e) control \<Rightarrow> control_result" where
  "default_control_call pool r = control_ack pool r"

text \<open>
  Every answer to a message: \<^verbatim>\<open>ack\<close>, \<^verbatim>\<open>handle\<close>, and \<^verbatim>\<open>fail\<close> and \<^verbatim>\<open>fail_with\<close> with some response (\<^verbatim>\<open>fail\<close> converts an
  error into one). A request may be changed through \<^verbatim>\<open>get_mut\<close> before it is acknowledged.
\<close>

inductive acks :: "response_head list \<Rightarrow> ('s, 'e) control \<Rightarrow> control_result \<Rightarrow> bool" for pool where
  acks_connect: "acks pool (CtlConnect con io) (CrConnect io)"
| acks_request: "acks pool (CtlRequest req) (new_request_ack req')"
| acks_request_fail: "acks pool (CtlRequest req) (new_request_fail_with res)"
| acks_upgrade: "acks pool (CtlUpgrade req io codec) (upgrade_ack req' io)"
| acks_upgrade_handle: "acks pool (CtlUpgrade req io codec) (fst (upgrade_handle req io codec))"
| acks_upgrade_fail: "acks pool (CtlUpgrade req io codec) (upgrade_fail_with res)"
| acks_expect: "acks pool (CtlExpect req) (expect_ack req)"
| acks_expect_fail: "acks pool (CtlExpect req) (expect_fail_with res)"
| acks_error: "acks pool (CtlDisconnect (RError err pkt)) (error_ack pkt)"
| acks_error_fail: "acks pool (CtlDisconnect (RError err pkt)) (error_fail_with res)"
| acks_proto: "acks pool (CtlDisconnect (RProtocolError perr)) (proto_error_ack pool perr)"
| acks_proto_fail: "acks pool (CtlDisconnect (RProtocolError perr)) (proto_error_fail_with res)"
| acks_peer_gone: "acks pool (CtlDisconnect (RPeerGone ioerr)) CrStop"
| acks_keepalive: "acks pool (CtlDisconnect (RKeepAlive enabled)) CrStop"
| acks_service: "acks pool (CtlDisconnect (RService reason)) CrStop"

section \<open>Facts\<close>

inductive_cases acks_ConnectE: "acks pool (CtlConnect con io) r"
inductive_cases acks_RequestE: "acks pool (CtlRequest req) r"
inductive_cases acks_UpgradeE: "acks pool (CtlUpgrade req io codec) r"
inductive_cases acks_ExpectE: "acks pool (CtlExpect req) r"
inductive_cases acks_DisconnectE: "acks pool (CtlDisconnect reason) r"

lemmas answer_defs = new_request_ack_def new_request_fail_with_def upgrade_ack_def upgrade_handle_def
  upgrade_fail_with_def error_ack_def error_fail_with_def proto_error_ack_def proto_error_fail_with_def
  expect_ack_def expect_fail_with_def parts_of_def rp_into_parts_def

lemma default_control_acks: "acks pool c (default_control_call pool c)"
proof (cases c)
  case (CtlDisconnect reason)
  then show ?thesis
    by (cases reason) (auto simp: default_control_call_def intro: acks.intros)
qed (auto simp: default_control_call_def intro: acks.intros)

lemma static_response_fields:
  "rp_head (static_response pool st) = fresh_head pool st"
  "rp_body (static_response pool st) = RBBody (MBBody BEmpty)"
  by (simp_all add: static_response_def bl_finish_def bl_body_def bl_message_body_def bl_new_def Let_def)

lemma hp_error_response_parts:
  "parts_of (hp_error_response pool e) =
     (\<lparr>rp_head = fresh_head pool (hp_status e), rp_body = RBBody MBUnit\<rparr>, BEmpty)"
  by (simp add: parts_of_def rp_into_parts_def hp_error_response_def static_response_def bl_finish_def bl_body_def
      bl_message_body_def bl_new_def Let_def)

text \<open>What a message can be answered with: a disconnect only by a response or a stop.\<close>

lemma acks_disconnect:
  "acks pool (CtlDisconnect reason) r \<Longrightarrow>
   r = CrStop \<or> (\<exists>res b. r = CrError res b) \<or> (\<exists>res b. r = CrProtocolError res b)"
  by (erule acks_DisconnectE) (auto simp: answer_defs Let_def)

lemma acks_not_connect:
  "acks pool c (CrConnect io) \<Longrightarrow> \<exists>con. c = CtlConnect con io"
  by (erule acks.cases) (auto simp: answer_defs Let_def split: if_splits)

end
