(* ===== verification/H1_Dispatcher.thy ===== *)
theory H1_Dispatcher
  imports H1_Control "HOL-Library.Monad_Syntax"
begin

text \<open>
  The HTTP/1 dispatcher (\<^verbatim>\<open>geario-http/src/h1/dispatcher.rs\<close>): the state machine of one connection, which
  reads requests, passes them to the control and publish services, reads request bodies, and writes
  responses.

  The IO object, its timer and the \<^verbatim>\<open>bstream\<close> channel belong to the \<^verbatim>\<open>geario\<close> crate. What they answer is
  part of the state: a list of events for \<^verbatim>\<open>poll_recv_decode\<close>, one of answers for \<^verbatim>\<open>poll_flush\<close>, one for
  \<^verbatim>\<open>poll_status_update\<close>, and one for \<^verbatim>\<open>poll_ready\<close> of each channel. \<^verbatim>\<open>poll_recv_decode\<close> runs the decoder once on
  the buffered bytes after new bytes have been added (possibly none), or reports an error; when the list
  is empty it has nothing to report. The futures of the two services are the messages they were called
  with; their answers are arguments of an iteration. Every call of a service and every response head
  written is recorded in a trace, newest first.

  \<^const>\<open>None\<close> is a panic. Arithmetic on \<^verbatim>\<open>u32\<close> panics on overflow only when the build checks for it.
\<close>

section \<open>The connection\<close>

datatype io_event =
    EvRead bytes
  | EvBackpressure
  | EvKeepAlive
  | EvPeerGone "io_error option"

datatype status_update = UpKeepAlive | UpBackpressure | UpPeerGone "io_error option"

datatype chan_status = ChReady | ChDropped | ChEof

record channel =
  ch_id :: chan
  ch_data :: "bytes list"
  ch_eof :: bool
  ch_error :: "payload_error option"
  ch_closed :: bool
  ch_status :: "chan_status poll list"

record conn_io =
  ci_closed :: bool
  ci_rbuf :: bytes
  ci_out :: bytes
  ci_timer :: "seconds option"
  ci_events :: "io_event list"
  ci_flush :: "(io_error + unit) poll list"
  ci_updates :: "status_update list"

record 'i decoded =
  de_item :: "'i option"
  de_remains :: nat
  de_consumed :: nat

datatype recv_error =
    RvWriteBackpressure
  | RvKeepAlive
  | RvPeerGone "io_error option"
  | RvDecoder decode_error

definition io_recv ::
  "('d \<Rightarrow> bytes \<Rightarrow> ((decode_error + 'i option) \<times> 'd \<times> bytes) option) \<Rightarrow> 'd \<Rightarrow> conn_io \<Rightarrow>
   ((recv_error + 'i decoded) \<times> 'd \<times> conn_io) option" where
  "io_recv decode d io =
     (case ci_events io of
        [] \<Rightarrow> Some (Ok \<lparr>de_item = None, de_remains = length (ci_rbuf io), de_consumed = 0\<rparr>, d, io)
      | EvRead new # evs \<Rightarrow>
          (let buf = ci_rbuf io @ new
           in case decode d buf of
             None \<Rightarrow> None
           | Some (Err e, d', buf') \<Rightarrow> Some (Err (RvDecoder e), d', io\<lparr>ci_events := evs, ci_rbuf := buf'\<rparr>)
           | Some (Ok item, d', buf') \<Rightarrow>
               Some (Ok \<lparr>de_item = item, de_remains = length buf', de_consumed = length buf - length buf'\<rparr>, d',
                     io\<lparr>ci_events := evs, ci_rbuf := buf'\<rparr>))
      | EvBackpressure # evs \<Rightarrow> Some (Err RvWriteBackpressure, d, io\<lparr>ci_events := evs\<rparr>)
      | EvKeepAlive # evs \<Rightarrow> Some (Err RvKeepAlive, d, io\<lparr>ci_events := evs, ci_timer := None\<rparr>)
      | EvPeerGone e # evs \<Rightarrow> Some (Err (RvPeerGone e), d, io\<lparr>ci_events := evs, ci_closed := True\<rparr>))"

definition io_poll_flush :: "conn_io \<Rightarrow> (io_error + unit) poll \<times> conn_io" where
  "io_poll_flush io =
     (case ci_flush io of
        [] \<Rightarrow> (Ready (Ok ()), io)
      | a # as \<Rightarrow> (a, io\<lparr>ci_flush := as\<rparr>))"

definition io_poll_status_update :: "conn_io \<Rightarrow> status_update poll \<times> conn_io" where
  "io_poll_status_update io =
     (case ci_updates io of
        [] \<Rightarrow> (Pending, io)
      | u # us \<Rightarrow> (Ready u, io\<lparr>ci_updates := us\<rparr>))"

definition io_start_timer :: "seconds \<Rightarrow> conn_io \<Rightarrow> conn_io" where
  "io_start_timer t io = io\<lparr>ci_timer := Some t\<rparr>"

definition io_stop_timer :: "conn_io \<Rightarrow> conn_io" where
  "io_stop_timer io = io\<lparr>ci_timer := None\<rparr>"

definition ch_new :: "chan \<Rightarrow> channel" where
  "ch_new c = \<lparr>ch_id = c, ch_data = [], ch_eof = False, ch_error = None, ch_closed = False, ch_status = []\<rparr>"

definition ch_poll_ready :: "channel \<Rightarrow> chan_status poll \<times> channel" where
  "ch_poll_ready ch =
     (case ch_status ch of
        [] \<Rightarrow> (Pending, ch)
      | s # ss \<Rightarrow> (s, ch\<lparr>ch_status := ss\<rparr>))"

section \<open>State\<close>

abbreviation DISCONNECT_SENT :: u8 where "DISCONNECT_SENT \<equiv> 0x01"
abbreviation READ_KA_TIMEOUT :: u8 where "READ_KA_TIMEOUT \<equiv> 0x10"
abbreviation READ_HDRS_TIMEOUT :: u8 where "READ_HDRS_TIMEOUT \<equiv> 0x20"
abbreviation READ_PL_TIMEOUT :: u8 where "READ_PL_TIMEOUT \<equiv> 0x40"

datatype ('s, 'e) dispatcher_state =
    StCallPublish request
  | StCallControl "('s, 'e) control"
  | StReadRequest
  | StReadPayload
  | StSendPayload response_body
  | StStop

datatype ('s, 'e) effect =
    FxPublish request
  | FxControl "('s, 'e) control"
  | FxHead response_head
  | FxSpawn request
  | FxPayloadEof channel

record ('s, 'e) dispatcher_inner =
  di_io :: conn_io
  di_flags :: u8
  di_disconnect :: "service_disconnect_reason option"
  di_codec :: "'s h1_codec"
  di_shutdown :: bool
  di_payload :: "(payload_decoder \<times> channel) option"
  di_read_remains :: u32
  di_read_consumed :: u32
  di_read_max_timeout :: seconds
  di_date :: date_service
  di_next_chan :: chan
  di_trace :: "('s, 'e) effect list"

text \<open>
  What the dispatcher is created with: parsers, the pool of request heads, the surroundings of the
  encoder, the response of an application error, its IO handle and the build's overflow checks.
\<close>

record ('s, 'e) dispatcher_env =
  dv_parse :: "'s parse_env"
  dv_chunk_size :: chunk_size_fun
  dv_pool :: "request_head list"
  dv_enc :: enc_env
  dv_err_response :: "'e \<Rightarrow> response"
  dv_io :: io_handle
  dv_overflow_checks :: bool

definition di_has :: "('s, 'e) dispatcher_inner \<Rightarrow> u8 \<Rightarrow> bool" where
  "di_has d f = fl_contains (di_flags d) f"

definition di_insert :: "u8 \<Rightarrow> ('s, 'e) dispatcher_inner \<Rightarrow> ('s, 'e) dispatcher_inner" where
  "di_insert f d = d\<lparr>di_flags := fl_insert (di_flags d) f\<rparr>"

definition di_remove :: "u8 \<Rightarrow> ('s, 'e) dispatcher_inner \<Rightarrow> ('s, 'e) dispatcher_inner" where
  "di_remove f d = d\<lparr>di_flags := fl_remove (di_flags d) f\<rparr>"

definition emit :: "('s, 'e) effect \<Rightarrow> ('s, 'e) dispatcher_inner \<Rightarrow> ('s, 'e) dispatcher_inner" where
  "emit f d = d\<lparr>di_trace := f # di_trace d\<rparr>"

definition start_timer :: "seconds \<Rightarrow> ('s, 'e) dispatcher_inner \<Rightarrow> ('s, 'e) dispatcher_inner" where
  "start_timer t d = d\<lparr>di_io := io_start_timer t (di_io d)\<rparr>"

text \<open>\<^verbatim>\<open>Dispatcher::new\<close>.\<close>

definition dispatcher_new ::
  "('s, 'e) dispatcher_env \<Rightarrow> nat \<Rightarrow> http_service_config \<Rightarrow> date_service \<Rightarrow> conn_io \<Rightarrow>
   ('s, 'e) dispatcher_state \<times> ('s, 'e) dispatcher_inner" where
  "dispatcher_new env con_id cfg ds io =
     (let codec = hc_new (dv_parse env) con_id cfg;
          (flags, max_timeout, io) =
            (case cfg_headers_read_rate cfg of
               Some c \<Rightarrow> (READ_HDRS_TIMEOUT, fr_max_timeout c, io_start_timer (fr_timeout c) io)
             | None \<Rightarrow> (0, 0, io))
      in (StReadRequest,
          \<lparr>di_io = io, di_flags = flags, di_disconnect = None, di_codec = codec, di_shutdown = False, di_payload = None,
           di_read_remains = 0, di_read_consumed = 0, di_read_max_timeout = max_timeout, di_date = ds, di_next_chan = 0,
           di_trace = []\<rparr>))"

section \<open>Calling the services\<close>

definition publish ::
  "request \<Rightarrow> ('s, 'e) dispatcher_inner \<Rightarrow> ('s, 'e) dispatcher_state \<times> ('s, 'e) dispatcher_inner" where
  "publish req d = (StCallPublish req, emit (FxPublish req) d)"

definition h1_control_call ::
  "('s, 'e) control \<Rightarrow> ('s, 'e) dispatcher_inner \<Rightarrow> ('s, 'e) dispatcher_state \<times> ('s, 'e) dispatcher_inner" where
  "h1_control_call ctl d = (StCallControl ctl, emit (FxControl ctl) d)"

definition ctl_upgrade ::
  "('s, 'e) dispatcher_env \<Rightarrow> request \<Rightarrow> ('s, 'e) dispatcher_inner \<Rightarrow>
   (('s, 'e) dispatcher_state \<times> ('s, 'e) dispatcher_inner) option" where
  "ctl_upgrade env req d =
     (let d = d\<lparr>di_codec := hc_reset_upgrade (di_codec d)\<rparr>
      in map_option (\<lambda>codec. h1_control_call (ctl_upgrade_msg req (dv_io env) codec) d) (hc_clone (dv_parse env) (di_codec d)))"

definition ctl_keepalive ::
  "bool \<Rightarrow> ('s, 'e) dispatcher_inner \<Rightarrow> ('s, 'e) dispatcher_state \<times> ('s, 'e) dispatcher_inner" where
  "ctl_keepalive enabled d = h1_control_call (ctl_keepalive_msg enabled) (di_insert DISCONNECT_SENT d)"

definition ctl_error ::
  "('s, 'e) dispatcher_env \<Rightarrow> 'e \<Rightarrow> ('s, 'e) dispatcher_inner \<Rightarrow> ('s, 'e) dispatcher_state \<times> ('s, 'e) dispatcher_inner" where
  "ctl_error env err d = h1_control_call (ctl_err (dv_err_response env) err) (di_insert DISCONNECT_SENT d)"

definition ctl_proto_err ::
  "h1_error \<Rightarrow> ('s, 'e) dispatcher_inner \<Rightarrow> ('s, 'e) dispatcher_state \<times> ('s, 'e) dispatcher_inner" where
  "ctl_proto_err err d = h1_control_call (ctl_proto_err_msg err) (di_insert DISCONNECT_SENT d)"

definition ctl_peer_gone ::
  "io_error option \<Rightarrow> ('s, 'e) dispatcher_inner \<Rightarrow> ('s, 'e) dispatcher_state \<times> ('s, 'e) dispatcher_inner" where
  "ctl_peer_gone err d = h1_control_call (ctl_peer_gone_msg err) (di_insert DISCONNECT_SENT d)"

definition stop :: "('s, 'e) dispatcher_inner \<Rightarrow> ('s, 'e) dispatcher_state \<times> ('s, 'e) dispatcher_inner" where
  "stop d = (StStop, d\<lparr>di_io := io_stop_timer (di_io d)\<rparr>)"

definition ctl_svc_disconnect ::
  "service_disconnect_reason \<Rightarrow> ('s, 'e) dispatcher_inner \<Rightarrow> ('s, 'e) dispatcher_state \<times> ('s, 'e) dispatcher_inner" where
  "ctl_svc_disconnect reason d =
     (if di_has d DISCONNECT_SENT then stop d
      else h1_control_call (ctl_svc_disconnect_msg reason) (di_insert DISCONNECT_SENT d))"

definition check_disconnect ::
  "('s, 'e) dispatcher_inner \<Rightarrow> ('s, 'e) dispatcher_state option \<times> ('s, 'e) dispatcher_inner" where
  "check_disconnect d =
     (if di_has d DISCONNECT_SENT then map_prod Some id (stop d)
      else case di_disconnect d of
        Some reason \<Rightarrow>
          map_prod Some id (h1_control_call (ctl_svc_disconnect_msg reason) (di_insert DISCONNECT_SENT (d\<lparr>di_disconnect := None\<rparr>)))
      | None \<Rightarrow> (None, d))"

section \<open>Timers\<close>

definition u32_sub :: "bool \<Rightarrow> u32 \<Rightarrow> u32 \<Rightarrow> u32 option" where
  "u32_sub checks a b = (if checks \<and> a < b then None else Some (a - b))"

definition u32_add :: "bool \<Rightarrow> u32 \<Rightarrow> u32 \<Rightarrow> u32 option" where
  "u32_add checks a b = (if checks \<and> a + b < a then None else Some (a + b))"

definition set_payload_error :: "payload_error \<Rightarrow> ('s, 'e) dispatcher_inner \<Rightarrow> ('s, 'e) dispatcher_inner" where
  "set_payload_error err d =
     d\<lparr>di_payload := map_option (\<lambda>(pd, ch). (pd, ch\<lparr>ch_error := Some err\<rparr>)) (di_payload d)\<rparr>"

definition handle_timeout ::
  "('s, 'e) dispatcher_env \<Rightarrow> ('s, 'e) dispatcher_inner \<Rightarrow> ((h1_error + unit) \<times> ('s, 'e) dispatcher_inner) option" where
  "handle_timeout env d =
     (case
        (if di_has d READ_HDRS_TIMEOUT then Some (cfg_headers_read_rate (hc_cfg (di_codec d)))
         else if di_has d READ_PL_TIMEOUT then Some (cfg_payload_read_rate (hc_cfg (di_codec d)))
         else None) of
        None \<Rightarrow> Some (Ok (), d)
      | Some None \<Rightarrow> Some (Ok (), d)
      | Some (Some cfg) \<Rightarrow>
          (let d = (if di_has d READ_HDRS_TIMEOUT then d\<lparr>di_read_remains := 0\<rparr> else d\<lparr>di_read_consumed := 0\<rparr>)
           in do {
             total \<leftarrow> u32_sub (dv_overflow_checks env) (di_read_remains d) (di_read_consumed d);
             let d1 = (if total > fr_rate cfg \<and> fr_max_timeout cfg \<noteq> 0
                       then d\<lparr>di_read_max_timeout :=
                              (if fr_timeout cfg \<le> di_read_max_timeout d then di_read_max_timeout d - fr_timeout cfg else 0)\<rparr>
                       else d);
             if total > fr_rate cfg \<and> (fr_max_timeout cfg = 0 \<or> di_read_max_timeout d1 \<noteq> 0)
             then Some (Ok (), start_timer (fr_timeout cfg) d1)
             else if di_has d1 READ_PL_TIMEOUT
             then Some (Err HpSlowPayloadTimeout, set_payload_error (PeIo (IoTimedOut ''Keep-alive'')) d1)
             else Some (Err HpSlowRequestTimeout, d1)
           }))"

definition update_hdrs_timer ::
  "(request_head \<times> payload_type) decoded \<Rightarrow> ('s, 'e) dispatcher_inner \<Rightarrow>
   ('s, 'e) dispatcher_state option \<times> ('s, 'e) dispatcher_inner" where
  "update_hdrs_timer decoded d =
     (if de_item decoded \<noteq> None then
        (None, di_remove (READ_KA_TIMEOUT OR READ_HDRS_TIMEOUT OR READ_PL_TIMEOUT) (d\<lparr>di_read_remains := 0\<rparr>))
      else if di_has d READ_HDRS_TIMEOUT then
        (None, d\<lparr>di_read_remains := of_nat (de_remains decoded)\<rparr>)
      else if di_read_remains d = 0 \<and> de_remains decoded = 0 \<and> \<not> hc_is_reading_hdrs (di_codec d) then
        (if hc_keepalive (di_codec d) then
           (None,
            if \<not> di_has d READ_KA_TIMEOUT \<and> cfg_ka_enabled (hc_cfg (di_codec d))
            then start_timer (cfg_keep_alive (hc_cfg (di_codec d))) (di_insert READ_KA_TIMEOUT d)
            else d)
         else map_prod Some id (ctl_keepalive False (d\<lparr>di_io := (di_io d)\<lparr>ci_closed := True\<rparr>\<rparr>)))
      else if hc_is_reading_hdrs (di_codec d) \<and> \<not> di_has d READ_HDRS_TIMEOUT then
        (case cfg_headers_read_rate (hc_cfg (di_codec d)) of
           None \<Rightarrow> (None, d)
         | Some cfg \<Rightarrow>
             (None,
              start_timer (fr_timeout cfg)
                ((di_insert READ_HDRS_TIMEOUT (di_remove (READ_KA_TIMEOUT OR READ_PL_TIMEOUT) d))
                   \<lparr>di_read_consumed := 0, di_read_remains := of_nat (de_remains decoded),
                    di_read_max_timeout := fr_max_timeout cfg\<rparr>)))
      else (None, d))"

definition update_payload_timer ::
  "('s, 'e) dispatcher_env \<Rightarrow> payload_item decoded \<Rightarrow> ('s, 'e) dispatcher_inner \<Rightarrow> ('s, 'e) dispatcher_inner option" where
  "update_payload_timer env decoded d =
     (if di_has d READ_PL_TIMEOUT then
        map_option (\<lambda>c. d\<lparr>di_read_remains := of_nat (de_remains decoded), di_read_consumed := c\<rparr>)
          (u32_add (dv_overflow_checks env) (di_read_consumed d) (of_nat (de_consumed decoded)))
      else case cfg_payload_read_rate (hc_cfg (di_codec d)) of
        None \<Rightarrow> Some d
      | Some cfg \<Rightarrow>
          Some (start_timer (fr_timeout cfg)
            ((di_insert READ_PL_TIMEOUT d)
               \<lparr>di_read_remains := of_nat (de_remains decoded), di_read_consumed := of_nat (de_consumed decoded),
                di_read_max_timeout := fr_max_timeout cfg\<rparr>)))"

section \<open>Request payloads\<close>

abbreviation with_io :: "conn_io \<Rightarrow> ('s, 'e) dispatcher_inner \<Rightarrow> ('s, 'e) dispatcher_inner" where
  "with_io io d \<equiv> d\<lparr>di_io := io\<rparr>"

definition events_left :: "('s, 'e) dispatcher_inner \<Rightarrow> nat" where
  "events_left d = length (ci_events (di_io d))"

text \<open>
  One turn of the loop of \<^verbatim>\<open>poll_request_payload_inner\<close>: either the loop goes on, or it is left by
  \<^verbatim>\<open>break\<close> (\<open>PlBreak\<close>) or by \<^verbatim>\<open>return\<close> with an error. \<open>updated\<close> says whether an item was received in this turn.
\<close>

datatype pl_turn =
    PlContinue
  | PlBreak
  | PlReturn "h1_error + io_error option"

definition payload_turn ::
  "('s, 'e) dispatcher_env \<Rightarrow> payload_decoder \<Rightarrow> channel \<Rightarrow> ('s, 'e) dispatcher_inner \<Rightarrow>
   (pl_turn \<times> bool \<times> ('s, 'e) dispatcher_inner) option" where
  "payload_turn env pd ch d =
     do {
       (r, pd', io) \<leftarrow> io_recv (pd_decode (dv_chunk_size env)) pd (di_io d);
       let d = (with_io io d)\<lparr>di_payload := Some (pd', ch)\<rparr>;
       case r of
         Ok decoded \<Rightarrow>
           do {
             d \<leftarrow> update_payload_timer env decoded d;
             (case de_item decoded of
                None \<Rightarrow> Some (PlBreak, False, d)
              | Some (Chunk chunk) \<Rightarrow>
                  Some (PlContinue, True, d\<lparr>di_payload := Some (pd', ch\<lparr>ch_data := ch_data ch @ [chunk]\<rparr>)\<rparr>)
              | Some Eof \<Rightarrow>
                  Some (PlBreak, True,
                    (emit (FxPayloadEof (ch\<lparr>ch_eof := True\<rparr>)) (di_remove READ_PL_TIMEOUT d))\<lparr>di_payload := None\<rparr>))
           }
       | Err RvWriteBackpressure \<Rightarrow>
           (case io_poll_flush (di_io d) of
              (Pending, io) \<Rightarrow> Some (PlBreak, False, with_io io d)
            | (Ready (Err e), io) \<Rightarrow> Some (PlReturn (Inr (Some e)), False, with_io io d)
            | (Ready (Ok _), io) \<Rightarrow> Some (PlContinue, False, with_io io d))
       | Err RvKeepAlive \<Rightarrow>
           do {
             (r, d) \<leftarrow> handle_timeout env d;
             (case r of
                Err err \<Rightarrow> Some (PlReturn (Inl err), False, d)
              | Ok _ \<Rightarrow> Some (PlContinue, False, d))
           }
       | Err (RvPeerGone err) \<Rightarrow> Some (PlReturn (Inr err), False, set_payload_error PeEncodingCorrupted d)
       | Err (RvDecoder e) \<Rightarrow> Some (PlReturn (Inl (HpDecode e)), False, set_payload_error PeEncodingCorrupted d)
     }"

text \<open>The loop ends because every turn that continues has used up an event.\<close>

function payload_loop ::
  "('s, 'e) dispatcher_env \<Rightarrow> bool \<Rightarrow> ('s, 'e) dispatcher_inner \<Rightarrow>
   ((h1_error + io_error option, unit) sum poll \<times> ('s, 'e) dispatcher_inner) option" where
  "payload_loop env updated d =
     (case di_payload d of
        None \<Rightarrow> None
      | Some (pd, ch) \<Rightarrow>
          do {
            (t, item, d') \<leftarrow> payload_turn env pd ch d;
            (case t of
               PlReturn err \<Rightarrow> Some (Ready (Err err), d')
             | PlBreak \<Rightarrow> Some (if updated \<or> item then Ready (Ok ()) else Pending, d')
             | PlContinue \<Rightarrow>
                 if events_left d' < events_left d then payload_loop env (updated \<or> item) d' else None)
          })"
  by pat_completeness auto
termination
  by (relation "measure (\<lambda>(env, updated, d). events_left d)") auto

declare payload_loop.simps [simp del]

definition poll_request_payload_inner ::
  "('s, 'e) dispatcher_env \<Rightarrow> ('s, 'e) dispatcher_inner \<Rightarrow>
   ((h1_error + io_error option, unit) sum poll \<times> ('s, 'e) dispatcher_inner) option" where
  "poll_request_payload_inner env d =
     (case di_payload d of
        None \<Rightarrow> Some (Ready (Ok ()), d)
      | Some (pd, ch) \<Rightarrow>
          (case ch_poll_ready ch of
             (Ready ChReady, ch') \<Rightarrow> payload_loop env False (d\<lparr>di_payload := Some (pd, ch')\<rparr>)
           | (Pending, ch') \<Rightarrow>
               (let d = d\<lparr>di_payload := Some (pd, ch')\<rparr>
                in Some (Pending,
                     if di_has d READ_PL_TIMEOUT
                     then (di_remove READ_PL_TIMEOUT d)\<lparr>di_io := io_stop_timer (di_io d)\<rparr>
                     else d))
           | (Ready _, _) \<Rightarrow> Some (Pending, d\<lparr>di_payload := None, di_disconnect := Some SdPayloadDropped\<rparr>)))"

definition poll_request_payload ::
  "('s, 'e) dispatcher_env \<Rightarrow> ('s, 'e) dispatcher_inner \<Rightarrow>
   (('s, 'e) dispatcher_state option poll \<times> ('s, 'e) dispatcher_inner) option" where
  "poll_request_payload env d =
     do {
       (r, d) \<leftarrow> poll_request_payload_inner env d;
       (case r of
          Pending \<Rightarrow> Some (Pending, d)
        | Ready (Ok _) \<Rightarrow> Some (Ready None, d)
        | Ready (Err (Inl e)) \<Rightarrow> Some (map_prod (Ready \<circ> Some) id (ctl_proto_err e d))
        | Ready (Err (Inr e)) \<Rightarrow> Some (map_prod (Ready \<circ> Some) id (ctl_peer_gone e d)))
     }"

definition poll_request ::
  "('s, 'e) dispatcher_env \<Rightarrow> ('s, 'e) dispatcher_inner \<Rightarrow>
   (('s, 'e) dispatcher_state poll \<times> ('s, 'e) dispatcher_inner) option" where
  "poll_request env d =
     (if di_payload d \<noteq> None then
        do {
          (r, d) \<leftarrow> poll_request_payload env d;
          (case r of
             Ready (Some st) \<Rightarrow> Some (Ready st, d)
           | _ \<Rightarrow> Some (Pending, d))
        }
      else
        (case io_poll_status_update (di_io d) of
           (Ready (UpPeerGone e), io) \<Rightarrow> Some (map_prod Ready id (ctl_peer_gone e (with_io (io\<lparr>ci_closed := True\<rparr>) d)))
         | (_, io) \<Rightarrow> Some (Pending, with_io io d)))"

section \<open>Reading a request\<close>

text \<open>What becomes of a decoded request: its IO handle, its payload channel, the call of the control service.\<close>

definition start_request ::
  "('s, 'e) dispatcher_env \<Rightarrow> request_head \<Rightarrow> payload_type \<Rightarrow> ('s, 'e) dispatcher_inner \<Rightarrow>
   ('s, 'e) dispatcher_state \<times> ('s, 'e) dispatcher_inner" where
  "start_request env head pl d =
     (let req = req_from_head (head\<lparr>rq_io := IoRef (dv_io env)\<rparr>);
          c = di_next_chan d
      in case pl of
        PNone \<Rightarrow> h1_control_call (ctl_request req) d
      | PPayload decoder \<Rightarrow>
          h1_control_call (ctl_request (snd (req_replace_payload req (PlH1 c))))
            (d\<lparr>di_payload := Some (decoder, ch_new c), di_next_chan := c + 1\<rparr>)
      | PStream decoder \<Rightarrow>
          h1_control_call (ctl_request (snd (req_replace_payload req (PlH1 c))))
            (d\<lparr>di_payload := Some (decoder, ch_new c), di_next_chan := c + 1\<rparr>))"

function poll_read_request ::
  "('s, 'e) dispatcher_env \<Rightarrow> ('s, 'e) dispatcher_inner \<Rightarrow>
   (('s, 'e) dispatcher_state poll \<times> ('s, 'e) dispatcher_inner) option" where
  "poll_read_request env d =
     (if di_shutdown d then Some (map_prod Ready id (ctl_svc_disconnect SdShutdown d))
      else do {
        (r, codec, io) \<leftarrow> io_recv (hc_decode (dv_parse env) (dv_pool env)) (di_codec d) (di_io d);
        let d' = (with_io io d)\<lparr>di_codec := codec\<rparr>;
        case r of
          Ok decoded \<Rightarrow>
            (case update_hdrs_timer decoded d' of
               (Some st, d') \<Rightarrow> Some (Ready st, d')
             | (None, d') \<Rightarrow>
                 (case de_item decoded of
                    None \<Rightarrow> Some (Pending, d')
                  | Some (head, pl) \<Rightarrow> Some (map_prod Ready id (start_request env head pl d'))))
        | Err RvWriteBackpressure \<Rightarrow>
            (case io_poll_flush (di_io d') of
               (Pending, io) \<Rightarrow> Some (Pending, with_io io d')
             | (Ready (Err e), io) \<Rightarrow> Some (map_prod Ready id (ctl_peer_gone (Some e) (with_io io d')))
             | (Ready (Ok _), io) \<Rightarrow>
                 if events_left d' < events_left d then poll_read_request env (with_io io d') else None)
        | Err (RvDecoder err) \<Rightarrow> Some (map_prod Ready id (ctl_proto_err (HpDecode err) d'))
        | Err (RvPeerGone err) \<Rightarrow> Some (map_prod Ready id (ctl_peer_gone err d'))
        | Err RvKeepAlive \<Rightarrow>
            (if di_has d' READ_HDRS_TIMEOUT then
               do {
                 (r, d'') \<leftarrow> handle_timeout env d';
                 (case r of
                    Err err \<Rightarrow> Some (map_prod Ready id (ctl_proto_err err d''))
                  | Ok _ \<Rightarrow> if events_left d'' < events_left d then poll_read_request env d'' else None)
               }
             else Some (map_prod Ready id (ctl_keepalive True d')))
      })"
  by pat_completeness auto
termination
  by (relation "measure (\<lambda>(env, d). events_left d)")
    (auto simp: events_left_def io_poll_flush_def split: list.splits)

declare poll_read_request.simps [simp del]

section \<open>Sending a response\<close>

text \<open>\<^verbatim>\<open>Io::encode\<close>: the codec writes to the output.\<close>

definition io_encode ::
  "('s, 'e) dispatcher_env \<Rightarrow> (response_head \<times> body_size) h1_message \<Rightarrow> ('s, 'e) dispatcher_inner \<Rightarrow>
   ((encode_error + unit) \<times> ('s, 'e) dispatcher_inner) option" where
  "io_encode env msg d =
     map_option
       (\<lambda>(r, codec, out, ds). (r, d\<lparr>di_codec := codec, di_io := (di_io d)\<lparr>ci_out := out\<rparr>, di_date := ds\<rparr>))
       (hc_encodev (dv_enc env) (di_date d) (di_codec d) msg (ci_out (di_io d)))"

definition after_response ::
  "('s, 'e) dispatcher_inner \<Rightarrow> ('s, 'e) dispatcher_state \<times> ('s, 'e) dispatcher_inner" where
  "after_response d =
     (case check_disconnect d of
        (Some st, d) \<Rightarrow> (st, d)
      | (None, d) \<Rightarrow> (if di_payload d \<noteq> None then StReadPayload else StReadRequest, d))"

definition send_response ::
  "('s, 'e) dispatcher_env \<Rightarrow> response \<Rightarrow> response_body \<Rightarrow> ('s, 'e) dispatcher_inner \<Rightarrow>
   (('s, 'e) dispatcher_state \<times> ('s, 'e) dispatcher_inner) option" where
  "send_response env msg body d =
     (let head = (if (case di_payload d of Some (_, ch) \<Rightarrow> ch_closed ch | None \<Rightarrow> False)
                  then rs_set_connection_type Close (rp_head msg) else rp_head msg)
      in if ci_closed (di_io d) then Some (ctl_peer_gone None d)
         else do {
           (r, d) \<leftarrow> io_encode env (MItem (head, rb_size body)) d;
           (case r of
              Ok _ \<Rightarrow>
                (let d = emit (FxHead head) d
                 in case rb_size body of
                      SzNone \<Rightarrow> Some (after_response d)
                    | SzEmpty \<Rightarrow> Some (after_response d)
                    | _ \<Rightarrow> Some (StSendPayload body, d))
            | Err err \<Rightarrow> Some (ctl_proto_err (HpEncode err) (set_payload_error (PeIncomplete None) d)))
         })"

text \<open>The loop of \<^verbatim>\<open>poll_send_payload\<close>; the body is part of the result because the state keeps it.\<close>

function send_loop ::
  "('s, 'e) dispatcher_env \<Rightarrow> response_body \<Rightarrow> ('s, 'e) dispatcher_inner \<Rightarrow>
   (('s, 'e) dispatcher_state poll \<times> response_body \<times> ('s, 'e) dispatcher_inner) option" where
  "send_loop env body d =
     (case io_poll_flush (di_io d) of
        (Pending, io) \<Rightarrow> Some (Pending, body, with_io io d)
      | (Ready _, io) \<Rightarrow>
          (let d = with_io io d
           in case rb_poll_next_chunk body of
             (Pending, body') \<Rightarrow> Some (Pending, body', d)
           | (Ready (Some (Ok item)), body') \<Rightarrow>
               do {
                 (r, d) \<leftarrow> io_encode env (MChunk (Some item)) d;
                 (case r of
                    Ok _ \<Rightarrow> send_loop env body' d
                  | Err err \<Rightarrow> (let (st, d) = ctl_proto_err (HpEncode err) d in Some (Ready st, body', d)))
               }
           | (Ready None, body') \<Rightarrow>
               do {
                 (r, d) \<leftarrow> io_encode env (MChunk None) d;
                 (case r of
                    Err err \<Rightarrow> (let (st, d) = ctl_proto_err (HpEncode err) d in Some (Ready st, body', d))
                  | Ok _ \<Rightarrow> (let (st, d) = after_response d in Some (Ready st, body', d)))
               }
           | (Ready (Some (Err err)), body') \<Rightarrow>
               (let (st, d) = ctl_proto_err (HpResponsePayload err) d in Some (Ready st, body', d))))"
  by pat_completeness auto
termination
  by (relation "measure (\<lambda>(env, body, d). rb_weight body)") (auto dest: rb_poll_weight [OF sym])

declare send_loop.simps [simp del]

definition poll_send_payload ::
  "('s, 'e) dispatcher_env \<Rightarrow> response_body \<Rightarrow> ('s, 'e) dispatcher_inner \<Rightarrow>
   (('s, 'e) dispatcher_state poll \<times> response_body \<times> ('s, 'e) dispatcher_inner) option" where
  "poll_send_payload env body d =
     (if ci_closed (di_io d) then (let (st, d) = ctl_peer_gone None d in Some (Ready st, body, d))
      else if di_disconnect d = None then
        do {
          (r, d) \<leftarrow> poll_request_payload env d;
          send_loop env body
            (case r of Ready (Some _) \<Rightarrow> d\<lparr>di_disconnect := Some SdPayloadDropped\<rparr> | _ \<Rightarrow> d)
        }
      else send_loop env body d)"

section \<open>The loop of poll\<close>

text \<open>What the futures answer if they are polled in an iteration.\<close>

record 'e answers =
  an_publish :: "('e + response) poll"
  an_control :: "(string + control_result) poll"
  an_slice :: "io_error + unit"
  an_shutdown :: "(io_error + unit) poll"

datatype ('s, 'e) iteration =
    Goto "('s, 'e) dispatcher_state"
  | PollPending "('s, 'e) dispatcher_state"
  | PollReady "(string + io_error) + unit"

definition go ::
  "('s, 'e) dispatcher_state \<times> ('s, 'e) dispatcher_inner \<Rightarrow> (('s, 'e) iteration \<times> ('s, 'e) dispatcher_inner) option" where
  "go r = Some (map_prod Goto id r)"

definition poll_publish ::
  "('s, 'e) dispatcher_env \<Rightarrow> 'e answers \<Rightarrow> request \<Rightarrow> ('s, 'e) dispatcher_inner \<Rightarrow>
   (('s, 'e) iteration \<times> ('s, 'e) dispatcher_inner) option" where
  "poll_publish env an req d =
     (case an_publish an of
        Ready (Ok res) \<Rightarrow>
          (let (res, body) = rp_into_parts res in Option.bind (send_response env res body d) go)
      | Ready (Err err) \<Rightarrow> go (ctl_error env err d)
      | Pending \<Rightarrow>
          do {
            (r, d) \<leftarrow> poll_request env d;
            (case r of
               Pending \<Rightarrow> Some (PollPending (StCallPublish req), d)
             | Ready st \<Rightarrow> Some (Goto st, if di_payload d \<noteq> None then emit (FxSpawn req) d else d))
          })"

definition CONTINUE :: bytes where "CONTINUE = ''HTTP/1.1 100 Continue'' @ CRLF @ CRLF"

text \<open>The answer of the control service; \<open>sent_slice\<close> is what \<^verbatim>\<open>Io::encode_slice\<close> returns.\<close>

definition apply_result ::
  "('s, 'e) dispatcher_env \<Rightarrow> io_error + unit \<Rightarrow> control_result \<Rightarrow> ('s, 'e) dispatcher_inner \<Rightarrow>
   (('s, 'e) dispatcher_state \<times> ('s, 'e) dispatcher_inner) option" where
  "apply_result env sent_slice result d =
     (case result of
        CrPublish req \<Rightarrow> Some (publish req d)
      | CrResponse res body \<Rightarrow> send_response env res (rb_from_body body) d
      | CrError res body \<Rightarrow> send_response env res (rb_from_body body) d
      | CrProtocolError res body \<Rightarrow> send_response env res (rb_from_body body) d
      | CrContinue req \<Rightarrow>
          (case sent_slice of
             Err err \<Rightarrow> Some (ctl_peer_gone (Some err) d)
           | Ok _ \<Rightarrow>
               (let d = d\<lparr>di_io := (di_io d)\<lparr>ci_out := ci_out (di_io d) @ CONTINUE\<rparr>\<rparr>
                in if req_upgrade req then ctl_upgrade env req d else Some (publish req d)))
      | CrExpect req \<Rightarrow> Some (h1_control_call (ctl_expect req) d)
      | CrExpectFailed res body \<Rightarrow>
          send_response env res (rb_from_body body) (d\<lparr>di_disconnect := Some SdExpectFailed\<rparr>)
      | CrUpgrade req \<Rightarrow> ctl_upgrade env req d
      | CrUpgradeAck req \<Rightarrow> Some (publish req (d\<lparr>di_disconnect := Some SdUpgradeHandled\<rparr>))
      | CrUpgradeHandled \<Rightarrow> Some (ctl_svc_disconnect SdUpgradeHandled d)
      | CrUpgradeFailed res body \<Rightarrow>
          send_response env res (rb_from_body body) (d\<lparr>di_disconnect := Some SdUpgradeFailed\<rparr>)
      | CrStop \<Rightarrow> Some (stop d)
      | CrConnect _ \<Rightarrow> None)"

definition poll_control ::
  "('s, 'e) dispatcher_env \<Rightarrow> 'e answers \<Rightarrow> ('s, 'e) control \<Rightarrow> ('s, 'e) dispatcher_inner \<Rightarrow>
   (('s, 'e) iteration \<times> ('s, 'e) dispatcher_inner) option" where
  "poll_control env an ctl d =
     (case an_control an of
        Ready (Ok result) \<Rightarrow> Option.bind (apply_result env (an_slice an) result d) go
      | Ready (Err err) \<Rightarrow> Some (PollReady (Err (Inl err)), d)
      | Pending \<Rightarrow>
          do {
            (_, d) \<leftarrow> poll_request_payload_inner env d;
            Some (PollPending (StCallControl ctl), d)
          })"

fun dispatch ::
  "('s, 'e) dispatcher_env \<Rightarrow> 'e answers \<Rightarrow> ('s, 'e) dispatcher_state \<Rightarrow> ('s, 'e) dispatcher_inner \<Rightarrow>
   (('s, 'e) iteration \<times> ('s, 'e) dispatcher_inner) option" where
  "dispatch env an (StCallPublish req) d = poll_publish env an req d"
| "dispatch env an (StCallControl ctl) d = poll_control env an ctl d"
| "dispatch env an StReadRequest d =
     (case check_disconnect d of
        (Some st, d) \<Rightarrow> go (st, d)
      | (None, d) \<Rightarrow>
          do {
            (r, d) \<leftarrow> poll_read_request env d;
            (case r of Pending \<Rightarrow> Some (PollPending StReadRequest, d) | Ready st \<Rightarrow> go (st, d))
          })"
| "dispatch env an StReadPayload d =
     do {
       (r, d) \<leftarrow> poll_request_payload env d;
       (case check_disconnect d of
          (Some st, d) \<Rightarrow> go (st, d)
        | (None, d) \<Rightarrow>
            (case r of
               Pending \<Rightarrow> Some (PollPending StReadPayload, d)
             | Ready None \<Rightarrow> go (StReadRequest, d)
             | Ready (Some st) \<Rightarrow> go (st, d)))
     }"
| "dispatch env an (StSendPayload body) d =
     do {
       (r, body', d) \<leftarrow> poll_send_payload env body d;
       (case r of Pending \<Rightarrow> Some (PollPending (StSendPayload body'), d) | Ready st \<Rightarrow> go (st, d))
     }"
| "dispatch env an StStop d =
     (case an_shutdown an of
        Pending \<Rightarrow> Some (PollPending StStop, d)
      | Ready (Ok _) \<Rightarrow> Some (PollReady (Ok ()), d)
      | Ready (Err e) \<Rightarrow> Some (PollReady (Err (Inr e)), d))"

text \<open>
  Runs of the dispatcher: iterations of the loop, in which the control service answers with an answer
  to its message, and the world in between, which supplies new answers of IO and channel, closes the
  connection, closes the receiving end of the channel, or starts the shutdown.
\<close>

definition world ::
  "io_event list \<Rightarrow> (io_error + unit) poll list \<Rightarrow> status_update list \<Rightarrow> chan_status poll list \<Rightarrow> bool \<Rightarrow> bool \<Rightarrow> bool \<Rightarrow>
   ('s, 'e) dispatcher_inner \<Rightarrow> ('s, 'e) dispatcher_inner" where
  "world evs fls ups chs closed dropped shutdown d =
     d\<lparr>di_io := (di_io d)\<lparr>ci_events := evs, ci_flush := fls, ci_updates := ups, ci_closed := ci_closed (di_io d) \<or> closed\<rparr>,
       di_payload := map_option (\<lambda>(pd, ch). (pd, ch\<lparr>ch_status := chs, ch_closed := ch_closed ch \<or> dropped\<rparr>)) (di_payload d),
       di_shutdown := di_shutdown d \<or> shutdown\<rparr>"

text \<open>
  What the types of the crates guarantee of a response: its status is a \<^verbatim>\<open>StatusCode\<close>, a number of three
  digits, and the size of its body is a \<^verbatim>\<open>u64\<close>.
\<close>

definition resp_ok :: "response \<Rightarrow> response_body \<Rightarrow> bool" where
  "resp_ok res body \<longleftrightarrow> 100 \<le> rp_status res \<and> rp_status res < 1000 \<and> sized_ok (rb_size body)"

fun result_ok :: "control_result \<Rightarrow> bool" where
  "result_ok (CrResponse res b) = resp_ok res (rb_from_body b)"
| "result_ok (CrError res b) = resp_ok res (rb_from_body b)"
| "result_ok (CrProtocolError res b) = resp_ok res (rb_from_body b)"
| "result_ok (CrUpgradeFailed res b) = resp_ok res (rb_from_body b)"
| "result_ok (CrExpectFailed res b) = resp_ok res (rb_from_body b)"
| "result_ok _ = True"

fun answers_fit :: "response_head list \<Rightarrow> ('s, 'e) dispatcher_state \<Rightarrow> 'e answers \<Rightarrow> bool" where
  "answers_fit pool (StCallControl ctl) an =
     (case an_control an of Ready (Ok r) \<Rightarrow> acks pool ctl r \<and> result_ok r | _ \<Rightarrow> True)"
| "answers_fit pool (StCallPublish req) an =
     (case an_publish an of Ready (Ok res) \<Rightarrow> resp_ok res (rp_body res) | _ \<Rightarrow> True)"
| "answers_fit pool _ an = True"

inductive dstep ::
  "('s, 'e) dispatcher_env \<Rightarrow> response_head list \<Rightarrow> ('s, 'e) dispatcher_state \<times> ('s, 'e) dispatcher_inner \<Rightarrow>
   ('s, 'e) dispatcher_state \<times> ('s, 'e) dispatcher_inner \<Rightarrow> bool" for env pool where
  ds_goto: "dispatch env an st d = Some (Goto st', d') \<Longrightarrow> answers_fit pool st an \<Longrightarrow> dstep env pool (st, d) (st', d')"
| ds_pending: "dispatch env an st d = Some (PollPending st', d') \<Longrightarrow> answers_fit pool st an \<Longrightarrow> dstep env pool (st, d) (st', d')"
| ds_world: "dstep env pool (st, d) (st, world evs fls ups chs closed dropped shutdown d)"

abbreviation dsteps where
  "dsteps env pool \<equiv> (dstep env pool)\<^sup>*\<^sup>*"

end
