(* ===== verification/H1_Connection.thy ===== *)
theory H1_Connection
  imports H1_Dispatcher
begin

text \<open>
  What every run of the HTTP/1 dispatcher guarantees: requests and responses alternate, nothing is
  handled after a disconnect has been announced, and no iteration panics.
\<close>

section \<open>Progress of the loops\<close>

lemma io_recv_events:
  "io_recv decf x io = Some (r, x', io') \<Longrightarrow>
   (case r of Inl _ \<Rightarrow> True | Inr de \<Rightarrow> de_item de \<noteq> None) \<Longrightarrow> length (ci_events io') < length (ci_events io)"
  by (auto simp: io_recv_def Let_def split: list.splits io_event.splits option.splits sum.splits)

lemma io_poll_flush_events [simp]: "ci_events (snd (io_poll_flush io)) = ci_events io"
  by (simp add: io_poll_flush_def split: list.split)

lemma io_poll_flush_eqD: "io_poll_flush io = (r, io') \<Longrightarrow> ci_events io' = ci_events io"
  by (metis io_poll_flush_events snd_conv)

lemmas inner_defs = di_insert_def di_remove_def di_has_def emit_def start_timer_def set_payload_error_def
  io_start_timer_def io_stop_timer_def

lemma update_payload_timer_events:
  "update_payload_timer env de d = Some d' \<Longrightarrow> events_left d' = events_left d"
  by (auto simp: update_payload_timer_def events_left_def inner_defs split: if_splits option.splits)

lemma handle_timeout_events:
  "handle_timeout env d = Some (r, d') \<Longrightarrow> events_left d' = events_left d"
  by (auto simp: handle_timeout_def events_left_def inner_defs Let_def bind_eq_Some_conv split: if_splits option.splits)

text \<open>The cases of a turn of the payload loop.\<close>

lemma payload_turn_cases:
  assumes "payload_turn env pd ch d = Some (t, item, d')"
  obtains (decoded) de pd' io d1 where "io_recv (pd_decode (dv_chunk_size env)) pd (di_io d) = Some (Inr de, pd', io)"
      "update_payload_timer env de ((with_io io d)\<lparr>di_payload := Some (pd', ch)\<rparr>) = Some d1"
      "(t, item, d') =
         (case de_item de of
            None \<Rightarrow> (PlBreak, False, d1)
          | Some (Chunk chunk) \<Rightarrow> (PlContinue, True, d1\<lparr>di_payload := Some (pd', ch\<lparr>ch_data := ch_data ch @ [chunk]\<rparr>)\<rparr>)
          | Some Eof \<Rightarrow> (PlBreak, True, (emit (FxPayloadEof (ch\<lparr>ch_eof := True\<rparr>)) (di_remove READ_PL_TIMEOUT d1))\<lparr>di_payload := None\<rparr>))"
  | (flush) pd' io r io' where "io_recv (pd_decode (dv_chunk_size env)) pd (di_io d) = Some (Inl RvWriteBackpressure, pd', io)"
      "io_poll_flush io = (r, io')" "d' = (with_io io' d)\<lparr>di_payload := Some (pd', ch)\<rparr>"
      "t = (case r of Pending \<Rightarrow> PlBreak | Ready (Inl e) \<Rightarrow> PlReturn (Inr (Some e)) | Ready (Inr _) \<Rightarrow> PlContinue)"
  | (timeout) pd' io r where "io_recv (pd_decode (dv_chunk_size env)) pd (di_io d) = Some (Inl RvKeepAlive, pd', io)"
      "handle_timeout env ((with_io io d)\<lparr>di_payload := Some (pd', ch)\<rparr>) = Some (r, d')"
      "t = (case r of Inl e \<Rightarrow> PlReturn (Inl e) | Inr _ \<Rightarrow> PlContinue)"
  | (failed) pd' io e where "io_recv (pd_decode (dv_chunk_size env)) pd (di_io d) = Some (Inl e, pd', io)"
      "d' = set_payload_error PeEncodingCorrupted ((with_io io d)\<lparr>di_payload := Some (pd', ch)\<rparr>)" "\<exists>err. t = PlReturn err"
proof -
  from assms obtain r pd' io where recv: "io_recv (pd_decode (dv_chunk_size env)) pd (di_io d) = Some (r, pd', io)"
    by (auto simp: payload_turn_def bind_eq_Some_conv)
  show thesis
  proof (cases r)
    case (Inr de)
    with assms recv obtain d1 where d1: "update_payload_timer env de ((with_io io d)\<lparr>di_payload := Some (pd', ch)\<rparr>) = Some d1"
      by (auto simp: payload_turn_def Let_def bind_eq_Some_conv)
    show thesis
      using assms recv Inr d1
      by (intro decoded [of de pd' io d1])
        (auto simp: payload_turn_def Let_def split: option.splits payload_item.splits)
  next
    case (Inl e)
    show thesis
    proof (cases e)
      case RvWriteBackpressure
      with assms recv Inl show thesis
        by (auto simp: payload_turn_def Let_def split: prod.splits poll.splits sum.splits intro: flush)
    next
      case RvKeepAlive
      with assms recv Inl obtain q d1 where "handle_timeout env ((with_io io d)\<lparr>di_payload := Some (pd', ch)\<rparr>) = Some (q, d1)"
        by (auto simp: payload_turn_def Let_def bind_eq_Some_conv)
      with assms recv Inl RvKeepAlive show thesis
        by (intro timeout [of pd' io q]) (auto simp: payload_turn_def Let_def split: sum.splits)
    next
      case (RvPeerGone x)
      with assms recv Inl show thesis
        by (auto simp: payload_turn_def Let_def intro: failed)
    next
      case (RvDecoder x)
      with assms recv Inl show thesis
        by (auto simp: payload_turn_def Let_def intro: failed)
    qed
  qed
qed

lemma payload_turn_continue:
  assumes "payload_turn env pd ch d = Some (PlContinue, item, d')"
  shows "events_left d' < events_left d" "di_payload d' \<noteq> None"
proof -
  from assms show "events_left d' < events_left d"
  proof (cases rule: payload_turn_cases)
    case (decoded de pd' io d1)
    then have "de_item de \<noteq> None" by (auto split: option.splits)
    with io_recv_events [OF decoded(1)] update_payload_timer_events [OF decoded(2)] decoded(3) show ?thesis
      by (auto simp: events_left_def split: option.splits payload_item.splits)
  next
    case (flush pd' io r io')
    with io_recv_events [OF flush(1)] io_poll_flush_eqD [OF flush(2)] show ?thesis by (simp add: events_left_def)
  next
    case (timeout pd' io r)
    with io_recv_events [OF timeout(1)] handle_timeout_events [OF timeout(2)] show ?thesis by (simp add: events_left_def)
  qed auto
  from assms show "di_payload d' \<noteq> None"
  proof (cases rule: payload_turn_cases)
    case (decoded de pd' io d1)
    then show ?thesis by (auto split: option.splits payload_item.splits)
  next
    case (timeout pd' io r)
    then show ?thesis
      by (auto simp: handle_timeout_def inner_defs Let_def bind_eq_Some_conv split: if_splits option.splits)
  qed auto
qed

text \<open>Hence the loop without its guard.\<close>

lemma payload_loop_eq:
  assumes "di_payload d = Some (pd, ch)"
  shows "payload_loop env updated d =
    (case payload_turn env pd ch d of
       None \<Rightarrow> None
     | Some (PlReturn err, item, d') \<Rightarrow> Some (Ready (Inl err), d')
     | Some (PlBreak, item, d') \<Rightarrow> Some (if updated \<or> item then Ready (Inr ()) else Pending, d')
     | Some (PlContinue, item, d') \<Rightarrow> payload_loop env (updated \<or> item) d')"
  using assms
  by (subst payload_loop.simps)
    (auto split: option.split pl_turn.split dest: payload_turn_continue(1))

section \<open>Effects\<close>

definition sent :: "('s, 'e) dispatcher_inner \<Rightarrow> bool" where
  "sent d = di_has d DISCONNECT_SENT"

fun quiet :: "('s, 'e) effect \<Rightarrow> bool" where
  "quiet (FxPayloadEof _) = True"
| "quiet (FxSpawn _) = True"
| "quiet _ = False"

fun is_disconnect :: "('s, 'e) effect \<Rightarrow> bool" where
  "is_disconnect (FxControl (CtlDisconnect _)) = True"
| "is_disconnect _ = False"

text \<open>The effects by which a request is worked on.\<close>

fun is_work :: "('s, 'e) effect \<Rightarrow> bool" where
  "is_work (FxPublish _) = True"
| "is_work (FxControl (CtlRequest _)) = True"
| "is_work (FxControl (CtlUpgrade _ _ _)) = True"
| "is_work (FxControl (CtlExpect _)) = True"
| "is_work _ = False"

fun is_request :: "('s, 'e) effect \<Rightarrow> bool" where
  "is_request (FxControl (CtlRequest _)) = True"
| "is_request _ = False"

fun is_head :: "('s, 'e) effect \<Rightarrow> bool" where
  "is_head (FxHead _) = True"
| "is_head _ = False"

definition requests :: "('s, 'e) effect list \<Rightarrow> nat" where
  "requests tr = length (filter is_request tr)"

definition heads :: "('s, 'e) effect list \<Rightarrow> nat" where
  "heads tr = length (filter is_head tr)"

definition disconnected :: "('s, 'e) effect list \<Rightarrow> bool" where
  "disconnected tr = list_ex is_disconnect tr"

text \<open>
  A good trace, newest effect first: no work after a disconnect was announced, and before that
  requests and response heads alternate.
\<close>

fun trace_ok :: "('s, 'e) effect list \<Rightarrow> bool" where
  "trace_ok [] = True"
| "trace_ok (f # tr) \<longleftrightarrow>
     trace_ok tr \<and> (disconnected tr \<longrightarrow> \<not> is_work f) \<and>
     (disconnected (f # tr) \<or> heads (f # tr) \<le> requests (f # tr) \<and> requests (f # tr) \<le> heads (f # tr) + 1)"

definition decoder_ok :: "('s, 'e) dispatcher_env \<Rightarrow> ('s, 'e) dispatcher_inner \<Rightarrow> bool" where
  "decoder_ok env d = md_inv (dv_parse env) (request_reader (dv_parse env) (dv_pool env)) (hc_decoder (di_codec d))"

text \<open>
  \<open>soft\<close>: at most payload bookkeeping and disconnects happened, and nothing the next iteration relies
  on was lost. \<open>calm\<close>: in addition no disconnect was announced. \<open>closing\<close>: one has been.
\<close>

definition soft :: "('s, 'e) dispatcher_env \<Rightarrow> ('s, 'e) dispatcher_inner \<Rightarrow> ('s, 'e) dispatcher_inner \<Rightarrow> bool" where
  "soft env d d' \<longleftrightarrow>
     (\<exists>es. di_trace d' = es @ di_trace d \<and> list_all (\<lambda>f. quiet f \<or> is_disconnect f) es \<and>
        (sent d' \<longleftrightarrow> sent d \<or> disconnected es)) \<and>
     (\<not> sent d' \<longrightarrow> decoder_ok env d \<longrightarrow> decoder_ok env d') \<and>
     (date_wf (di_date d) \<longrightarrow> date_wf (di_date d'))"

definition calm :: "('s, 'e) dispatcher_env \<Rightarrow> ('s, 'e) dispatcher_inner \<Rightarrow> ('s, 'e) dispatcher_inner \<Rightarrow> bool" where
  "calm env d d' \<longleftrightarrow> soft env d d' \<and> sent d' = sent d"

fun closing_state :: "('s, 'e) dispatcher_state \<Rightarrow> bool" where
  "closing_state (StCallControl (CtlDisconnect _)) = True"
| "closing_state StStop = True"
| "closing_state _ = False"

definition closing ::
  "('s, 'e) dispatcher_env \<Rightarrow> ('s, 'e) dispatcher_inner \<Rightarrow> ('s, 'e) dispatcher_state \<Rightarrow> ('s, 'e) dispatcher_inner \<Rightarrow> bool" where
  "closing env d st d' \<longleftrightarrow> soft env d d' \<and> sent d' \<and> closing_state st"

lemma trace_counts [simp]:
  "requests [] = 0" "heads [] = 0" "\<not> disconnected []"
  "requests (f # tr) = (if is_request f then 1 else 0) + requests tr"
  "heads (f # tr) = (if is_head f then 1 else 0) + heads tr"
  "disconnected (f # tr) \<longleftrightarrow> is_disconnect f \<or> disconnected tr"
  "requests (es @ tr) = requests es + requests tr" "heads (es @ tr) = heads es + heads tr"
  "disconnected (es @ tr) \<longleftrightarrow> disconnected es \<or> disconnected tr"
  by (simp_all add: requests_def heads_def disconnected_def)

lemma soft_effect:
  assumes "quiet f \<or> is_disconnect f"
  shows "\<not> is_work f" "\<not> is_request f" "\<not> is_head f"
  using assms by (cases f rule: is_work.cases; auto)+

lemma trace_ok_soft:
  assumes "list_all (\<lambda>f. quiet f \<or> is_disconnect f) es"
  shows "requests es = 0" "heads es = 0"
    and "trace_ok tr \<Longrightarrow> heads tr \<le> requests tr \<and> requests tr \<le> heads tr + 1 \<or> disconnected tr \<Longrightarrow> trace_ok (es @ tr)"
proof -
  show counts: "requests es = 0" "heads es = 0"
    using assms soft_effect by (auto simp: requests_def heads_def filter_empty_conv list_all_iff)
  assume "trace_ok tr" "heads tr \<le> requests tr \<and> requests tr \<le> heads tr + 1 \<or> disconnected tr"
  with assms show "trace_ok (es @ tr)"
  proof (induction es)
    case (Cons f es)
    then have "requests es = 0" "heads es = 0" using soft_effect
      by (auto simp: requests_def heads_def filter_empty_conv list_all_iff)
    with Cons soft_effect [of f] show ?case by auto
  qed simp
qed

lemma soft_trans:
  assumes "soft env d d1" "soft env d1 d2"
  shows "soft env d d2"
proof -
  obtain es where e: "di_trace d1 = es @ di_trace d" "list_all (\<lambda>f. quiet f \<or> is_disconnect f) es" "sent d1 \<longleftrightarrow> sent d \<or> disconnected es"
    using assms(1) unfolding soft_def by blast
  obtain es' where e': "di_trace d2 = es' @ di_trace d1" "list_all (\<lambda>f. quiet f \<or> is_disconnect f) es'" "sent d2 \<longleftrightarrow> sent d1 \<or> disconnected es'"
    using assms(2) unfolding soft_def by blast
  from e e' have "di_trace d2 = (es' @ es) @ di_trace d \<and> list_all (\<lambda>f. quiet f \<or> is_disconnect f) (es' @ es) \<and>
      (sent d2 \<longleftrightarrow> sent d \<or> disconnected (es' @ es))"
    by auto
  with assms show ?thesis
    unfolding soft_def by blast
qed

lemma soft_same:
  assumes "di_trace d' = di_trace d" "sent d' = sent d" "hc_decoder (di_codec d') = hc_decoder (di_codec d)" "di_date d' = di_date d"
  shows "soft env d d'"
  using assms unfolding soft_def by (intro conjI exI [of _ "[]"]) (auto simp: decoder_ok_def)

lemma calm_same:
  assumes "di_trace d' = di_trace d" "sent d' = sent d" "hc_decoder (di_codec d') = hc_decoder (di_codec d)" "di_date d' = di_date d"
  shows "calm env d d'"
  using assms by (simp add: calm_def soft_same)

lemma calm_refl [simp]: "calm env d d"
  by (simp add: calm_same)

lemma calm_trans: "calm env d d1 \<Longrightarrow> calm env d1 d2 \<Longrightarrow> calm env d d2"
  by (auto simp: calm_def intro: soft_trans)

lemma calm_closing: "calm env d d1 \<Longrightarrow> closing env d1 st d2 \<Longrightarrow> closing env d st d2"
  by (auto simp: calm_def closing_def intro: soft_trans)

lemma calm_soft: "calm env d d' \<Longrightarrow> soft env d d'"
  by (simp add: calm_def)

lemmas sent_defs = sent_def inner_defs flag_simps

lemma calm_emit: "quiet f \<Longrightarrow> calm env d (emit f d)"
  unfolding calm_def soft_def emit_def
  by (cases f) (auto simp: sent_def di_has_def decoder_ok_def)

section \<open>What each function of the dispatcher does to the connection\<close>

lemma update_payload_timer_calm: "update_payload_timer env de d = Some d' \<Longrightarrow> calm env d d'"
  by (auto simp: update_payload_timer_def sent_defs intro!: calm_same split: if_splits option.splits)

lemma handle_timeout_calm: "handle_timeout env d = Some (r, d') \<Longrightarrow> calm env d d'"
  by (auto simp: handle_timeout_def sent_defs Let_def bind_eq_Some_conv intro!: calm_same split: if_splits option.splits)

lemma calm_io: "calm env d (with_io io d)"
  by (simp add: calm_same sent_defs)

lemma calm_io_payload: "calm env d ((with_io io d)\<lparr>di_payload := p\<rparr>)"
  by (simp add: calm_same sent_defs)

lemma calm_payload: "calm env d (d\<lparr>di_payload := p\<rparr>)"
  by (simp add: calm_same sent_defs)

lemma calm_remove_pl: "calm env d (di_remove READ_PL_TIMEOUT d)"
  by (simp add: calm_same sent_defs)

lemma calm_set_payload_error: "calm env d (set_payload_error e d)"
  by (simp add: calm_same sent_defs)

lemma payload_turn_calm:
  assumes "payload_turn env pd ch d = Some (t, item, d')"
  shows "calm env d d'"
  using assms
proof (cases rule: payload_turn_cases)
  case (decoded de pd' io d1)
  have "calm env d d1"
    using calm_trans [OF calm_io_payload update_payload_timer_calm [OF decoded(2)]] .
  moreover have "calm env d1 d'"
    using decoded(3)
    by (auto split: option.splits payload_item.splits
        intro: calm_payload calm_trans [OF calm_remove_pl calm_trans [OF calm_emit calm_payload]])
  ultimately show ?thesis by (rule calm_trans)
next
  case (flush pd' io r io')
  then show ?thesis by (simp add: calm_io_payload)
next
  case (timeout pd' io r)
  then show ?thesis by (blast intro: calm_trans [OF calm_io_payload handle_timeout_calm])
next
  case (failed pd' io e)
  then show ?thesis by (blast intro: calm_trans [OF calm_io_payload calm_set_payload_error])
qed

lemma payload_loop_calm:
  "payload_loop env updated d = Some (r, d') \<Longrightarrow> calm env d d'"
proof (induction "events_left d" arbitrary: d updated rule: less_induct)
  case less
  from less.prems obtain pd ch where p: "di_payload d = Some (pd, ch)"
    by (auto simp: payload_loop.simps [of env updated d] split: option.splits)
  from less.prems obtain t item d1 where turn: "payload_turn env pd ch d = Some (t, item, d1)"
    by (auto simp: payload_loop_eq [OF p] split: option.splits)
  note calm = payload_turn_calm [OF turn]
  show ?case
  proof (cases t)
    case PlContinue
    from less.prems have "payload_loop env (updated \<or> item) d1 = Some (r, d')"
      by (simp add: payload_loop_eq [OF p] turn PlContinue)
    from less.hyps [OF payload_turn_continue(1) [OF turn [unfolded PlContinue]] this] calm show ?thesis
      by (blast intro: calm_trans)
  qed (use less.prems calm in \<open>simp_all add: payload_loop_eq [OF p] turn\<close>)
qed

lemma poll_request_payload_inner_calm:
  "poll_request_payload_inner env d = Some (r, d') \<Longrightarrow> calm env d d'"
  unfolding poll_request_payload_inner_def
  by (auto simp: Let_def sent_defs intro: calm_same calm_payload
      dest!: payload_loop_calm calm_trans [OF calm_payload]
      split: option.splits prod.splits poll.splits chan_status.splits if_splits)

lemma h1_control_call_closing:
  assumes "h1_control_call (CtlDisconnect reason) (di_insert DISCONNECT_SENT d) = (st, d')"
  shows "closing env d st d'"
  using assms unfolding closing_def soft_def h1_control_call_def
  by (auto simp: sent_defs decoder_ok_def)

lemma ctl_closing:
  "ctl_keepalive b d = (st, d') \<Longrightarrow> closing env d st d'"
  "ctl_error env2 err d = (st, d') \<Longrightarrow> closing env d st d'"
  "ctl_proto_err perr d = (st, d') \<Longrightarrow> closing env d st d'"
  "ctl_peer_gone ioerr d = (st, d') \<Longrightarrow> closing env d st d'"
  by (auto simp: ctl_keepalive_def ctl_error_def ctl_proto_err_def ctl_peer_gone_def ctl_keepalive_msg_def ctl_err_def
      ctl_proto_err_msg_def ctl_peer_gone_msg_def dest: h1_control_call_closing)

lemma calm_ctl_closing:
  "calm env d d1 \<Longrightarrow> ctl_proto_err perr d1 = (st, d') \<Longrightarrow> closing env d st d'"
  "calm env d d1 \<Longrightarrow> ctl_peer_gone ioerr d1 = (st, d') \<Longrightarrow> closing env d st d'"
  by (blast intro: calm_closing ctl_closing)+

lemma stop_closing: "stop d = (st, d') \<Longrightarrow> sent d \<Longrightarrow> closing env d st d'"
  by (auto simp: stop_def closing_def sent_defs intro!: soft_same)

lemma ctl_svc_disconnect_closing: "ctl_svc_disconnect reason d = (st, d') \<Longrightarrow> closing env d st d'"
  by (auto simp: ctl_svc_disconnect_def ctl_svc_disconnect_msg_def sent_def split: if_splits
      dest: h1_control_call_closing stop_closing)

lemma check_disconnect_cases:
  assumes "check_disconnect d = (r, d')"
  shows "case r of None \<Rightarrow> d' = d \<and> \<not> sent d | Some st \<Rightarrow> closing env d st d'"
proof (cases "sent d")
  case True
  with assms stop_closing [of d] show ?thesis
    by (cases "stop d") (auto simp: check_disconnect_def sent_def)
next
  case False
  have *: "calm env d (d\<lparr>di_disconnect := None\<rparr>)" by (simp add: calm_same sent_defs)
  from False assms show ?thesis
    by (auto simp: check_disconnect_def sent_def ctl_svc_disconnect_msg_def map_prod_def split: option.splits prod.splits
        intro: calm_closing [OF *] h1_control_call_closing)
qed

lemma poll_request_payload_cases:
  assumes "poll_request_payload env d = Some (r, d')"
  shows "case r of Ready (Some st) \<Rightarrow> closing env d st d' | _ \<Rightarrow> calm env d d'"
proof -
  from assms obtain q d1 where q: "poll_request_payload_inner env d = Some (q, d1)"
    by (auto simp: poll_request_payload_def bind_eq_Some_conv)
  note calm = poll_request_payload_inner_calm [OF q]
  from assms q calm show ?thesis
    by (auto simp: poll_request_payload_def map_prod_def split: poll.splits sum.splits option.splits prod.splits
        intro: calm_closing [OF calm] ctl_closing)
qed

lemma poll_request_cases:
  assumes "poll_request env d = Some (r, d')"
  shows "case r of Ready st \<Rightarrow> closing env d st d' | Pending \<Rightarrow> calm env d d'"
proof (cases "di_payload d")
  case None
  with assms show ?thesis
    by (auto simp: poll_request_def map_prod_def split: prod.splits poll.splits status_update.splits
        intro: calm_io calm_closing [OF calm_io] ctl_closing)
next
  case (Some p)
  with assms obtain q d1 where q: "poll_request_payload env d = Some (q, d1)"
    by (auto simp: poll_request_def bind_eq_Some_conv)
  from poll_request_payload_cases [OF q] assms Some q show ?thesis
    by (auto simp: poll_request_def split: poll.splits option.splits)
qed

lemma update_hdrs_timer_cases:
  assumes "update_hdrs_timer de d = (r, d')"
  shows "case r of None \<Rightarrow> calm env d d' | Some st \<Rightarrow> closing env d st d'"
proof (cases r)
  case None
  with assms show ?thesis
    by (auto simp: update_hdrs_timer_def sent_defs map_prod_def intro!: calm_same split: if_splits option.splits prod.splits)
next
  case (Some st)
  with assms show ?thesis
    by (auto simp: update_hdrs_timer_def map_prod_def split: if_splits option.splits prod.splits
        intro: calm_closing [OF calm_io] ctl_closing)
qed

text \<open>A decoder that has succeeded can be used again; encoding does not touch it.\<close>

lemma hc_decode_keeps:
  assumes "hc_decode penv pool c src = Some (Inr r, c', src')" "md_inv penv (request_reader penv pool) (hc_decoder c)"
  shows "md_inv penv (request_reader penv pool) (hc_decoder c')"
proof -
  have "hc_decoder c' = d" if "hc_request (c\<lparr>hc_decoder := d\<rparr>) req pl = (head, c')" for d req pl head
    using that by (auto simp: hc_request_def hc_insert_flags_def Let_def split: payload_type.splits)
  with assms(1) obtain res where "md_decode penv (request_reader penv pool) (hc_decoder c) src = Some (Inr res, hc_decoder c', src')"
    by (fastforce simp: hc_decode_def simp del: get_message.simps split: option.splits sum.splits prod.splits)
  from rq_decoder_keeps [OF this assms(2)] show ?thesis .
qed

abbreviation codec_recv where
  "codec_recv env d \<equiv> io_recv (hc_decode (dv_parse env) (dv_pool env)) (di_codec d) (di_io d)"

lemma codec_recv_calm:
  assumes "codec_recv env d = Some (r, codec, io)" "\<forall>e. r \<noteq> Inl (RvDecoder e)" "decoder_ok env d"
  shows "calm env d ((with_io io d)\<lparr>di_codec := codec\<rparr>)"
proof -
  have "md_inv (dv_parse env) (request_reader (dv_parse env) (dv_pool env)) (hc_decoder codec)"
    using assms hc_decode_keeps [of "dv_parse env" "dv_pool env" "di_codec d"]
    by (auto simp: io_recv_def decoder_ok_def Let_def simp del: get_message.simps
        split: list.splits io_event.splits option.splits sum.splits)
  then show ?thesis
    unfolding calm_def soft_def by (auto simp: sent_defs decoder_ok_def disconnected_def)
qed

definition started ::
  "('s, 'e) dispatcher_env \<Rightarrow> ('s, 'e) dispatcher_inner \<Rightarrow> ('s, 'e) dispatcher_state \<Rightarrow> ('s, 'e) dispatcher_inner \<Rightarrow> bool" where
  "started env d st d' \<longleftrightarrow>
     (\<exists>d1 req. calm env d d1 \<and> st = StCallControl (CtlRequest req) \<and> di_trace d' = FxControl (CtlRequest req) # di_trace d1 \<and>
        sent d' = sent d1 \<and> di_codec d' = di_codec d1 \<and> di_date d' = di_date d1)"

lemma start_request_started: "start_request env head pl d = (st, d') \<Longrightarrow> started env d st d'"
  unfolding started_def start_request_def
  by (intro exI [of _ d])
    (auto simp: h1_control_call_def ctl_request_def Let_def sent_defs split: payload_type.splits)

lemma calm_started: "calm env d d1 \<Longrightarrow> started env d1 st d2 \<Longrightarrow> started env d st d2"
  unfolding started_def by (blast intro: calm_trans)

definition read_outcome ::
  "('s, 'e) dispatcher_env \<Rightarrow> ('s, 'e) dispatcher_inner \<Rightarrow> ('s, 'e) dispatcher_state poll \<Rightarrow> ('s, 'e) dispatcher_inner \<Rightarrow> bool" where
  "read_outcome env d r d' \<longleftrightarrow>
     (case r of Pending \<Rightarrow> calm env d d' | Ready st \<Rightarrow> closing env d st d' \<or> started env d st d')"

lemma calm_read_outcome: "calm env d d1 \<Longrightarrow> read_outcome env d1 r d' \<Longrightarrow> read_outcome env d r d'"
  by (auto simp: read_outcome_def split: poll.splits intro: calm_trans calm_closing calm_started)

text \<open>\<^verbatim>\<open>poll_read_request\<close> after \<^verbatim>\<open>poll_recv_decode\<close> has answered; \<open>d0\<close> is the state before.\<close>

definition after_recv ::
  "('s, 'e) dispatcher_env \<Rightarrow> ('s, 'e) dispatcher_inner \<Rightarrow> recv_error + (request_head \<times> payload_type) decoded \<Rightarrow>
   ('s, 'e) dispatcher_inner \<Rightarrow> (('s, 'e) dispatcher_state poll \<times> ('s, 'e) dispatcher_inner) option" where
  "after_recv env d0 r d =
     (case r of
        Inr decoded \<Rightarrow>
          (case update_hdrs_timer decoded d of
             (Some st, d') \<Rightarrow> Some (Ready st, d')
           | (None, d') \<Rightarrow>
               (case de_item decoded of
                  None \<Rightarrow> Some (Pending, d')
                | Some (head, pl) \<Rightarrow> Some (map_prod Ready id (start_request env head pl d'))))
      | Inl RvWriteBackpressure \<Rightarrow>
          (case io_poll_flush (di_io d) of
             (Pending, io) \<Rightarrow> Some (Pending, with_io io d)
           | (Ready (Inl e), io) \<Rightarrow> Some (map_prod Ready id (ctl_peer_gone (Some e) (with_io io d)))
           | (Ready (Inr _), io) \<Rightarrow>
               if events_left d < events_left d0 then poll_read_request env (with_io io d) else None)
      | Inl (RvDecoder err) \<Rightarrow> Some (map_prod Ready id (ctl_proto_err (HpDecode err) d))
      | Inl (RvPeerGone err) \<Rightarrow> Some (map_prod Ready id (ctl_peer_gone err d))
      | Inl RvKeepAlive \<Rightarrow>
          (if di_has d READ_HDRS_TIMEOUT then
             case handle_timeout env d of
               None \<Rightarrow> None
             | Some (Inl err, d') \<Rightarrow> Some (map_prod Ready id (ctl_proto_err err d'))
             | Some (Inr _, d') \<Rightarrow> if events_left d' < events_left d0 then poll_read_request env d' else None
           else Some (map_prod Ready id (ctl_keepalive True d))))"

lemma poll_read_request_recv:
  "poll_read_request env d =
     (if di_shutdown d then Some (map_prod Ready id (ctl_svc_disconnect SdShutdown d))
      else case codec_recv env d of
        None \<Rightarrow> None
      | Some (r, codec, io) \<Rightarrow> after_recv env d r ((with_io io d)\<lparr>di_codec := codec\<rparr>))"
  by (subst poll_read_request.simps)
    (auto simp: after_recv_def Let_def split: option.split sum.split recv_error.split)

lemma decoder_error_closing:
  assumes "ctl_proto_err e ((with_io io d)\<lparr>di_codec := codec\<rparr>) = (st, d')"
  shows "closing env d st d'"
  using assms unfolding ctl_proto_err_def ctl_proto_err_msg_def h1_control_call_def closing_def soft_def
  by (auto simp: sent_defs)

lemma after_recv_outcome:
  assumes "after_recv env d0 q d = Some (r, d')" "\<forall>e. q \<noteq> Inl (RvDecoder e)" "calm env d0 d"
    and again: "\<And>d2. poll_read_request env d2 = Some (r, d') \<Longrightarrow> events_left d2 < events_left d0 \<Longrightarrow>
      calm env d0 d2 \<Longrightarrow> read_outcome env d2 r d'"
  shows "read_outcome env d0 r d'"
proof -
  have again: "read_outcome env d0 r d'" if "poll_read_request env d2 = Some (r, d')" "events_left d2 < events_left d0" "calm env d d2" for d2
    using again [OF that(1,2)] that(3) assms(3) by (blast intro: calm_trans calm_read_outcome)
  have "read_outcome env d r d' \<or> read_outcome env d0 r d'"
  proof (cases q)
    case (Inr de)
    obtain o1 d2 where u: "update_hdrs_timer de d = (o1, d2)" by (cases "update_hdrs_timer de d")
    note update_hdrs_timer_cases [OF u, of env]
    with assms(1) Inr u show ?thesis
      by (auto simp: after_recv_def read_outcome_def map_prod_def split: option.splits prod.splits
          dest!: start_request_started dest: calm_started)
  next
    case (Inl e)
    show ?thesis
    proof (cases e)
      case RvWriteBackpressure
      obtain fr io' where f: "io_poll_flush (di_io d) = (fr, io')" by (cases "io_poll_flush (di_io d)")
      have ev: "events_left (with_io io' d) = events_left d"
        using io_poll_flush_eqD [OF f] by (simp add: events_left_def)
      note again [OF _ _ calm_io, of io', unfolded ev]
      with assms(1) Inl RvWriteBackpressure f calm_io [of env d io'] show ?thesis
        by (auto simp: after_recv_def read_outcome_def map_prod_def split: poll.splits sum.splits prod.splits if_splits
            intro: calm_closing ctl_closing)
    next
      case RvKeepAlive
      with assms(1) Inl again show ?thesis
        by (auto simp: after_recv_def read_outcome_def map_prod_def split: if_splits option.splits sum.splits prod.splits
            dest!: handle_timeout_calm intro: calm_ctl_closing ctl_closing)
    next
      case (RvPeerGone x)
      with assms(1) Inl show ?thesis
        by (auto simp: after_recv_def read_outcome_def map_prod_def split: prod.splits intro: ctl_closing)
    qed (use assms(2) Inl in blast)
  qed
  with assms(3) show ?thesis by (blast intro: calm_read_outcome)
qed

lemma poll_read_request_outcome:
  "poll_read_request env d = Some (r, d') \<Longrightarrow> decoder_ok env d \<Longrightarrow> \<not> sent d \<Longrightarrow> read_outcome env d r d'"
proof (induction "events_left d" arbitrary: d rule: less_induct)
  case less
  show ?case
  proof (cases "di_shutdown d")
    case True
    with less.prems show ?thesis
      by (cases "ctl_svc_disconnect SdShutdown d")
        (auto simp: poll_read_request_recv [of env d] read_outcome_def dest: ctl_svc_disconnect_closing)
  next
    case False
    with less.prems obtain q codec io where recv: "codec_recv env d = Some (q, codec, io)"
      and rest: "after_recv env d q ((with_io io d)\<lparr>di_codec := codec\<rparr>) = Some (r, d')"
      by (auto simp: poll_read_request_recv [of env d] split: option.splits)
    show ?thesis
    proof (cases "\<exists>e. q = Inl (RvDecoder e)")
      case True
      with rest show ?thesis
        by (auto simp: after_recv_def read_outcome_def map_prod_def split: prod.splits dest: decoder_error_closing)
    next
      case ok: False
      show ?thesis
      proof (rule after_recv_outcome [OF rest])
        show "\<forall>e. q \<noteq> Inl (RvDecoder e)" using ok by blast
        then show "calm env d ((with_io io d)\<lparr>di_codec := codec\<rparr>)"
          by (rule codec_recv_calm [OF recv _ less.prems(2)])
        fix d2
        assume "poll_read_request env d2 = Some (r, d')" "events_left d2 < events_left d" "calm env d d2"
        moreover from this(3) less.prems(2,3) have "decoder_ok env d2" "\<not> sent d2" by (auto simp: calm_def soft_def)
        ultimately show "read_outcome env d2 r d'" using less.hyps by blast
      qed
    qed
  qed
qed

text \<open>Encoding.\<close>

lemma hc_encodev_keeps:
  assumes "hc_encodev ee ds c item dst = Some (r, c', out, ds')"
  shows "hc_decoder c' = hc_decoder c" "date_wf ds \<Longrightarrow> date_wf ds'"
proof -
  show "hc_decoder c' = hc_decoder c"
    using assms by (auto simp: hc_encodev_def split: h1_message.splits option.splits prod.splits sum.splits
        dest: hc_encode_item_Some(5))
  show "date_wf ds \<Longrightarrow> date_wf ds'"
    using assms
    by (auto simp: hc_encodev_def hc_encode_item_def me_encode_def encode_headers_def set_date_header_def Let_def
        split: h1_message.splits option.splits prod.splits sum.splits if_splits dest: check_date_wf)
qed

lemma io_encode_calm:
  assumes "io_encode env msg d = Some (r, d')"
  shows "calm env d d'"
proof -
  from assms obtain codec out ds where e: "hc_encodev (dv_enc env) (di_date d) (di_codec d) msg (ci_out (di_io d)) = Some (r, codec, out, ds)"
    and d': "d' = d\<lparr>di_codec := codec, di_io := (di_io d)\<lparr>ci_out := out\<rparr>, di_date := ds\<rparr>"
    by (auto simp: io_encode_def)
  from hc_encodev_keeps [OF e] d' show ?thesis
    unfolding calm_def soft_def by (auto simp: sent_defs decoder_ok_def disconnected_def)
qed

text \<open>A response head was written: one more head on the trace, nothing else.\<close>

definition answered :: "('s, 'e) dispatcher_env \<Rightarrow> ('s, 'e) dispatcher_inner \<Rightarrow> ('s, 'e) dispatcher_inner \<Rightarrow> bool" where
  "answered env d d' \<longleftrightarrow>
     (\<exists>d1 h. calm env d d1 \<and> di_trace d' = FxHead h # di_trace d1 \<and> sent d' = sent d1 \<and> di_codec d' = di_codec d1 \<and> di_date d' = di_date d1)"

fun idle :: "('s, 'e) dispatcher_state \<Rightarrow> bool" where
  "idle StReadRequest = True"
| "idle StReadPayload = True"
| "idle _ = False"

lemma after_response_cases:
  assumes "after_response d = (st, d')"
  shows "closing env d st d' \<or> d' = d \<and> \<not> sent d \<and> idle st"
  using assms check_disconnect_cases [of d _ _ env]
  by (cases "check_disconnect d") (fastforce simp: after_response_def split: option.splits if_splits)

lemma send_response_cases:
  assumes "send_response env msg body d = Some (st, d')"
  shows "closing env d st d' \<or>
    (\<exists>d1. answered env d d1 \<and> (closing env d1 st d' \<or> d' = d1 \<and> (\<not> sent d1 \<and> idle st \<or> (\<exists>b. st = StSendPayload b))))"
proof (cases "ci_closed (di_io d)")
  case True
  with assms show ?thesis by (auto simp: send_response_def Let_def intro: ctl_closing)
next
  case False
  define head where "head = (if (case di_payload d of Some (_, ch) \<Rightarrow> ch_closed ch | None \<Rightarrow> False)
      then rs_set_connection_type Close (rp_head msg) else rp_head msg)"
  from False assms obtain r d1 where enc: "io_encode env (MItem (head, rb_size body)) d = Some (r, d1)"
    by (auto simp: send_response_def Let_def bind_eq_Some_conv head_def)
  note calm = io_encode_calm [OF enc]
  show ?thesis
  proof (cases r)
    case (Inl err)
    from False assms enc Inl have "ctl_proto_err (HpEncode err) (set_payload_error (PeIncomplete None) d1) = (st, d')"
      by (simp add: send_response_def Let_def flip: head_def)
    with calm_ctl_closing(1) [OF calm_trans [OF calm calm_set_payload_error]] show ?thesis by blast
  next
    case (Inr u)
    let ?d = "emit (FxHead head) d1"
    have "answered env d ?d"
      unfolding answered_def using calm by (intro exI [of _ d1]) (auto simp: emit_def sent_def di_has_def)
    moreover from False assms enc Inr have "after_response ?d = (st, d') \<or> st = StSendPayload body \<and> d' = ?d"
      by (auto simp: send_response_def Let_def simp flip: head_def split: body_size.splits)
    ultimately show ?thesis using after_response_cases [of ?d st d' env] by blast
  qed
qed

text \<open>Sending a body: it goes on, or the connection is idle again, or it closes.\<close>

definition sending ::
  "('s, 'e) dispatcher_env \<Rightarrow> ('s, 'e) dispatcher_inner \<Rightarrow> ('s, 'e) dispatcher_state poll \<Rightarrow> ('s, 'e) dispatcher_inner \<Rightarrow> bool" where
  "sending env d r d' \<longleftrightarrow>
     soft env d d' \<and> (case r of Pending \<Rightarrow> True | Ready st \<Rightarrow> sent d' \<and> closing_state st \<or> \<not> sent d' \<and> idle st)"

lemma soft_sending: "soft env d d1 \<Longrightarrow> sending env d1 r d2 \<Longrightarrow> sending env d r d2"
  by (auto simp: sending_def intro: soft_trans)

lemma closing_sending: "closing env d st d' \<Longrightarrow> sending env d (Ready st) d'"
  by (simp add: closing_def sending_def)

lemma send_loop_sending:
  "send_loop env body d = Some (r, body', d') \<Longrightarrow> sending env d r d'"
proof (induction "rb_weight body" arbitrary: body d rule: less_induct)
  case less
  obtain fr io where f: "io_poll_flush (di_io d) = (fr, io)" by (cases "io_poll_flush (di_io d)")
  obtain c b' where b: "rb_poll_next_chunk body = (c, b')" by (cases "rb_poll_next_chunk body")
  note eq = less.prems [unfolded send_loop.simps [of env body d], simplified f b prod.case Let_def]
  have io: "calm env d (with_io io d)" by (rule calm_io)
  have enc: "calm env d d1" if "io_encode env m (with_io io d) = Some (q, d1)" for m q d1
    using calm_trans [OF io io_encode_calm [OF that]] .
  have proto: "sending env d (Ready st) d2" if "calm env d d1" "ctl_proto_err e d1 = (st, d2)" for d1 d2 e st
    using that by (blast intro: closing_sending calm_ctl_closing)
  have pending: "sending env d Pending d1" if "calm env d d1" for d1
    using that by (simp add: sending_def calm_def)
  show ?case
  proof (cases fr)
    case Pending
    with eq io show ?thesis by (auto intro: pending)
  next
    case (Ready x)
    show ?thesis
    proof (cases c)
      case Pending
      with eq Ready io show ?thesis by (auto intro: pending)
    next
      case c: (Ready y)
      consider "y = None" | e where "y = Some (Inl e)" | item where "y = Some (Inr item)"
        by (metis option.exhaust sum.exhaust)
      then show ?thesis
      proof cases
        case 1
        from eq Ready c 1 obtain q d1 where q: "io_encode env (MChunk None) (with_io io d) = Some (q, d1)"
          by (auto simp: bind_eq_Some_conv)
        have "sending env d (Ready st) d2" if "after_response d1 = (st, d2)" for st d2
          using after_response_cases [OF that, of env] enc [OF q]
          by (auto simp: sending_def calm_def closing_def intro: soft_trans)
        with eq Ready c 1 q enc [OF q] show ?thesis
          by (auto split: sum.splits prod.splits intro: proto)
      next
        case 2
        with eq Ready c io show ?thesis by (auto split: prod.splits intro: proto)
      next
        case 3
        from eq Ready c 3 obtain q d1 where q: "io_encode env (MChunk (Some item)) (with_io io d) = Some (q, d1)"
          by (auto simp: bind_eq_Some_conv)
        have "rb_weight b' < rb_weight body" using b c 3 by (auto dest: rb_poll_weight)
        with less.hyps [of b' d1] eq Ready c 3 q enc [OF q] show ?thesis
          by (auto split: sum.splits prod.splits intro: proto soft_sending calm_soft)
      qed
    qed
  qed
qed

lemma poll_send_payload_sending:
  assumes "poll_send_payload env body d = Some (r, body', d')"
  shows "sending env d r d'"
proof (cases "ci_closed (di_io d)")
  case True
  with assms show ?thesis
    by (auto simp: poll_send_payload_def split: prod.splits intro: closing_sending ctl_closing)
next
  case False
  show ?thesis
  proof (cases "di_disconnect d = None")
    case True
    with False assms obtain q d1 where q: "poll_request_payload env d = Some (q, d1)"
      and l: "send_loop env body (case q of Ready (Some _) \<Rightarrow> d1\<lparr>di_disconnect := Some SdPayloadDropped\<rparr> | _ \<Rightarrow> d1) = Some (r, body', d')"
      by (auto simp: poll_send_payload_def bind_eq_Some_conv)
    have "soft env d d1" using poll_request_payload_cases [OF q]
      by (auto simp: closing_def calm_def split: poll.splits option.splits)
    moreover have "soft env d1 (d1\<lparr>di_disconnect := Some SdPayloadDropped\<rparr>)" "soft env d1 d1"
      by (simp_all add: soft_same sent_defs)
    ultimately show ?thesis
      using send_loop_sending [OF l] by (auto split: poll.splits option.splits intro: soft_sending soft_trans)
  qed (use assms False in \<open>auto simp: poll_send_payload_def intro: send_loop_sending\<close>)
qed

section \<open>The invariant of a connection\<close>

fun busy :: "('s, 'e) dispatcher_state \<Rightarrow> bool" where
  "busy (StCallPublish _) = True"
| "busy (StCallControl (CtlRequest _)) = True"
| "busy (StCallControl (CtlUpgrade _ _ _)) = True"
| "busy (StCallControl (CtlExpect _)) = True"
| "busy _ = False"

fun sending_state :: "('s, 'e) dispatcher_state \<Rightarrow> bool" where
  "sending_state (StSendPayload _) = True"
| "sending_state _ = False"

text \<open>
  While no disconnect has been announced, the requests handed out are one more than the response heads
  written exactly while a request is being worked on.
\<close>

fun conn_inv :: "('s, 'e) dispatcher_env \<Rightarrow> ('s, 'e) dispatcher_state \<times> ('s, 'e) dispatcher_inner \<Rightarrow> bool" where
  "conn_inv env (st, d) \<longleftrightarrow>
     trace_ok (di_trace d) \<and> (disconnected (di_trace d) \<longleftrightarrow> sent d) \<and> date_wf (di_date d) \<and>
     (if sent d then closing_state st \<or> sending_state st
      else decoder_ok env d \<and> (busy st \<or> idle st \<or> sending_state st) \<and>
        requests (di_trace d) = heads (di_trace d) + (if busy st then 1 else 0))"

lemma conn_inv_new: "date_wf ds \<Longrightarrow> conn_inv env (dispatcher_new env con_id cfg ds io)"
  by (auto simp: dispatcher_new_def Let_def sent_defs decoder_ok_def hc_new_def md_inv_new fl_contains_def
      simp del: get_message.simps split: option.splits)

lemma conn_inv_soft:
  assumes "conn_inv env (st, d)" "soft env d d'"
    and "if sent d' then closing_state st' \<or> sending_state st'
      else (busy st' \<or> idle st' \<or> sending_state st') \<and> busy st' = busy st"
  shows "conn_inv env (st', d')"
proof -
  from assms(2) obtain es where es: "di_trace d' = es @ di_trace d" "list_all (\<lambda>f. quiet f \<or> is_disconnect f) es"
    "sent d' \<longleftrightarrow> sent d \<or> disconnected es"
    unfolding soft_def by blast
  have bal: "heads (di_trace d) \<le> requests (di_trace d) \<and> requests (di_trace d) \<le> heads (di_trace d) + 1 \<or> disconnected (di_trace d)"
  proof (cases "di_trace d")
    case (Cons f tr)
    with assms(1) show ?thesis by auto
  qed simp
  note ok = trace_ok_soft [OF es(2)]
  show ?thesis
    using assms es ok(1,2) ok(3) [OF _ bal] by (auto simp: soft_def split: if_splits)
qed

lemma conn_inv_closing: "conn_inv env (st, d) \<Longrightarrow> closing env d st' d' \<Longrightarrow> conn_inv env (st', d')"
  by (rule conn_inv_soft) (auto simp: closing_def)

lemma conn_inv_calm: "conn_inv env (st, d) \<Longrightarrow> calm env d d' \<Longrightarrow> conn_inv env (st, d')"
  by (rule conn_inv_soft) (auto simp: calm_def split: if_splits)

text \<open>The three effects that move a request on.\<close>

lemma conn_inv_started:
  assumes "conn_inv env (st, d)" "idle st" "started env d st' d'"
  shows "conn_inv env (st', d')"
proof -
  from assms(3) obtain d1 req where c: "calm env d d1" and e: "st' = StCallControl (CtlRequest req)"
    "di_trace d' = FxControl (CtlRequest req) # di_trace d1" "sent d' = sent d1" "di_codec d' = di_codec d1" "di_date d' = di_date d1"
    unfolding started_def by blast
  from assms(2) have "\<not> closing_state st" "\<not> sending_state st" "\<not> busy st" by (cases st; simp)+
  with conn_inv_calm [OF assms(1) c] e show ?thesis by (auto simp: decoder_ok_def split: if_splits)
qed

lemma conn_inv_work:
  assumes "conn_inv env (st, d)" "busy st" "busy st'"
    and "di_trace d' = f # di_trace d" "is_work f" "\<not> is_request f" "sent d' = sent d" "hc_decoder (di_codec d') = hc_decoder (di_codec d)"
    "di_date d' = di_date d"
  shows "conn_inv env (st', d')"
proof -
  from assms(2) have "\<not> closing_state st" "\<not> sending_state st" by (cases st rule: busy.cases; simp)+
  moreover have "\<not> is_head f" "\<not> is_disconnect f" using assms(5) by (cases f rule: is_work.cases; simp)+
  ultimately show ?thesis using assms by (auto simp: decoder_ok_def split: if_splits)
qed

lemma conn_inv_answered:
  assumes "conn_inv env (st, d)" "busy st \<or> sent d" "answered env d d'" "sent d' \<or> idle st' \<or> sending_state st'"
    "sent d' \<Longrightarrow> closing_state st' \<or> sending_state st'"
  shows "conn_inv env (st', d')"
proof -
  from assms(3) obtain d1 h where c: "calm env d d1" and e: "di_trace d' = FxHead h # di_trace d1" "sent d' = sent d1"
    "di_codec d' = di_codec d1" "di_date d' = di_date d1"
    unfolding answered_def by blast
  have "\<not> busy st'" if "idle st' \<or> sending_state st'" using that by (cases st' rule: busy.cases) auto
  moreover have "sent d1 = sent d" using c by (simp add: calm_def)
  ultimately show ?thesis
    using conn_inv_calm [OF assms(1) c] assms(2,4,5) e by (auto simp: decoder_ok_def split: if_splits)
qed

declare conn_inv.simps [simp del]

lemma send_response_inv:
  assumes "conn_inv env (st, d)" "busy st \<or> sent d" "send_response env msg body d = Some (st', d')"
  shows "conn_inv env (st', d')"
  using send_response_cases [OF assms(3)]
proof (elim disjE exE conjE)
  assume "closing env d st' d'"
  with assms(1) show ?thesis by (rule conn_inv_closing)
next
  fix d1
  assume a: "answered env d d1" and c: "closing env d1 st' d'"
  from conn_inv_answered [OF assms(1,2) a, of "StSendPayload undefined"] have "conn_inv env (StSendPayload undefined, d1)" by simp
  from conn_inv_closing [OF this c] show ?thesis .
next
  fix d1
  assume "answered env d d1" "d' = d1" "\<not> sent d1" "idle st'"
  with conn_inv_answered [OF assms(1,2), of d1 st'] show ?thesis by simp
next
  fix d1 b
  assume "answered env d d1" "d' = d1" "st' = StSendPayload b"
  with conn_inv_answered [OF assms(1,2), of d1 st'] show ?thesis by simp
qed

lemma conn_inv_disconnect [simp]: "conn_inv env (st, d\<lparr>di_disconnect := x\<rparr>) = conn_inv env (st, d)"
  by (simp add: conn_inv.simps sent_defs decoder_ok_def)

lemma conn_inv_control:
  assumes "conn_inv env (StCallControl ctl, d)"
  shows "sent d \<Longrightarrow> \<exists>reason. ctl = CtlDisconnect reason" "\<not> sent d \<Longrightarrow> busy (StCallControl ctl :: ('s, 'e) dispatcher_state)"
  using assms by (cases ctl; auto simp: conn_inv.simps split: if_splits)+

lemma publish_inv: "conn_inv env (st, d) \<Longrightarrow> busy st \<Longrightarrow> publish req d = (st', d') \<Longrightarrow> conn_inv env (st', d')"
  by (rule conn_inv_work [of env st d st' d' "FxPublish req"]) (auto simp: publish_def sent_defs)

lemma ctl_upgrade_inv:
  assumes "conn_inv env (st, d)" "busy st" "ctl_upgrade env req d = Some (st', d')"
  shows "conn_inv env (st', d')"
proof -
  from assms(3) obtain codec where "st' = StCallControl (CtlUpgrade req (dv_io env) codec)"
    "d' = emit (FxControl (CtlUpgrade req (dv_io env) codec)) (d\<lparr>di_codec := hc_reset_upgrade (di_codec d)\<rparr>)"
    by (auto simp: ctl_upgrade_def h1_control_call_def ctl_upgrade_msg_def Let_def)
  with assms(1,2) show ?thesis
    by (intro conn_inv_work [of env st d st' d' "FxControl (CtlUpgrade req (dv_io env) codec)"])
      (auto simp: hc_reset_upgrade_def sent_defs)
qed

lemma apply_result_inv:
  assumes inv: "conn_inv env (StCallControl ctl, d)" and ack: "acks pool ctl r" and res: "apply_result env s r d = Some (st', d')"
  shows "conn_inv env (st', d')"
proof -
  note ctl = conn_inv_control [OF inv]
  have busy: "busy (StCallControl ctl :: ('a, 'b) dispatcher_state)" if "r \<noteq> CrStop" "\<forall>x b. r \<noteq> CrError x b" "\<forall>x b. r \<noteq> CrProtocolError x b"
    using that ack ctl acks_disconnect by blast
  have send: "busy (StCallControl ctl :: ('a, 'b) dispatcher_state) \<or> sent d" using ctl by blast
  have inv': "conn_inv env (StCallControl ctl, d\<lparr>di_disconnect := x\<rparr>)" for x using inv by simp
  have send': "busy (StCallControl ctl :: ('a, 'b) dispatcher_state) \<or> sent (d\<lparr>di_disconnect := x\<rparr>)" for x
    using send by (simp add: sent_defs)
  show ?thesis
  proof (cases r)
    case (CrContinue req)
    let ?d = "d\<lparr>di_io := (di_io d)\<lparr>ci_out := ci_out (di_io d) @ CONTINUE\<rparr>\<rparr>"
    have "conn_inv env (StCallControl ctl, ?d)" by (rule conn_inv_calm [OF inv calm_io])
    note publish_inv [OF this] ctl_upgrade_inv [OF this]
    with res CrContinue busy show ?thesis
      by (auto simp: apply_result_def Let_def split: sum.splits if_splits intro: conn_inv_closing [OF inv ctl_closing(4)])
  next
    case (CrExpect req)
    with res busy show ?thesis
      by (intro conn_inv_work [OF inv, of _ _ "FxControl (CtlExpect req)"])
        (auto simp: apply_result_def h1_control_call_def ctl_expect_def sent_defs)
  next
    case CrStop
    then have "\<not> busy (StCallControl ctl :: ('a, 'b) dispatcher_state)"
      using ack by (auto elim!: acks.cases simp: answer_defs Let_def split: if_splits)
    then have "sent d" using ctl(2) by blast
    with res CrStop stop_closing [of d st' d' env] show ?thesis
      by (auto simp: apply_result_def intro: conn_inv_closing [OF inv])
  next
    case (CrUpgrade req)
    with res busy ctl_upgrade_inv [OF inv] show ?thesis by (auto simp: apply_result_def)
  next
    case (CrPublish req)
    with res busy publish_inv [OF inv] show ?thesis by (auto simp: apply_result_def)
  next
    case (CrUpgradeAck req)
    with res busy publish_inv [OF inv'] show ?thesis by (auto simp: apply_result_def)
  next
    case CrUpgradeHandled
    with res show ?thesis
      by (auto simp: apply_result_def intro: conn_inv_closing [OF inv ctl_svc_disconnect_closing])
  qed (use res send_response_inv [OF inv send] send_response_inv [OF inv' send'] in \<open>auto simp: apply_result_def\<close>)
qed

text \<open>An iteration of the loop that stays in \<^verbatim>\<open>poll\<close> or returns \<^verbatim>\<open>Pending\<close>, by the state it starts in.\<close>

definition leads ::
  "('s, 'e) dispatcher_env \<Rightarrow> 'e answers \<Rightarrow> ('s, 'e) dispatcher_state \<Rightarrow> ('s, 'e) dispatcher_inner \<Rightarrow>
   ('s, 'e) dispatcher_state \<Rightarrow> ('s, 'e) dispatcher_inner \<Rightarrow> bool" where
  "leads env an st d st' d' \<longleftrightarrow>
     dispatch env an st d = Some (Goto st', d') \<or> dispatch env an st d = Some (PollPending st', d')"

lemma publish_leads_inv:
  assumes inv: "conn_inv env (StCallPublish req, d)" and l: "leads env an (StCallPublish req) d st' d'"
  shows "conn_inv env (st', d')"
proof (cases "an_publish an")
  case Pending
  with l obtain r d1 where r: "poll_request env d = Some (r, d1)"
    by (auto simp: leads_def poll_publish_def bind_eq_Some_conv)
  note cases = poll_request_cases [OF r]
  have "conn_inv env (st', emit (FxSpawn req) d1)" if "conn_inv env (st', d1)"
    using conn_inv_calm [OF that calm_emit] by simp
  with l Pending r cases conn_inv_closing [OF inv, of st' d1] conn_inv_calm [OF inv, of d1] show ?thesis
    by (auto simp: leads_def poll_publish_def split: poll.splits if_splits)
next
  case (Ready x)
  show ?thesis
  proof (cases x)
    case (Inl e)
    with l Ready show ?thesis
      by (cases "ctl_error env e d")
        (auto simp: leads_def poll_publish_def go_def intro: conn_inv_closing [OF inv ctl_closing(2)])
  next
    case (Inr res)
    with l Ready have "send_response env (fst (rp_into_parts res)) (snd (rp_into_parts res)) d = Some (st', d')"
      by (auto simp: leads_def poll_publish_def go_def bind_eq_Some_conv case_prod_unfold Let_def)
    with send_response_inv [OF inv] show ?thesis by simp
  qed
qed

lemma control_leads_inv:
  assumes inv: "conn_inv env (StCallControl ctl, d)" and fit: "answers_fit pool (StCallControl ctl :: ('s, 'e) dispatcher_state) an"
    and l: "leads env an (StCallControl ctl :: ('s, 'e) dispatcher_state) d st' d'"
  shows "conn_inv env (st', d')"
proof (cases "an_control an")
  case Pending
  with l obtain r where "poll_request_payload_inner env d = Some (r, d')" "st' = StCallControl ctl"
    by (auto simp: leads_def poll_control_def bind_eq_Some_conv)
  with conn_inv_calm [OF inv] show ?thesis by (blast dest: poll_request_payload_inner_calm)
next
  case (Ready x)
  with l obtain r where "x = Inr r" "apply_result env (an_slice an) r d = Some (st', d')"
    by (cases x) (auto simp: leads_def poll_control_def go_def bind_eq_Some_conv)
  with fit Ready show ?thesis by (auto intro: apply_result_inv [OF inv])
qed

lemma read_request_leads_inv:
  assumes inv: "conn_inv env (StReadRequest, d)" and l: "leads env an StReadRequest d st' d'"
  shows "conn_inv env (st', d')"
proof -
  have ok: "decoder_ok env d" "\<not> sent d" using inv by (auto simp: conn_inv.simps split: if_splits)
  obtain c d1 where c: "check_disconnect d = (c, d1)" by (cases "check_disconnect d")
  note cc = check_disconnect_cases [OF c, of env]
  show ?thesis
  proof (cases c)
    case None
    with cc have "d1 = d" by simp
    with l c None obtain r d2 where r: "poll_read_request env d = Some (r, d2)"
      by (auto simp: leads_def go_def bind_eq_Some_conv)
    with l c None \<open>d1 = d\<close> have "d2 = d'" "r = Pending \<and> st' = StReadRequest \<or> r = Ready st'"
      by (auto simp: leads_def go_def split: poll.splits)
    with r poll_read_request_outcome [OF _ ok] show ?thesis
      by (fastforce simp: read_outcome_def intro: conn_inv_calm [OF inv] conn_inv_closing [OF inv] conn_inv_started [OF inv])
  next
    case (Some st2)
    with cc l c show ?thesis by (auto simp: leads_def go_def intro: conn_inv_closing [OF inv])
  qed
qed

lemma read_payload_leads_inv:
  assumes inv: "conn_inv env (StReadPayload, d)" and l: "leads env an StReadPayload d st' d'"
  shows "conn_inv env (st', d')"
proof -
  from l obtain r d1 where r: "poll_request_payload env d = Some (r, d1)"
    by (auto simp: leads_def bind_eq_Some_conv)
  obtain c d2 where c: "check_disconnect d1 = (c, d2)" by (cases "check_disconnect d1")
  note rc = poll_request_payload_cases [OF r] and cc = check_disconnect_cases [OF c, of env]
  have s: "soft env d d1" using rc by (auto simp: closing_def calm_def split: poll.splits option.splits)
  show ?thesis
  proof (cases c)
    case None
    with cc have "d2 = d1" "\<not> sent d1" by simp_all
    with rc l r c None have "d' = d1" "idle st'"
      by (auto simp: leads_def go_def closing_def split: poll.splits option.splits)
    moreover from \<open>idle st'\<close> have "\<not> busy st'" by (cases st') auto
    ultimately show ?thesis using conn_inv_soft [OF inv s, of st'] \<open>\<not> sent d1\<close> by simp
  next
    case (Some st2)
    with l r c have "st' = st2" "d' = d2" by (auto simp: leads_def go_def)
    moreover have "closing env d st2 d2" using cc Some s by (auto simp: closing_def intro: soft_trans)
    ultimately show ?thesis by (simp add: conn_inv_closing [OF inv])
  qed
qed

lemma send_payload_leads_inv:
  assumes inv: "conn_inv env (StSendPayload body, d)" and l: "leads env an (StSendPayload body) d st' d'"
  shows "conn_inv env (st', d')"
proof -
  from l obtain r body' d1 where p: "poll_send_payload env body d = Some (r, body', d1)"
    by (auto simp: leads_def go_def bind_eq_Some_conv)
  with l have r: "poll_send_payload env body d = Some (r, body', d')" "r = Pending \<and> st' = StSendPayload body' \<or> r = Ready st'"
    by (auto simp: leads_def go_def split: poll.splits)
  have "\<not> busy st'" if "idle st'" using that by (cases st') auto
  with poll_send_payload_sending [OF r(1)] r(2) show ?thesis
    by (intro conn_inv_soft [OF inv]) (auto simp: sending_def)
qed

lemma leads_inv:
  assumes "conn_inv env (st, d)" "answers_fit pool st an" "leads env an st d st' d'"
  shows "conn_inv env (st', d')"
proof (cases st)
  case (StCallControl ctl)
  with assms show ?thesis by (blast intro: control_leads_inv)
next
  case StStop
  with assms show ?thesis by (auto simp: leads_def split: poll.splits sum.splits)
qed (use assms in \<open>blast intro: publish_leads_inv read_request_leads_inv read_payload_leads_inv send_payload_leads_inv\<close>)+

lemma dstep_inv: "dstep env pool c c' \<Longrightarrow> conn_inv env c \<Longrightarrow> conn_inv env c'"
proof (induction rule: dstep.induct)
  case (ds_world st d evs fls ups chs closed dropped shutdown)
  then show ?case
    by (rule conn_inv_calm) (simp add: world_def calm_same sent_defs)
qed (blast intro: leads_inv [unfolded leads_def])+

lemma dsteps_inv: "dsteps env pool c c' \<Longrightarrow> conn_inv env c \<Longrightarrow> conn_inv env c'"
  by (induction rule: rtranclp_induct) (auto dest: dstep_inv)

end
