(* ===== verification/H1_Safety.thy ===== *)
theory H1_Safety
  imports H1_Connection
begin

text \<open>
  The HTTP/1 dispatcher does not panic: every function of an iteration returns, given what the
  libraries promise and the invariant of the connection. The properties of the runs of a connection
  follow, and the flaws the model shows.
\<close>

section \<open>No function panics\<close>

text \<open>
  The surroundings of a dispatcher: the parsers keep their contracts, the clock tells a date of 29
  characters, and the build does not check arithmetic for overflow (as release builds do not).
\<close>

definition env_ok :: "('s, 'e) dispatcher_env \<Rightarrow> bool" where
  "env_ok env \<longleftrightarrow>
     header_contract (dv_parse env) \<and> request_contract (dv_parse env) \<and> chunk_size_contract (dv_chunk_size env) \<and>
     enc_env_ok (dv_enc env) \<and> \<not> dv_overflow_checks env"

definition returns :: "'a option \<Rightarrow> bool" where
  "returns m \<longleftrightarrow> m \<noteq> None"

lemma returns_simps [simp]: "returns (Some x)" "\<not> returns None" "returns (map_option f m) = returns m"
  by (simp_all add: returns_def)

lemma returnsE: "returns m \<Longrightarrow> (\<And>x. m = Some x \<Longrightarrow> P) \<Longrightarrow> P"
  by (auto simp: returns_def)

lemma returns_bind [intro]: "returns m \<Longrightarrow> (\<And>x. m = Some x \<Longrightarrow> returns (f x)) \<Longrightarrow> returns (Option.bind m f)"
  by (cases m) simp_all

lemma pd_decode_returns: "chunk_size_contract pcs \<Longrightarrow> returns (pd_decode pcs pd src)"
  using drain_total [of pcs pd src]
  by (cases "pd_decode pcs pd src") (simp_all add: drain.simps [of pcs pd src] del: pd_decode.simps)

lemma io_recv_returns: "(\<And>buf. returns (decf x buf)) \<Longrightarrow> returns (io_recv decf x io)"
  by (auto simp: io_recv_def Let_def split: list.split io_event.split sum.split prod.split elim!: returnsE
      intro!: exI split: option.split_asm option.split) (metis returns_simps(2))+

lemma handle_timeout_returns: "env_ok env \<Longrightarrow> returns (handle_timeout env d)"
  by (auto simp: handle_timeout_def env_ok_def u32_sub_def Let_def split: option.split)

lemma update_payload_timer_returns: "env_ok env \<Longrightarrow> returns (update_payload_timer env de d)"
  by (auto simp: update_payload_timer_def env_ok_def u32_add_def split: option.split)

lemma payload_turn_returns:
  assumes "env_ok env"
  shows "returns (payload_turn env pd ch d)"
  unfolding payload_turn_def
proof (rule returns_bind)
  show "returns (io_recv (pd_decode (dv_chunk_size env)) pd (di_io d))"
    using assms by (intro io_recv_returns pd_decode_returns) (simp add: env_ok_def)
qed (auto simp: Let_def
    intro!: returns_bind update_payload_timer_returns [OF assms] handle_timeout_returns [OF assms]
    split: sum.split recv_error.split option.split payload_item.split prod.split poll.split)

lemma payload_loop_returns:
  assumes "env_ok env"
  shows "di_payload d \<noteq> None \<Longrightarrow> returns (payload_loop env updated d)"
proof (induction "events_left d" arbitrary: d updated rule: less_induct)
  case less
  then obtain pd ch where p: "di_payload d = Some (pd, ch)" by auto
  obtain t item d' where turn: "payload_turn env pd ch d = Some (t, item, d')"
    using payload_turn_returns [OF assms, of pd ch d] by (elim returnsE) auto
  show ?case
  proof (cases t)
    case PlContinue
    note c = payload_turn_continue [OF turn [unfolded PlContinue]]
    from less.hyps [OF c] show ?thesis by (simp add: payload_loop_eq [OF p] turn PlContinue)
  qed (simp_all add: payload_loop_eq [OF p] turn)
qed

lemma poll_request_payload_inner_returns: "env_ok env \<Longrightarrow> returns (poll_request_payload_inner env d)"
  by (auto simp: poll_request_payload_inner_def Let_def intro!: payload_loop_returns
      split: option.split prod.split poll.split chan_status.split)

lemma poll_request_payload_returns: "env_ok env \<Longrightarrow> returns (poll_request_payload env d)"
  by (auto simp: poll_request_payload_def intro!: returns_bind poll_request_payload_inner_returns split: poll.split sum.split)

lemma poll_request_returns: "env_ok env \<Longrightarrow> returns (poll_request env d)"
  by (auto simp: poll_request_def intro!: returns_bind poll_request_payload_returns
      split: poll.split option.split prod.split status_update.split)

lemma hc_decode_returns:
  assumes "env_ok env" "decoder_ok env d"
  shows "returns (hc_decode (dv_parse env) (dv_pool env) (di_codec d) src)"
  using rq_decoder_returns [of "dv_parse env" "dv_pool env" "hc_decoder (di_codec d)" src] assms
  by (auto simp: hc_decode_def env_ok_def decoder_ok_def simp del: get_message.simps split: sum.split option.split prod.split)

lemma after_recv_returns:
  assumes "env_ok env"
    and fewer: "\<And>e. q = Inl e \<Longrightarrow> events_left d < events_left d0"
    and again: "\<And>d2 e. q = Inl e \<Longrightarrow> \<forall>x. e \<noteq> RvDecoder x \<Longrightarrow> calm env d d2 \<Longrightarrow> events_left d2 < events_left d0 \<Longrightarrow>
      returns (poll_read_request env d2)"
  shows "returns (after_recv env d0 q d)"
proof (cases q)
  case (Inr de)
  then show ?thesis by (auto simp: after_recv_def split: prod.split option.split)
next
  case (Inl e)
  note fewer = fewer [OF Inl] and again = again [OF Inl]
  show ?thesis
  proof (cases e)
    case RvWriteBackpressure
    have "events_left (with_io io d) < events_left d0" if "io_poll_flush (di_io d) = (r, io)" for r io
      using fewer io_poll_flush_eqD [OF that] by (simp add: events_left_def)
    with Inl RvWriteBackpressure fewer again [OF _ calm_io] show ?thesis
      by (auto simp: after_recv_def split: prod.split poll.split sum.split)
  next
    case RvKeepAlive
    obtain r d2 where h: "handle_timeout env d = Some (r, d2)"
      using handle_timeout_returns [OF assms(1), of d] by (elim returnsE) auto
    with Inl RvKeepAlive fewer again [OF _ handle_timeout_calm [OF h]] handle_timeout_events [OF h] show ?thesis
      by (auto simp: after_recv_def split: sum.split)
  qed (simp_all add: Inl after_recv_def)
qed

lemma poll_read_request_returns:
  assumes "env_ok env"
  shows "decoder_ok env d \<Longrightarrow> \<not> sent d \<Longrightarrow> returns (poll_read_request env d)"
proof (induction "events_left d" arbitrary: d rule: less_induct)
  case less
  have "returns (codec_recv env d)"
    by (intro io_recv_returns hc_decode_returns [OF assms less.prems(1)])
  then obtain q codec io where recv: "codec_recv env d = Some (q, codec, io)" by (elim returnsE) auto
  let ?d1 = "(with_io io d)\<lparr>di_codec := codec\<rparr>"
  have "returns (after_recv env d q ?d1)"
  proof (rule after_recv_returns [OF assms])
    fix e
    assume q: "q = Inl e"
    then show "events_left ?d1 < events_left d" using io_recv_events [OF recv] by (simp add: events_left_def)
    fix d2
    assume "\<forall>x. e \<noteq> RvDecoder x" "calm env ?d1 d2" "events_left d2 < events_left d"
    moreover from calm_trans [OF codec_recv_calm [OF recv _ less.prems(1)] this(2)] q this(1)
    have "decoder_ok env d2" "\<not> sent d2" using less.prems by (auto simp: calm_def soft_def)
    ultimately show "returns (poll_read_request env d2)" using less.hyps by blast
  qed
  with recv show ?case by (simp add: poll_read_request_recv [of env d])
qed

text \<open>Writing: chunks never fail to be written, a head is written when its response is one.\<close>

lemma encode_chunk_returns: "returns (io_encode env (MChunk c) d)"
  by (auto simp: io_encode_def hc_encodev_def split: option.split prod.split sum.split)

lemma encode_head_returns:
  assumes "env_ok env" "date_wf (di_date d)" "100 \<le> rs_status h" "rs_status h < 1000" "sized_ok len"
  shows "returns (io_encode env (MItem (h, len)) d)"
proof -
  from hc_encode_item_total [OF _ assms(2,5,3,4), of "dv_enc env"] assms(1)
  obtain c' out ds' where "hc_encode_item (dv_enc env) (di_date d) (di_codec d) h len (ci_out (di_io d)) = Some (c', ci_out (di_io d) @ out, ds')"
    unfolding env_ok_def by blast
  then show ?thesis by (simp add: io_encode_def hc_encodev_def)
qed

lemma send_response_returns:
  assumes "env_ok env" "date_wf (di_date d)" "resp_ok msg body"
  shows "returns (send_response env msg body d)"
proof -
  have "rs_status (rs_set_connection_type Close h) = rs_status h" for h by simp
  with assms encode_head_returns [OF assms(1,2)] show ?thesis
    by (auto simp: send_response_def resp_ok_def rp_status_def Let_def intro!: returns_bind
        split: option.split sum.split body_size.split)
qed

lemma send_loop_returns: "returns (send_loop env body d)"
proof (induction "rb_weight body" arbitrary: body d rule: less_induct)
  case less
  obtain c b' where b: "rb_poll_next_chunk body = (c, b')" by (cases "rb_poll_next_chunk body")
  have "returns (send_loop env b' d')" if "c = Ready (Some x)" for d' x
    using less b that by (auto dest: rb_poll_weight)
  with b show ?case
    by (subst send_loop.simps)
      (auto simp: Let_def intro!: returns_bind encode_chunk_returns split: prod.split poll.split option.split sum.split)
qed

lemma poll_send_payload_returns: "env_ok env \<Longrightarrow> returns (poll_send_payload env body d)"
  by (auto simp: poll_send_payload_def intro!: returns_bind poll_request_payload_returns send_loop_returns split: prod.split)

lemma ctl_upgrade_returns: "decoder_ok env d \<Longrightarrow> returns (ctl_upgrade env req d)"
  by (auto simp: ctl_upgrade_def decoder_ok_def md_inv_def hc_clone_def hc_reset_upgrade_def md_clone_def Let_def
      simp del: get_message.simps split: option.splits)

lemma apply_result_returns:
  assumes ok: "env_ok env" and inv: "conn_inv env (StCallControl ctl, d)" and ack: "acks pool ctl r" and res: "result_ok r"
  shows "returns (apply_result env s r d)"
proof -
  have date: "date_wf (di_date d)" using inv by (simp add: conn_inv.simps)
  note ctl = conn_inv_control [OF inv]
  have dec: "decoder_ok env d" if "\<forall>reason. ctl \<noteq> CtlDisconnect reason"
    using inv ctl(1) that by (auto simp: conn_inv.simps split: if_splits)
  then have "returns (ctl_upgrade env req (d\<lparr>di_io := x\<rparr>))" "returns (ctl_upgrade env req d)" if "\<forall>reason. ctl \<noteq> CtlDisconnect reason" for req x
    using that by (auto intro!: ctl_upgrade_returns simp: decoder_ok_def)
  moreover have "\<forall>reason. ctl \<noteq> CtlDisconnect reason" if "r = CrContinue req \<or> r = CrUpgrade req" for req
    using that ack acks_disconnect by blast
  moreover have "\<forall>io. r \<noteq> CrConnect io"
    using ack ctl by (cases "sent d") (auto dest!: acks_not_connect)
  ultimately show ?thesis
    using res send_response_returns [OF ok, of d] send_response_returns [OF ok, of "d\<lparr>di_disconnect := _\<rparr>"] date
    by (cases r) (auto simp: apply_result_def Let_def split: sum.split)
qed

lemma dispatch_returns:
  assumes "env_ok env" "conn_inv env (st, d)" "answers_fit pool st an"
  shows "returns (dispatch env an st d)"
proof (cases st)
  case (StCallPublish req)
  have "date_wf (di_date d)" using assms(2) by (simp add: conn_inv.simps)
  note send_response_returns [OF assms(1) this]
  moreover have "resp_ok (fst (rp_into_parts res)) (snd (rp_into_parts res)) = resp_ok res (rp_body res)" for res
    by (simp add: resp_ok_def rp_into_parts_def rp_status_def)
  ultimately show ?thesis
    using assms(3) StCallPublish
    by (auto simp: poll_publish_def go_def case_prod_unfold Let_def intro!: returns_bind poll_request_returns [OF assms(1)] split: poll.splits sum.split)
next
  case (StCallControl ctl)
  with assms apply_result_returns show ?thesis
    by (auto simp: poll_control_def go_def intro!: returns_bind poll_request_payload_inner_returns split: poll.splits sum.splits)
next
  case StReadRequest
  with assms(2) have "decoder_ok env d" "\<not> sent d" by (auto simp: conn_inv.simps split: if_splits)
  moreover have "c = None \<Longrightarrow> d1 = d" if "check_disconnect d = (c, d1)" for c d1
    using check_disconnect_cases [OF that] by simp
  ultimately show ?thesis
    using StReadRequest poll_read_request_returns [OF assms(1)]
    by (auto simp: go_def intro!: returns_bind split: prod.split option.split poll.split)
next
  case StReadPayload
  then show ?thesis
    by (auto simp: go_def intro!: returns_bind poll_request_payload_returns [OF assms(1)] split: prod.split option.split poll.split)
next
  case (StSendPayload body)
  then show ?thesis
    by (auto simp: go_def intro!: returns_bind poll_send_payload_returns [OF assms(1)] split: poll.split)
next
  case StStop
  then show ?thesis by (auto split: poll.split sum.split)
qed

section \<open>The timer of request heads\<close>

text \<open>
  The timer runs out for every head that is not complete within one period: \<^verbatim>\<open>handle_timeout\<close> sets
  \<^verbatim>\<open>read_remains\<close> to zero before it computes the rate, so that no number of bytes received extends it.
\<close>

lemma headers_timer_never_extended:
  assumes "di_has d READ_HDRS_TIMEOUT" "cfg_headers_read_rate (hc_cfg (di_codec d)) = Some cfg" "di_read_consumed d = 0"
  shows "\<exists>e d'. handle_timeout env d = Some (Err e, d') \<and> ci_timer (di_io d') = ci_timer (di_io d)"
  using assms by (auto simp: handle_timeout_def u32_sub_def Let_def set_payload_error_def)

section \<open>Reading one request\<close>

text \<open>What one iteration makes of a request head, and of bytes that are none.\<close>

lemma request_read:
  assumes "\<not> sent d" "di_disconnect d = None" "\<not> di_shutdown d" "ci_events (di_io d) = EvRead new # evs"
    and "hc_decode (dv_parse env) (dv_pool env) (di_codec d) (ci_rbuf (di_io d) @ new) = Some (Ok (Some (head, pl)), c, rest)"
  shows "\<exists>req d'. dispatch env an StReadRequest d = Some (Goto (StCallControl (CtlRequest req)), d') \<and>
    di_trace d' = FxControl (CtlRequest req) # di_trace d \<and> req_head req = head\<lparr>rq_io := IoRef (dv_io env)\<rparr>"
proof -
  have "check_disconnect d = (None, d)" using assms(1,2) by (simp add: check_disconnect_def sent_def)
  then show ?thesis using assms(3-5)
    by (auto simp: req_from_head_def req_replace_payload_def poll_read_request.simps [of env d] io_recv_def update_hdrs_timer_def start_request_def h1_control_call_def
        ctl_request_def inner_defs go_def Let_def split: payload_type.split)
qed

lemma request_garbled:
  assumes "\<not> sent d" "di_disconnect d = None" "\<not> di_shutdown d" "ci_events (di_io d) = EvRead new # evs"
    and "hc_decode (dv_parse env) (dv_pool env) (di_codec d) (ci_rbuf (di_io d) @ new) = Some (Err e, c, rest)"
  shows "\<exists>d'. dispatch env an StReadRequest d = Some (Goto (StCallControl (CtlDisconnect (RProtocolError (HpDecode e)))), d') \<and>
    sent d' \<and> ci_closed (di_io d') = ci_closed (di_io d) \<and>
    di_trace d' = FxControl (CtlDisconnect (RProtocolError (HpDecode e))) # di_trace d"
proof -
  have "check_disconnect d = (None, d)" using assms(1,2) by (simp add: check_disconnect_def sent_def)
  then show ?thesis using assms(3-5)
    by (simp add: poll_read_request.simps [of env d] io_recv_def ctl_proto_err_def h1_control_call_def
        ctl_proto_err_msg_def sent_defs go_def Let_def)
qed

lemma last_response:
  assumes "env_ok env" "date_wf (di_date d)" "resp_ok msg body" "sent d" "\<not> ci_closed (di_io d)" "rb_size body = SzEmpty"
  shows "\<exists>h d'. send_response env msg body d = Some (StStop, d') \<and> di_trace d' = FxHead h # di_trace d"
proof -
  define head where "head = (if (case di_payload d of Some (_, ch) \<Rightarrow> ch_closed ch | None \<Rightarrow> False)
    then rs_set_connection_type Close (rp_head msg) else rp_head msg)"
  have "100 \<le> rs_status head \<and> rs_status head < 1000" using assms(3) by (simp add: head_def resp_ok_def rp_status_def)
  then obtain c out ds where "hc_encode_item (dv_enc env) (di_date d) (di_codec d) head SzEmpty (ci_out (di_io d)) = Some (c, out, ds)"
    using hc_encode_item_total [of "dv_enc env" "di_date d" SzEmpty head "di_codec d" "ci_out (di_io d)"] assms(1,2)
    by (auto simp: env_ok_def sized_ok_def)
  then show ?thesis using assms(4-6)
    by (simp add: send_response_def head_def [symmetric] io_encode_def hc_encodev_def after_response_def check_disconnect_def
        sent_defs stop_def del: not_None_eq)
qed

section \<open>Properties\<close>

lemma reachable_inv:
  "date_wf ds \<Longrightarrow> dsteps env pool (dispatcher_new env con_id cfg ds io) c \<Longrightarrow> conn_inv env c"
  by (blast intro: dsteps_inv conn_inv_new)

lemma trace_ok_suffix: "trace_ok (later @ earlier) \<Longrightarrow> trace_ok earlier"
  by (induction later) auto

lemma trace_ok_later:
  "trace_ok (later @ earlier) \<Longrightarrow> disconnected earlier \<Longrightarrow> list_all (\<lambda>f. \<not> is_work f) later"
  by (induction later) auto

text \<open>
  C1: The dispatcher of a connection never panics. Whatever a peer sends and however reads, writes,
  timers, payload channels, service answers and the shutdown interleave, every iteration of its loop
  returns: no \<^verbatim>\<open>unwrap\<close>, no \<^verbatim>\<open>unreachable!\<close>, no poisoned decoder and no endless loop is reached,
  given parsers that keep their contracts and a build without overflow checks.
\<close>

theorem dispatcher_never_panics:
  assumes "env_ok env" "date_wf ds"
    and "dsteps env pool (dispatcher_new env con_id cfg ds io) (st, d)" "answers_fit pool st an"
  shows "\<exists>r. dispatch env an st d = Some r"
  using dispatch_returns [OF assms(1) reachable_inv [OF assms(2,3)] assms(4)] by (auto elim: returnsE)

text \<open>
  C2: A disconnect is final. Once the dispatcher has announced a disconnect to the control service, for
  whatever reason, no request is read, published, upgraded or passed to the control service any more.
\<close>

theorem disconnect_is_final:
  assumes "date_wf ds" "dsteps env pool (dispatcher_new env con_id cfg ds io) (st, d)"
    and "di_trace d = later @ FxControl (CtlDisconnect reason) # earlier"
  shows "list_all (\<lambda>f. \<not> is_work f) later"
  using reachable_inv [OF assms(1,2)] assms(3) trace_ok_later [of later "FxControl (CtlDisconnect reason) # earlier"]
  by (simp add: conn_inv.simps)

text \<open>
  C3: Requests are answered one at a time and in order. At every moment before a disconnect, the response
  heads written are as many as the requests passed to the control service, or one less: a request is
  only read after the response to the one before it has been started, and no request gets two.
\<close>

theorem requests_answered_in_turn:
  assumes "date_wf ds" "dsteps env pool (dispatcher_new env con_id cfg ds io) (st, d)"
    and "di_trace d = later @ earlier" "\<not> disconnected earlier"
  shows "heads earlier \<le> requests earlier \<and> requests earlier \<le> heads earlier + 1"
proof -
  have "trace_ok earlier"
    using reachable_inv [OF assms(1,2)] assms(3) trace_ok_suffix [of later earlier] by (simp add: conn_inv.simps)
  with assms(4) show ?thesis by (cases earlier) auto
qed

text \<open>A connection and its surroundings, as instances.\<close>

definition sample_denv :: "(unit, unit) dispatcher_env" where
  "sample_denv =
     \<lparr>dv_parse = head_env, dv_chunk_size = simple_chunk_size, dv_pool = [], dv_enc = sample_ee,
      dv_err_response = (\<lambda>_. static_response [] 500), dv_io = 0, dv_overflow_checks = False\<rparr>"

definition quiet_io :: "io_event list \<Rightarrow> conn_io" where
  "quiet_io evs = \<lparr>ci_closed = False, ci_rbuf = [], ci_out = [], ci_timer = None, ci_events = evs, ci_flush = [], ci_updates = []\<rparr>"

abbreviation sample_start :: "io_event list \<Rightarrow> (unit, unit) dispatcher_state \<times> (unit, unit) dispatcher_inner" where
  "sample_start evs \<equiv> dispatcher_new sample_denv 7 small_cfg date_new (quiet_io evs)"

abbreviation answer :: "control_result \<Rightarrow> unit answers" where
  "answer r \<equiv> \<lparr>an_publish = Pending, an_control = Ready (Inr r), an_slice = Inr (), an_shutdown = Pending\<rparr>"

lemma sample_env_ok: "env_ok sample_denv"
  using tiny_header_contract tiny_request_contract simple_chunk_size_contract sample_ee_ok
  by (simp add: env_ok_def sample_denv_def head_env_def header_contract_def request_contract_def)

text \<open>A run that reads a request, and one that fails to and answers with 400.\<close>

lemma sample_start_state:
  obtains d where "sample_start evs = (StReadRequest, d)" "di_codec d = hc_new head_env 7 small_cfg" "di_io d = quiet_io evs"
    "di_trace d = []" "\<not> sent d" "di_disconnect d = None" "\<not> di_shutdown d"
  by (auto simp: dispatcher_new_def sample_denv_def small_cfg_def Let_def sent_defs)

lemma sample_denv_simps:
  "dv_parse sample_denv = head_env" "dv_pool sample_denv = []"
  by (simp_all add: sample_denv_def)

lemma sample_request_run:
  "\<exists>req d. dsteps sample_denv [] (sample_start [EvRead ''RE'']) (StCallControl (CtlRequest req), d) \<and>
     di_trace d = [FxControl (CtlRequest req)]"
proof -
  obtain d0 where st: "sample_start [EvRead ''RE''] = (StReadRequest, d0)"
    and d0: "di_codec d0 = hc_new head_env 7 small_cfg" "di_io d0 = quiet_io [EvRead ''RE'']"
      "di_trace d0 = []" "\<not> sent d0" "di_disconnect d0 = None" "\<not> di_shutdown d0"
    by (rule sample_start_state)
  obtain head c where r: "hc_decode head_env [] (hc_new head_env 7 small_cfg) ''RE'' = Some (Inr (Some (head, PNone)), c, [])"
    using head_decode by blast
  obtain req d where "dispatch sample_denv (answer CrStop) StReadRequest d0 = Some (Goto (StCallControl (CtlRequest req)), d)"
    and t: "di_trace d = [FxControl (CtlRequest req)]"
    using request_read [of d0 "''RE''" "[]" sample_denv head PNone c "[]" "answer CrStop"] d0 r
    by (auto simp: quiet_io_def sample_denv_simps)
  from dstep.ds_goto [OF this(1), of "[]"] t show ?thesis unfolding st by auto
qed

lemma decode_status: "100 \<le> hp_status (HpDecode e) \<and> hp_status (HpDecode e) < 1000"
  by (cases e) simp_all

lemma sample_error_run:
  "\<exists>h r d. dsteps sample_denv [] (sample_start [EvRead ''!'']) (StStop, d) \<and>
     di_trace d = [FxHead h, FxControl (CtlDisconnect r)]"
proof -
  obtain d0 where st: "sample_start [EvRead ''!''] = (StReadRequest, d0)"
    and d0: "di_codec d0 = hc_new head_env 7 small_cfg" "di_io d0 = quiet_io [EvRead ''!'']"
      "di_trace d0 = []" "\<not> sent d0" "di_disconnect d0 = None" "\<not> di_shutdown d0"
    by (rule sample_start_state)
  obtain e c rest where r: "hc_decode head_env [] (hc_new head_env 7 small_cfg) ''!'' = Some (Inl e, c, rest)"
    by (auto simp add: hc_decode_def hc_new_def hc_request_def md_decode_def md_new_def in_new_def md_decode_rest_def
      decode_headers.simps head_env_def tiny_env_def request_type_def rq_decode_def Let_def small_cfg_def
      rq_default_def hm_new_def st_default_def)
  let ?ctl = "CtlDisconnect (RProtocolError (HpDecode e))"
  obtain d1 where s1: "dispatch sample_denv (answer CrStop) StReadRequest d0 = Some (Goto (StCallControl ?ctl), d1)"
    and d1: "sent d1" "\<not> ci_closed (di_io d1)" "di_trace d1 = [FxControl ?ctl]"
    using request_garbled [of d0 "''!''" "[]" sample_denv e c rest "answer CrStop"] d0 r
    by (auto simp: quiet_io_def sample_denv_simps)
  have run1: "dsteps sample_denv [] (sample_start [EvRead ''!'']) (StCallControl ?ctl, d1)"
    using dstep.ds_goto [OF s1, of "[]"] unfolding st by auto
  let ?an = "answer (proto_error_ack [] (HpDecode e))"
  have fit: "answers_fit [] (StCallControl ?ctl) ?an"
    using acks_proto [of "[]" "HpDecode e"] decode_status [of e]
    by (simp add: proto_error_ack_def hp_error_response_parts resp_ok_def rp_status_def rb_from_body_def sized_ok_def del: hp_status.simps)
  have "conn_inv sample_denv (StCallControl ?ctl, d1)"
    by (rule reachable_inv [OF date_new_wf run1])
  then have "date_wf (di_date d1)" by (simp add: conn_inv.simps)
  from last_response [OF sample_env_ok this _ d1(1,2), of "\<lparr>rp_head = fresh_head [] (hp_status (HpDecode e)), rp_body = RBBody MBUnit\<rparr>"
    "rb_from_body BEmpty"] d1(3) fit
  obtain h d where "dispatch sample_denv ?an (StCallControl ?ctl) d1 = Some (Goto StStop, d)"
    and t: "di_trace d = [FxHead h, FxControl ?ctl]"
    by (auto simp: poll_control_def apply_result_def proto_error_ack_def hp_error_response_parts go_def rb_from_body_def)
  with dstep.ds_goto [OF this(1) fit] run1 show ?thesis by (auto intro: rtranclp.rtrancl_into_rtrancl)
qed

theorem dispatcher_never_panics_witness:
  "\<exists>req d r. dsteps sample_denv [] (sample_start [EvRead ''RE'']) (StCallControl (CtlRequest req), d) \<and>
     dispatch sample_denv (answer (new_request_ack req)) (StCallControl (CtlRequest req)) d = Some r"
proof -
  obtain req d where run: "dsteps sample_denv [] (sample_start [EvRead ''RE'']) (StCallControl (CtlRequest req), d)"
    using sample_request_run by blast
  have "answers_fit [] (StCallControl (CtlRequest req)) (answer (new_request_ack req))"
    using acks_request [of "[]" req req] by (auto simp: new_request_ack_def)
  from dispatcher_never_panics [OF sample_env_ok date_new_wf run this] run show ?thesis by blast
qed

theorem disconnect_is_final_witness:
  "\<exists>h r d. dsteps sample_denv [] (sample_start [EvRead ''!'']) (StStop, d) \<and>
     di_trace d = [FxHead h] @ FxControl (CtlDisconnect r) # [] \<and> list_all (\<lambda>f. \<not> is_work f) (butlast (di_trace d))"
proof -
  obtain h r d where run: "dsteps sample_denv [] (sample_start [EvRead ''!'']) (StStop, d)"
    and t: "di_trace d = [FxHead h] @ FxControl (CtlDisconnect r) # []"
    using sample_error_run by auto
  from disconnect_is_final [OF date_new_wf run t] t have "list_all (\<lambda>f. \<not> is_work f) (butlast (di_trace d))" by simp
  with run t show ?thesis by blast
qed

theorem requests_answered_in_turn_witness:
  "\<exists>req d. dsteps sample_denv [] (sample_start [EvRead ''RE'']) (StCallControl (CtlRequest req), d) \<and>
     di_trace d = [] @ [FxControl (CtlRequest req)] \<and> heads (di_trace d) \<le> requests (di_trace d)"
proof -
  obtain req d where run: "dsteps sample_denv [] (sample_start [EvRead ''RE'']) (StCallControl (CtlRequest req), d)"
    and t: "di_trace d = [] @ [FxControl (CtlRequest req)]"
    using sample_request_run by auto
  have "\<not> disconnected [FxControl (CtlRequest req)]" by (simp add: disconnected_def)
  from requests_answered_in_turn [OF date_new_wf run t this] t have "heads (di_trace d) \<le> requests (di_trace d)" by simp
  with run t show ?thesis by blast
qed

section \<open>Leaving a payload early\<close>

lemma payload_partly_read:
  assumes "di_payload d = Some (pd_length n, ch)" "ci_events (di_io d) = [EvRead data]" "ci_rbuf (di_io d) = []"
    and "data \<noteq> []" "length data < n" "cfg_payload_read_rate (hc_cfg (di_codec d)) = None" "\<not> di_has d READ_PL_TIMEOUT"
  shows "payload_loop env False d =
    Some (Ready (Ok ()),
      d\<lparr>di_io := (di_io d)\<lparr>ci_events := [], ci_rbuf := []\<rparr>,
        di_payload := Some (pd_length (n - length data), ch\<lparr>ch_data := ch_data ch @ [data]\<rparr>)\<rparr>)"
  using assms
  by (simp add: payload_loop.simps [of env False d] payload_loop.simps [of env True] payload_turn_def io_recv_def pd_length_def
      update_payload_timer_def events_left_def di_has_def Let_def)

text \<open>
  C4: A request body that arrives in several reads after its response was sent desynchronizes the
  connection. When the dispatcher consumes a body after the response, any progress ends
  \<^verbatim>\<open>State::ReadPayload\<close>, even if bytes of the body are outstanding, and the next bytes of that body are
  decoded as a request of their own and passed to the control service.
\<close>

theorem unread_body_parsed_as_request:
  assumes "di_payload d = Some (pd_length n, ch)" "ch_status ch = Ready ChReady # chs"
    and "ci_events (di_io d) = [EvRead data]" "ci_rbuf (di_io d) = []" "data \<noteq> []" "length data + length tail \<le> n" "tail \<noteq> []"
    and "cfg_payload_read_rate (hc_cfg (di_codec d)) = None" "\<not> di_has d READ_PL_TIMEOUT"
    and "\<not> sent d" "di_disconnect d = None" "\<not> di_shutdown d"
    and "hc_decode (dv_parse env) (dv_pool env) (di_codec d) tail = Some (Ok (Some (head, pl)), c, rest)"
  shows "\<exists>d1 ch1 req d2.
    dispatch env an StReadPayload d = Some (Goto StReadRequest, d1) \<and>
    di_payload d1 = Some (pd_length (n - length data), ch1) \<and>
    dispatch env an StReadRequest (world [EvRead tail] [] [] [] False False False d1) = Some (Goto (StCallControl (CtlRequest req)), d2) \<and>
    req_head req = head\<lparr>rq_io := IoRef (dv_io env)\<rparr>"
proof -
  let ?d0 = "d\<lparr>di_payload := Some (pd_length n, ch\<lparr>ch_status := chs\<rparr>)\<rparr>"
  let ?ch1 = "ch\<lparr>ch_status := chs, ch_data := ch_data ch @ [data]\<rparr>"
  let ?d1 = "d\<lparr>di_io := (di_io d)\<lparr>ci_events := [], ci_rbuf := []\<rparr>, di_payload := Some (pd_length (n - length data), ?ch1)\<rparr>"
  let ?w = "world [EvRead tail] [] [] [] False False False ?d1"
  have "length data < n" using assms(6,7) by (cases tail) auto
  with payload_partly_read [of ?d0 n _ data env] assms have "payload_loop env False ?d0 = Some (Ready (Ok ()), ?d1)"
    by (simp add: di_has_def)
  then have "dispatch env an StReadPayload d = Some (Goto StReadRequest, ?d1)"
    using assms by (simp add: poll_request_payload_def poll_request_payload_inner_def ch_poll_ready_def check_disconnect_def
        sent_defs go_def)
  moreover have "\<exists>req d2. dispatch env an StReadRequest ?w = Some (Goto (StCallControl (CtlRequest req)), d2) \<and>
      req_head req = head\<lparr>rq_io := IoRef (dv_io env)\<rparr>"
    using request_read [of ?w tail "[]" env head pl c rest an] assms by (auto simp: world_def sent_defs)
  ultimately show ?thesis by fastforce
qed

definition sample_body :: "(unit, unit) dispatcher_inner" where
  "sample_body =
     (snd (sample_start [EvRead ''x'']))\<lparr>di_payload := Some (pd_length 3, (ch_new 0)\<lparr>ch_status := [Ready ChReady]\<rparr>)\<rparr>"

theorem unread_body_parsed_as_request_witness:
  "\<exists>d1 ch1 req d2.
    dispatch sample_denv (answer CrStop) StReadPayload sample_body = Some (Goto StReadRequest, d1) \<and>
    di_payload d1 = Some (pd_length 2, ch1) \<and>
    dispatch sample_denv (answer CrStop) StReadRequest (world [EvRead ''RE''] [] [] [] False False False d1) =
      Some (Goto (StCallControl (CtlRequest req)), d2)"
proof -
  obtain d0 where st: "sample_start [EvRead ''x''] = (StReadRequest, d0)"
    and d0: "di_codec d0 = hc_new head_env 7 small_cfg" "di_io d0 = quiet_io [EvRead ''x'']"
      "di_trace d0 = []" "\<not> sent d0" "di_disconnect d0 = None" "\<not> di_shutdown d0"
    by (rule sample_start_state)
  obtain head c where r: "hc_decode head_env [] (hc_new head_env 7 small_cfg) ''RE'' = Some (Inr (Some (head, PNone)), c, [])"
    using head_decode by blast
  have "di_flags d0 = 0" using st by (auto simp: dispatcher_new_def small_cfg_def Let_def)
  with unread_body_parsed_as_request [of sample_body 3 "(ch_new 0)\<lparr>ch_status := [Ready ChReady]\<rparr>" "[]" "''x''" "''RE''" sample_denv head PNone c "[]" "answer CrStop"]
    st d0 r
  show ?thesis
    by (auto simp: sample_body_def quiet_io_def sample_denv_simps hc_new_def small_cfg_def sent_defs)
qed

end
