(* ===== verification/Byte_Words.thy ===== *)
theory Byte_Words
  imports Http_Prelude
begin

text \<open>
  Words as sequences of bytes, for the binary formats of the library: the conversions
  \<^verbatim>\<open>from_le_bytes\<close>, \<^verbatim>\<open>from_be_bytes\<close>, \<^verbatim>\<open>to_be_bytes\<close> of the Rust integers and their laws.
\<close>

definition wbyte :: "nat \<Rightarrow> 'a::len word \<Rightarrow> u8" where
  "wbyte i w = ucast (drop_bit (8 * i) w)"

definition le_bytes :: "nat \<Rightarrow> 'a::len word \<Rightarrow> u8 list" where
  "le_bytes n w = map (\<lambda>i. wbyte i w) [0..<n]"

definition be_bytes :: "nat \<Rightarrow> 'a::len word \<Rightarrow> u8 list" where
  "be_bytes n w = rev (le_bytes n w)"

fun from_le :: "u8 list \<Rightarrow> 'a::len word" where
  "from_le [] = 0"
| "from_le (b # bs) = push_bit 8 (from_le bs) OR ucast b"

definition from_be :: "u8 list \<Rightarrow> 'a::len word" where
  "from_be bs = from_le (rev bs)"

lemma bit_wbyte: "bit (wbyte i w) j \<longleftrightarrow> j < 8 \<and> bit w (8 * i + j)" for w :: "'a::len word"
  by (auto simp: wbyte_def bit_ucast_iff bit_drop_bit_eq add.commute dest: bit_imp_le_length)

lemma wbyte_xor: "wbyte i (a XOR b) = wbyte i a XOR wbyte i b" for a :: "'a::len word"
  by (rule bit_word_eqI) (simp add: bit_wbyte bit_xor_iff)

lemma length_le_bytes [simp]: "length (le_bytes n w) = n"
  by (simp add: le_bytes_def)

lemma length_be_bytes [simp]: "length (be_bytes n w) = n"
  by (simp add: be_bytes_def)

lemma nth_le_bytes [simp]: "i < n \<Longrightarrow> le_bytes n w ! i = wbyte i w"
  by (simp add: le_bytes_def)

lemma nth_be_bytes: "i < n \<Longrightarrow> be_bytes n w ! i = wbyte (n - Suc i) w"
  by (simp add: be_bytes_def rev_nth)

lemma bit_from_le:
  "8 * length bs \<le> LENGTH('a::len) \<Longrightarrow>
   bit (from_le bs :: 'a word) n \<longleftrightarrow> n < 8 * length bs \<and> bit (bs ! (n div 8)) (n mod 8)"
proof (induction bs arbitrary: n)
  case Nil
  then show ?case by simp
next
  case (Cons b bs)
  then have ih: "bit (from_le bs :: 'a word) m \<longleftrightarrow> m < 8 * length bs \<and> bit (bs ! (m div 8)) (m mod 8)" for m
    by simp
  show ?case
  proof (cases "n < 8")
    case True
    with Cons.prems show ?thesis
      by (simp add: bit_or_iff bit_push_bit_iff bit_ucast_iff)
  next
    case False
    then obtain m where n: "n = m + 8" by (metis le_add_diff_inverse2 not_less)
    have "bit (from_le (b # bs) :: 'a word) n \<longleftrightarrow> m + 8 < LENGTH('a) \<and> bit (from_le bs :: 'a word) m"
      using n by (auto simp: bit_or_iff bit_push_bit_iff bit_ucast_iff dest: bit_imp_le_length)
    also have "\<dots> \<longleftrightarrow> m < 8 * length bs \<and> bit (bs ! (m div 8)) (m mod 8)"
      using ih [of m] Cons.prems by auto
    moreover have "(m + 8) div 8 = Suc (m div 8)" by simp
    ultimately show ?thesis using n by simp
  qed
qed

lemma wbyte_from_le:
  assumes "8 * length bs \<le> LENGTH('a::len)"
  shows "wbyte i (from_le bs :: 'a word) = (if i < length bs then bs ! i else 0)"
proof (rule bit_word_eqI)
  fix j assume "j < LENGTH(8)"
  then have "j < 8" by simp
  then have "8 * i + j < 8 * length bs \<longleftrightarrow> i < length bs" "(8 * i + j) div 8 = i" "(8 * i + j) mod 8 = j"
    by auto
  with \<open>j < 8\<close> show "bit (wbyte i (from_le bs :: 'a word)) j =
      bit (if i < length bs then bs ! i else 0) j"
    by (auto simp: bit_wbyte bit_from_le [OF assms])
qed

lemma le_bytes_from_le:
  "8 * length bs \<le> LENGTH('a::len) \<Longrightarrow> le_bytes (length bs) (from_le bs :: 'a word) = bs"
  by (rule nth_equalityI) (simp_all add: wbyte_from_le)

lemma from_le_le_bytes:
  assumes "8 * n = LENGTH('a::len)"
  shows "from_le (le_bytes n w) = (w :: 'a word)"
proof (rule bit_word_eqI)
  fix i assume "i < LENGTH('a)"
  with assms have "i div 8 < n" by (simp add: less_mult_imp_div_less)
  then show "bit (from_le (le_bytes n w) :: 'a word) i = bit w i"
    using assms by (auto simp: bit_from_le bit_wbyte \<open>i < LENGTH('a)\<close>)
qed

lemma from_be_be_bytes: "8 * n = LENGTH('a::len) \<Longrightarrow> from_be (be_bytes n w) = (w :: 'a word)"
  by (simp add: from_be_def be_bytes_def from_le_le_bytes)

lemma be_bytes_from_be:
  "8 * length bs \<le> LENGTH('a::len) \<Longrightarrow> be_bytes (length bs) (from_be bs :: 'a word) = bs"
  using le_bytes_from_le [of "rev bs", where 'a = 'a] by (simp add: from_be_def be_bytes_def)

text \<open>Rotating by whole bytes rotates the bytes.\<close>

lemma mod_byte: "j < (8 :: nat) \<Longrightarrow> (8 * x + j) mod (8 * n) = 8 * (x mod n) + j"
  using mod_mult2_eq [of "8 * x + j" 8 n] by simp

lemma wbyte_rotr:
  assumes "LENGTH('a::len) = 8 * n" "i < n"
  shows "wbyte i (word_rotr (8 * k) w) = wbyte ((i + k) mod n) (w :: 'a word)"
proof (rule bit_word_eqI)
  fix j assume "j < LENGTH(8)"
  then have j: "j < 8" by simp
  have "8 * i + j < 8 * n" using assms(2) j by simp
  moreover have "(8 * i + j + 8 * k) mod (8 * n) = 8 * ((i + k) mod n) + j"
    using mod_byte [OF j, of "i + k" n] by (simp add: algebra_simps)
  ultimately show "bit (wbyte i (word_rotr (8 * k) w)) j = bit (wbyte ((i + k) mod n) w) j"
    using j assms(1) by (simp add: bit_wbyte bit_word_rotr_iff)
qed

lemma word_rotl_rotr:
  assumes "LENGTH('a::len) = 8 * n" "k \<le> n"
  shows "word_rotl (8 * k) (w :: 'a word) = word_rotr (8 * (n - k)) w"
proof (rule bit_word_eqI)
  fix i assume i: "i < LENGTH('a)"
  have "8 * k mod LENGTH('a) = (if k = n then 0 else 8 * k)"
    using assms by auto
  then have "(i + (LENGTH('a) - 8 * k mod LENGTH('a))) mod LENGTH('a) = (i + 8 * (n - k)) mod LENGTH('a)"
    using assms by (auto simp: le_iff_add)
  with i show "bit (word_rotl (8 * k) w) i = bit (word_rotr (8 * (n - k)) w) i"
    by (simp add: bit_word_rotl_iff bit_word_rotr_iff)
qed

end
