(* ===== verification/Ws_Mask.thy ===== *)
theory Ws_Mask
  imports Byte_Words
begin

text \<open>
  Masking of WebSocket payloads (\<^verbatim>\<open>geario-http/src/ws/mask.rs\<close>): the optimised routine that splits the
  buffer at eight-byte boundaries of its address and works on 64-bit words, and its equivalence with
  the bytewise definition of RFC 6455.

  The unsafe casts are modelled at the level of memory: \<open>big\<close> is the byte order of the target, \<open>addr\<close>
  the address of the first byte of the buffer.
\<close>

section \<open>Model\<close>

text \<open>A 64-bit word in memory.\<close>

definition mem_bytes :: "bool \<Rightarrow> u64 \<Rightarrow> u8 list" where
  "mem_bytes big w = (if big then be_bytes 8 w else le_bytes 8 w)"

definition of_mem :: "bool \<Rightarrow> u8 list \<Rightarrow> u64" where
  "of_mem big bs = (if big then from_be bs else from_le bs)"

text \<open>\<^verbatim>\<open>xor_short\<close>: the buffer is copied over the start of a zero word and back.\<close>

definition xor_short :: "bool \<Rightarrow> u8 list \<Rightarrow> u64 \<Rightarrow> u8 list" where
  "xor_short big buf msk =
     (let b = of_mem big (buf @ replicate (8 - length buf) 0)
      in take (length buf) (mem_bytes big (b XOR msk)))"

function chunks :: "nat \<Rightarrow> 'a list \<Rightarrow> 'a list list" where
  "chunks n xs = (if xs = [] \<or> n = 0 then [] else take n xs # chunks n (drop n xs))"
  by pat_completeness auto
termination
  by (relation "measure (\<lambda>(n, xs). length xs)") auto

declare chunks.simps [simp del]

definition cast_slice :: "bool \<Rightarrow> u8 list \<Rightarrow> u64 list" where
  "cast_slice big buf = map (of_mem big) (chunks 8 buf)"

definition align_buf :: "nat \<Rightarrow> u8 list \<Rightarrow> u8 list \<times> u8 list \<times> u8 list" where
  "align_buf start_ptr buf =
     (let end_ptr = start_ptr + length buf;
          start_aligned = (start_ptr + 7) div 8 * 8;
          end_aligned = end_ptr div 8 * 8
      in if end_aligned \<ge> start_aligned then
           let tmp = take (end_aligned - start_ptr) buf;
               tail = drop (end_aligned - start_ptr) buf
           in (take (start_aligned - start_ptr) tmp, drop (start_aligned - start_ptr) tmp, tail)
         else (buf, [], []))"

definition apply_mask :: "bool \<Rightarrow> nat \<Rightarrow> u8 list \<Rightarrow> u32 \<Rightarrow> u8 list" where
  "apply_mask big addr buf mask_u32 =
     (let mask_u64 = push_bit 32 (ucast mask_u32) OR ucast mask_u32;
          (head, mid, tail) = align_buf addr buf;
          head_len = length head;
          head' = (if head_len > 0 then xor_short big head mask_u64 else head);
          msk' = (if head_len > 0 then
                     (if big then word_rotl (8 * head_len) mask_u64
                      else word_rotr (8 * head_len) mask_u64)
                   else mask_u64);
          mid' = concat (map (\<lambda>v. mem_bytes big (v XOR msk')) (cast_slice big mid));
          tail' = (if length tail > 0 then xor_short big tail msk' else tail)
      in head' @ mid' @ tail')"

section \<open>The reference definition\<close>

text \<open>Byte \<open>i\<close> of the payload is combined with byte \<open>i mod 4\<close> of the masking key.\<close>

fun mask_from :: "(nat \<Rightarrow> u8) \<Rightarrow> nat \<Rightarrow> u8 list \<Rightarrow> u8 list" where
  "mask_from key off [] = []"
| "mask_from key off (b # bs) = (b XOR key (off mod 4)) # mask_from key (Suc off) bs"

definition mask_key :: "bool \<Rightarrow> u32 \<Rightarrow> nat \<Rightarrow> u8" where
  "mask_key big msk i = (if big then be_bytes 4 msk else le_bytes 4 msk) ! i"

lemma length_mask_from [simp]: "length (mask_from key off bs) = length bs"
  by (induction bs arbitrary: off) simp_all

lemma nth_mask_from: "i < length bs \<Longrightarrow> mask_from key off bs ! i = bs ! i XOR key ((off + i) mod 4)"
proof (induction bs arbitrary: off i)
  case (Cons b bs)
  then show ?case by (cases i) simp_all
qed simp

lemma mask_from_append:
  "mask_from key off (a @ b) = mask_from key off a @ mask_from key (off + length a) b"
  by (induction a arbitrary: off) simp_all

lemma mask_from_shift: "mask_from key (off + 8 * q) bs = mask_from key off bs"
proof (rule nth_equalityI)
  fix i assume i: "i < length (mask_from key (off + 8 * q) bs)"
  have "off + 8 * q + i = (off + i) + 4 * (2 * q)" by simp
  then have "(off + 8 * q + i) mod 4 = (off + i) mod 4" by (simp only: mod_mult_self2)
  with i show "mask_from key (off + 8 * q) bs ! i = mask_from key off bs ! i"
    by (simp add: nth_mask_from)
qed simp

lemma mask_from_involution: "mask_from key off (mask_from key off bs) = bs"
  by (induction bs arbitrary: off) (simp_all add: xor.assoc)

section \<open>Equivalence\<close>

lemma length_mem_bytes [simp]: "length (mem_bytes big w) = 8"
  by (simp add: mem_bytes_def)

lemma mem_bytes_xor:
  assumes "length bs = 8" "i < 8"
  shows "mem_bytes big (of_mem big bs XOR m) ! i = bs ! i XOR mem_bytes big m ! i"
  using assms
  by (auto simp: mem_bytes_def of_mem_def nth_be_bytes wbyte_xor wbyte_from_le from_be_def rev_nth)

text \<open>A word mask that holds the key bytes from position \<open>off\<close> on.\<close>

definition holds_key :: "bool \<Rightarrow> u64 \<Rightarrow> (nat \<Rightarrow> u8) \<Rightarrow> nat \<Rightarrow> bool" where
  "holds_key big m key off \<longleftrightarrow> (\<forall>i<8. mem_bytes big m ! i = key ((off + i) mod 4))"

lemma xor_short_mask:
  assumes "holds_key big m key off" "length buf \<le> 8"
  shows "xor_short big buf m = mask_from key off buf"
proof (rule nth_equalityI)
  show "length (xor_short big buf m) = length (mask_from key off buf)"
    using assms(2) by (simp add: xor_short_def Let_def)
  fix i assume "i < length (xor_short big buf m)"
  then have i: "i < length buf" "i < 8" by (auto simp: xor_short_def Let_def)
  then show "xor_short big buf m ! i = mask_from key off buf ! i"
    using assms mem_bytes_xor [of "buf @ replicate (8 - length buf) 0" i big m]
    by (simp add: xor_short_def Let_def holds_key_def nth_mask_from nth_append)
qed

lemma xor_block_mask:
  assumes "holds_key big m key off" "length buf = 8"
  shows "mem_bytes big (of_mem big buf XOR m) = mask_from key off buf"
proof (rule nth_equalityI)
  fix i assume "i < length (mem_bytes big (of_mem big buf XOR m))"
  then show "mem_bytes big (of_mem big buf XOR m) ! i = mask_from key off buf ! i"
    using assms by (simp add: mem_bytes_xor holds_key_def nth_mask_from)
qed (simp add: assms)

lemma xor_blocks_mask:
  assumes "holds_key big m key off" "length buf mod 8 = 0"
  shows "concat (map (\<lambda>v. mem_bytes big (v XOR m)) (cast_slice big buf)) = mask_from key off buf"
  using assms(2)
proof (induction "length buf" arbitrary: buf rule: less_induct)
  case less
  show ?case
  proof (cases "buf = []")
    case True
    then show ?thesis by (simp add: cast_slice_def chunks.simps [of 8 "[]"])
  next
    case False
    with less.prems have "8 \<le> length buf" by (cases buf) (auto simp: mod_eq_0_iff_dvd dest: dvd_imp_le)
    then have len: "length (take 8 buf) = 8" "length (drop 8 buf) < length buf"
      "length (drop 8 buf) mod 8 = 0"
      using less.prems by (auto simp: le_iff_add)
    have "cast_slice big buf = of_mem big (take 8 buf) # cast_slice big (drop 8 buf)"
      using False by (subst cast_slice_def, subst chunks.simps) (simp add: cast_slice_def)
    then have "concat (map (\<lambda>v. mem_bytes big (v XOR m)) (cast_slice big buf)) =
        mask_from key off (take 8 buf) @ mask_from key off (drop 8 buf)"
      using less.hyps [OF len(2,3)] xor_block_mask [OF assms(1) len(1)] by simp
    also have "\<dots> = mask_from key off (take 8 buf @ drop 8 buf)"
      using len(1) mask_from_shift [of key off 1 "drop 8 buf"]
      by (simp only: mask_from_append mult_1_right)
    finally show ?thesis by simp
  qed
qed

text \<open>The extended mask holds the key from position 0, the rotated one from the end of the head.\<close>

lemma wbyte_double:
  assumes "i < 8"
  shows "wbyte i (push_bit 32 (ucast m) OR ucast m :: u64) = wbyte (i mod 4) (m :: u32)"
proof (rule bit_word_eqI)
  fix j assume "j < LENGTH(8)"
  then have j: "j < 8" by simp
  show "bit (wbyte i (push_bit 32 (ucast m) OR ucast m :: u64)) j = bit (wbyte (i mod 4) m) j"
  proof (cases "i < 4")
    case True
    with j show ?thesis
      by (auto simp: bit_wbyte bit_or_iff bit_push_bit_iff bit_ucast_iff dest: bit_imp_le_length)
  next
    case False
    with assms have i: "i mod 4 = i - 4" by (simp add: mod_if)
    have "8 * i + j - 32 = 8 * (i - 4) + j" "8 * i + j < 64" "\<not> bit m (8 * i + j)" "32 \<le> 8 * i"
      using False assms j by (auto dest: bit_imp_le_length)
    with j i show ?thesis
      by (auto simp: bit_wbyte bit_or_iff bit_push_bit_iff bit_ucast_iff dest: bit_imp_le_length)
  qed
qed

lemma less_8_cases: "i < (8 :: nat) \<Longrightarrow> i \<in> {0, 1, 2, 3, 4, 5, 6, 7}"
  by auto

lemma mirror_mod: "i < (8 :: nat) \<Longrightarrow> (7 - i) mod 4 = 3 - i mod 4"
  by (drule less_8_cases) auto

lemma mirror_rotate:
  assumes "i < (8 :: nat)" "h < 8"
  shows "((7 - i) + (8 - h)) mod 8 = 7 - (i + h) mod 8"
proof (cases "i + h < 8")
  case True
  then have "(7 - i) + (8 - h) = (7 - (i + h)) + 8" by simp
  then have "((7 - i) + (8 - h)) mod 8 = (7 - (i + h)) mod 8" by (simp only: mod_add_self2)
  with True show ?thesis by simp
next
  case False
  then have "(7 - i) + (8 - h) = 15 - (i + h)" "(i + h) mod 8 = i + h - 8"
    using assms by (simp_all add: mod_if)
  with False assms show ?thesis by simp
qed

lemma holds_key_extended:
  "holds_key big (push_bit 32 (ucast m) OR ucast m) (mask_key big m) 0"
  by (auto simp: holds_key_def mem_bytes_def mask_key_def nth_be_bytes wbyte_double mirror_mod)

lemma holds_key_rotated:
  assumes "holds_key big m key 0" "h < 8"
  shows "holds_key big (if big then word_rotl (8 * h) m else word_rotr (8 * h) m) key h"
proof -
  have "mem_bytes big (if big then word_rotl (8 * h) m else word_rotr (8 * h) m) ! i =
      mem_bytes big m ! ((i + h) mod 8)" if i: "i < 8" for i
  proof (cases big)
    case True
    note mirror_rotate [OF i assms(2)]
    moreover have "word_rotl (8 * h) m = word_rotr (8 * (8 - h)) m"
      using assms(2) by (intro word_rotl_rotr) simp_all
    moreover have "(i + h) mod 8 < 8" by simp
    ultimately show ?thesis
      using True i wbyte_rotr [of 8 "7 - i" "8 - h" m] by (simp add: mem_bytes_def nth_be_bytes)
  next
    case False
    then show ?thesis
      using i wbyte_rotr [of 8 i h m] by (simp add: mem_bytes_def)
  qed
  moreover have "mem_bytes big m ! ((i + h) mod 8) = key ((h + i) mod 4)" for i
  proof -
    have "((i + h) mod 8) mod 4 = (h + i) mod 4"
      by (simp add: mod_mod_cancel add.commute)
    moreover have "mem_bytes big m ! ((i + h) mod 8) = key (((i + h) mod 8) mod 4)"
      using assms(1) by (simp add: holds_key_def)
    ultimately show ?thesis by simp
  qed
  ultimately show ?thesis by (simp add: holds_key_def)
qed

lemma align_buf_parts:
  assumes "align_buf addr buf = (head, mid, tail)"
  shows "buf = head @ mid @ tail \<and> length head < 8 \<and> length mid mod 8 = 0 \<and> length tail < 8"
proof -
  define s where "s = (addr + 7) div 8 * 8"
  define e where "e = (addr + length buf) div 8 * 8"
  have s: "addr \<le> s" "s < addr + 8" "s mod 8 = 0" unfolding s_def by presburger+
  have e: "e \<le> addr + length buf" "addr + length buf < e + 8" "e mod 8 = 0" unfolding e_def by presburger+
  show ?thesis
  proof (cases "s \<le> e")
    case True
    with assms have p: "head = take (s - addr) (take (e - addr) buf)"
      "mid = drop (s - addr) (take (e - addr) buf)" "tail = drop (e - addr) buf"
      by (auto simp: align_buf_def Let_def s_def e_def)
    have "length head = s - addr" "length mid = e - s" "length tail = length buf - (e - addr)"
      using p s e True by auto
    moreover have "(e - s) mod 8 = 0" using s(3) e(3) True by presburger
    moreover have "buf = head @ mid @ tail" using p by (metis append.assoc append_take_drop_id)
    ultimately show ?thesis using s e by auto
  next
    case False
    with assms s e show ?thesis by (auto simp: align_buf_def Let_def s_def e_def)
  qed
qed

lemma apply_mask_mask_from: "apply_mask big addr buf m = mask_from (mask_key big m) 0 buf"
proof -
  obtain head mid tail where p: "align_buf addr buf = (head, mid, tail)" by (metis prod_cases3)
  note parts = align_buf_parts [OF p]
  define m64 :: u64 where "m64 = push_bit 32 (ucast m) OR ucast m"
  define h where "h = length head"
  define m' where "m' = (if h > 0 then (if big then word_rotl (8 * h) m64 else word_rotr (8 * h) m64) else m64)"
  have k0: "holds_key big m64 (mask_key big m) 0" unfolding m64_def by (rule holds_key_extended)
  have kh: "holds_key big m' (mask_key big m) h"
    using holds_key_rotated [OF k0, of h] parts k0 by (auto simp: m'_def h_def)
  have "length mid mod 8 = 0" using parts by blast
  then obtain q where q: "length mid = 8 * q" by auto
  have "apply_mask big addr buf m =
      (if h > 0 then xor_short big head m64 else head)
      @ concat (map (\<lambda>v. mem_bytes big (v XOR m')) (cast_slice big mid))
      @ (if length tail > 0 then xor_short big tail m' else tail)"
    by (simp add: apply_mask_def p Let_def h_def m64_def m'_def)
  also have "(if h > 0 then xor_short big head m64 else head) = mask_from (mask_key big m) 0 head"
    using xor_short_mask [OF k0, of head] parts by (auto simp: h_def)
  also have "(if length tail > 0 then xor_short big tail m' else tail) = mask_from (mask_key big m) h tail"
    using xor_short_mask [OF kh, of tail] parts by auto
  finally show ?thesis
    using xor_blocks_mask [OF kh] parts mask_from_shift [of _ h q tail] q
    by (simp add: mask_from_append h_def)
qed

section \<open>Properties\<close>

text \<open>
  C26: The optimised masking routine is the bytewise definition of RFC 6455 for every address,
  length and key, on both byte orders: byte \<open>i\<close> is combined with byte \<open>i mod 4\<close> of the key as it lies
  in memory; and applying it twice, even to buffers at different addresses, restores the payload.
\<close>

theorem apply_mask_bytewise:
  "apply_mask big addr buf m = map (\<lambda>i. buf ! i XOR mask_key big m (i mod 4)) [0..<length buf] \<and>
   apply_mask big addr' (apply_mask big addr buf m) m = buf"
proof -
  have "mask_from key 0 buf = map (\<lambda>i. buf ! i XOR key (i mod 4)) [0..<length buf]" for key
    by (rule nth_equalityI) (simp_all add: nth_mask_from)
  with mask_from_involution [of "mask_key big m" 0 buf] show ?thesis
    by (simp only: apply_mask_mask_from)
qed

end
