(* ===== verification/Ws_Proto.thy ===== *)
theory Ws_Proto
  imports Ws_Mask
begin

text \<open>
  WebSocket protocol constants and the handshake hash (\<^verbatim>\<open>geario-http/src/ws/proto.rs\<close>, the error types
  of \<^verbatim>\<open>ws/error.rs\<close>): opcodes, close codes and the SHA-1 of \<^verbatim>\<open>hash_key\<close>. \<^verbatim>\<open>base64\<close> encoding is the
  parameter \<open>b64\<close>; \<open>None\<close> is a panic of an index or a slice copy.
\<close>

section \<open>Opcodes and close codes\<close>

datatype opcode = OpContinue | OpText | OpBinary | OpClose | OpPing | OpPong | OpBad

datatype protocol_error =
    UnmaskedFrame
  | MaskedFrame
  | InvalidOpcode u8
  | InvalidLength nat
  | BadOpCode
  | Overflow
  | ContinuationNotStarted
  | ContinuationStarted
  | ContinuationFragment opcode

datatype handshake_error =
    GetMethodRequired
  | NoWebsocketUpgrade
  | NoConnectionUpgrade
  | NoVersionHeader
  | UnsupportedWsVersion
  | BadWebsocketKey

fun opcode_to_u8 :: "opcode \<Rightarrow> u8" where
  "opcode_to_u8 OpContinue = 0"
| "opcode_to_u8 OpText = 1"
| "opcode_to_u8 OpBinary = 2"
| "opcode_to_u8 OpClose = 8"
| "opcode_to_u8 OpPing = 9"
| "opcode_to_u8 OpPong = 10"
| "opcode_to_u8 OpBad = 8"

definition opcode_from_u8 :: "u8 \<Rightarrow> opcode" where
  "opcode_from_u8 byte =
     (if byte = 0 then OpContinue
      else if byte = 1 then OpText
      else if byte = 2 then OpBinary
      else if byte = 8 then OpClose
      else if byte = 9 then OpPing
      else if byte = 10 then OpPong
      else OpBad)"

datatype close_code =
    Normal
  | Away
  | Protocol
  | Unsupported
  | Abnormal
  | Invalid
  | Policy
  | Size
  | Extension
  | ErrorCode
  | Restart
  | Again
  | Tls
  | Other u16

fun close_code_to_u16 :: "close_code \<Rightarrow> u16" where
  "close_code_to_u16 Normal = 1000"
| "close_code_to_u16 Away = 1001"
| "close_code_to_u16 Protocol = 1002"
| "close_code_to_u16 Unsupported = 1003"
| "close_code_to_u16 Abnormal = 1006"
| "close_code_to_u16 Invalid = 1007"
| "close_code_to_u16 Policy = 1008"
| "close_code_to_u16 Size = 1009"
| "close_code_to_u16 Extension = 1010"
| "close_code_to_u16 ErrorCode = 1011"
| "close_code_to_u16 Restart = 1012"
| "close_code_to_u16 Again = 1013"
| "close_code_to_u16 Tls = 1015"
| "close_code_to_u16 (Other code) = code"

definition close_code_from_u16 :: "u16 \<Rightarrow> close_code" where
  "close_code_from_u16 code =
     (if code = 1000 then Normal
      else if code = 1001 then Away
      else if code = 1002 then Protocol
      else if code = 1003 then Unsupported
      else if code = 1006 then Abnormal
      else if code = 1007 then Invalid
      else if code = 1008 then Policy
      else if code = 1009 then Size
      else if code = 1010 then Extension
      else if code = 1011 then ErrorCode
      else if code = 1012 then Restart
      else if code = 1013 then Again
      else if code = 1015 then Tls
      else Other code)"

text \<open>The description is the UTF-8 encoding of the string.\<close>

record close_reason =
  cr_code :: close_code
  cr_description :: "u8 list option"

lemma opcode_roundtrip: "op \<noteq> OpBad \<Longrightarrow> opcode_from_u8 (opcode_to_u8 op) = op"
  by (cases op) (simp_all add: opcode_from_u8_def)

lemma opcode_to_u8_inverse: "opcode_from_u8 b \<noteq> OpBad \<Longrightarrow> opcode_to_u8 (opcode_from_u8 b) = b"
  by (simp add: opcode_from_u8_def split: if_splits)

lemma close_code_u16_roundtrip: "close_code_to_u16 (close_code_from_u16 c) = c"
  by (simp add: close_code_from_u16_def)

text \<open>\<open>Other\<close> is meant for the codes without a constructor; only then the code comes back unchanged.\<close>

lemma close_code_roundtrip:
  "close_code_from_u16 (close_code_to_u16 c) = c \<longleftrightarrow>
     (case c of Other k \<Rightarrow> close_code_from_u16 k = Other k | _ \<Rightarrow> True)"
  by (cases c) (simp_all add: close_code_from_u16_def)

section \<open>The handshake hash\<close>

function pad_loop :: "u8 list \<Rightarrow> nat \<Rightarrow> (u8 list \<times> nat) option" where
  "pad_loop inp cur =
     (if (cur * 8) mod 512 = 448 then Some (inp, cur)
      else if cur \<ge> length inp then None
      else pad_loop (inp[cur := 0]) (cur + 1))"
  by pat_completeness auto
termination
  by (relation "measure (\<lambda>(inp, cur). length inp - cur)") auto

declare pad_loop.simps [simp del]

definition pad_message :: "nat \<Rightarrow> u8 list \<Rightarrow> u8 list option" where
  "pad_message len inp =
     (if len \<ge> length inp then None
      else
        case pad_loop (inp[len := 0x80]) (len + 1) of
          None \<Rightarrow> None
        | Some (inp', cur) \<Rightarrow>
            let orig_len = be_bytes 8 (of_nat len * 8 :: u64);
                total = cur + length orig_len
            in if total > length inp' then None
               else Some (take total (take cur inp' @ orig_len @ drop total inp')))"

text \<open>The message schedule: sixteen words of the chunk, extended to eighty.\<close>

definition schedule_init :: "u8 list \<Rightarrow> u32 list" where
  "schedule_init chunk =
     (let ws = map from_be (chunks 4 chunk) in ws @ replicate (80 - length ws) 0)"

definition schedule_step :: "u32 list \<Rightarrow> nat \<Rightarrow> u32 list" where
  "schedule_step s i =
     s[i := word_rotl 1 (s ! (i - 3) XOR s ! (i - 8) XOR s ! (i - 14) XOR s ! (i - 16))]"

definition schedule :: "u8 list \<Rightarrow> u32 list" where
  "schedule chunk = foldl schedule_step (schedule_init chunk) [16..<80]"

type_synonym sha_state = "u32 \<times> u32 \<times> u32 \<times> u32 \<times> u32"

fun sha_round :: "sha_state \<Rightarrow> nat \<times> u32 \<Rightarrow> sha_state" where
  "sha_round (a, b, c, d, e) (i, sch) =
     (let (f, k) =
            (if i \<le> 19 then ((b AND c) OR (NOT b AND d), 0x5A827999)
             else if i \<le> 39 then (b XOR c XOR d, 0x6ED9EBA1)
             else if i \<le> 59 then ((b AND c) OR (b AND d) OR (c AND d), 0x8F1BBCDC)
             else (b XOR c XOR d, 0xCA62C1D6));
          temp = word_rotl 5 a + f + e + k + sch
      in (temp, a, word_rotl 30 b, c, d))"

fun sha_chunk :: "sha_state \<Rightarrow> u8 list \<Rightarrow> sha_state" where
  "sha_chunk (h0, h1, h2, h3, h4) chunk =
     (case foldl sha_round (h0, h1, h2, h3, h4) (enumerate 0 (schedule chunk)) of
        (a, b, c, d, e) \<Rightarrow> (h0 + a, h1 + b, h2 + c, h3 + d, h4 + e))"

definition sha_init :: sha_state where
  "sha_init = (0x67452301, 0xEFCDAB89, 0x98BADCFE, 0x10325476, 0xC3D2E1F0)"

definition sha_digest :: "u8 list \<Rightarrow> u8 list" where
  "sha_digest msg =
     (case foldl sha_chunk sha_init (chunks 64 msg) of
        (h0, h1, h2, h3, h4) \<Rightarrow>
          be_bytes 4 h0 @ be_bytes 4 h1 @ be_bytes 4 h2 @ be_bytes 4 h3 @ be_bytes 4 h4)"

definition WS_GUID :: "u8 list" where
  "WS_GUID = map of_char ''258EAFA5-E914-47DA-95CA-C5AB0DC85B11''"

definition hash_key :: "(u8 list \<Rightarrow> string) \<Rightarrow> u8 list \<Rightarrow> (handshake_error + string) option" where
  "hash_key b64 key =
     (if length key > 32 then Some (Err BadWebsocketKey)
      else
        let klen = length key;
            len = klen + 36;
            input = key @ WS_GUID @ replicate (192 - len) 0
        in case pad_message len input of
             None \<Rightarrow> None
           | Some msg \<Rightarrow> Some (Ok (b64 (sha_digest msg))))"

section \<open>Padding\<close>

lemma length_WS_GUID [simp]: "length WS_GUID = 36"
  by (simp add: WS_GUID_def)

text \<open>The loop writes zeros up to the next position that is 56 modulo 64.\<close>

lemma pad_loop_zeros:
  assumes "cur + z < length inp" "(cur + z) mod 64 = 56" "\<forall>y<z. (cur + y) mod 64 \<noteq> 56"
  shows "\<exists>inp'. pad_loop inp cur = Some (inp', cur + z) \<and> length inp' = length inp \<and>
    take (cur + z) inp' = take cur inp @ replicate z 0"
  using assms
proof (induction z arbitrary: inp cur)
  case 0
  have "(cur * 8) mod 512 = 8 * (cur mod 64)" using mod_mult_mult1 [of 8 cur 64] by (simp add: mult.commute)
  with 0 show ?case by (subst pad_loop.simps) simp
next
  case (Suc z)
  have m: "(cur * 8) mod 512 = 8 * (cur mod 64)" using mod_mult_mult1 [of 8 cur 64] by (simp add: mult.commute)
  have "cur mod 64 \<noteq> 56" using Suc.prems(3) by (metis add.right_neutral zero_less_Suc)
  with m Suc.prems(1) have step: "pad_loop inp cur = pad_loop (inp[cur := 0]) (cur + 1)"
    by (subst pad_loop.simps) auto
  have "\<forall>y<z. (cur + 1 + y) mod 64 \<noteq> 56"
    using Suc.prems(3) by (metis add.assoc Suc_mono plus_1_eq_Suc)
  from Suc.IH [of "cur + 1" "inp[cur := 0]"] Suc.prems this obtain inp' where
    i: "pad_loop (inp[cur := 0]) (cur + 1) = Some (inp', cur + 1 + z)" "length inp' = length inp"
    "take (cur + 1 + z) inp' = take (cur + 1) (inp[cur := 0]) @ replicate z 0"
    by auto
  have "take (cur + 1) (inp[cur := 0]) = take cur inp @ [0]"
    using Suc.prems(1) by (simp add: take_Suc_conv_app_nth)
  with i step show ?case by (simp add: replicate_append_same [symmetric])
qed

lemma pad_gap:
  "\<exists>z<64. (c + z) mod 64 = 56 \<and> (\<forall>y<z. (c + y) mod (64 :: nat) \<noteq> 56)"
proof -
  define r where "r = c mod 64"
  define z where "z = (if r \<le> 56 then 56 - r else 120 - r)"
  have r: "r < 64" by (simp add: r_def)
  have mod: "(c + y) mod 64 = (r + y) mod 64" for y by (simp add: r_def mod_add_left_eq)
  have "(r + z) mod 64 = 56" using r by (simp add: z_def)
  moreover have "(r + y) mod 64 \<noteq> 56" if "y < z" for y
  proof (cases "r + y < 64")
    case True
    with that r show ?thesis by (auto simp: z_def split: if_splits)
  next
    case False
    then obtain d where d: "r + y = 64 + d" by (metis le_iff_add not_less)
    with that r have "d < 56" by (auto simp: z_def split: if_splits)
    with d show ?thesis by simp
  qed
  moreover have "z < 64" using r by (auto simp: z_def)
  ultimately show ?thesis using mod by auto
qed

lemma pad_gap_eq:
  assumes "z < 64" "(a + 1 + z) mod 64 = 56"
  shows "z = (119 - a mod 64) mod (64 :: nat)"
proof -
  define r where "r = a mod 64"
  have r: "r < 64" by (simp add: r_def)
  have "(r + (1 + z)) mod 64 = 56" using assms(2) by (simp only: r_def mod_add_left_eq add.assoc)
  show ?thesis
  proof (cases "r + (1 + z) < 64")
    case True
    with \<open>(r + (1 + z)) mod 64 = 56\<close> have "119 - r = 64 + z" by simp
    with assms(1) show ?thesis by (simp add: r_def)
  next
    case False
    then obtain d where d: "r + (1 + z) = 64 + d" by (metis le_iff_add not_less)
    with r assms(1) have "d < 64" by simp
    with d \<open>(r + (1 + z)) mod 64 = 56\<close> have "119 - r = z" by simp
    with assms(1) show ?thesis by (simp add: r_def)
  qed
qed

lemma pad_message_spec:
  assumes "len + 73 \<le> length inp"
  shows "\<exists>z<64. (len + 1 + z) mod 64 = 56 \<and>
    pad_message len inp = Some (take len inp @ [0x80] @ replicate z 0 @ be_bytes 8 (of_nat len * 8 :: u64))"
proof -
  obtain z where z: "z < 64" "(len + 1 + z) mod 64 = 56" "\<forall>y<z. (len + 1 + y) mod 64 \<noteq> 56"
    using pad_gap by blast
  let ?inp = "inp[len := 0x80]"
  have "len + 1 + z < length ?inp" using assms z(1) by simp
  from pad_loop_zeros [OF this z(2,3)] obtain inp' where
    p: "pad_loop ?inp (len + 1) = Some (inp', len + 1 + z)" "length inp' = length inp"
    "take (len + 1 + z) inp' = take (len + 1) ?inp @ replicate z 0"
    by auto
  have t: "take (len + 1) ?inp = take len inp @ [0x80]"
    using assms by (simp add: take_Suc_conv_app_nth)
  have "pad_message len inp = Some (take (len + 1 + z + 8) (take (len + 1 + z) inp' @
      be_bytes 8 (of_nat len * 8 :: u64) @ drop (len + 1 + z + 8) inp'))"
    using assms p(1,2) z(1) by (simp add: pad_message_def)
  also have "\<dots> = Some (take (len + 1 + z) inp' @ be_bytes 8 (of_nat len * 8 :: u64))"
    using assms p(2) z(1) by simp
  finally show ?thesis using p(3) t z(1,2) by auto
qed

section \<open>The schedule\<close>

lemma length_schedule_step [simp]: "length (schedule_step s i) = length s"
  by (simp add: schedule_step_def)

lemma length_schedule_fold [simp]: "length (foldl schedule_step s is) = length s"
  by (induction "is" arbitrary: s) simp_all

lemma schedule_fold:
  assumes "16 \<le> n" "n \<le> length s"
  shows "(\<forall>i<16. foldl schedule_step s [16..<n] ! i = s ! i) \<and>
    (\<forall>i. 16 \<le> i \<and> i < n \<longrightarrow> (let w = foldl schedule_step s [16..<n] in
       w ! i = word_rotl 1 (w ! (i - 3) XOR w ! (i - 8) XOR w ! (i - 14) XOR w ! (i - 16))))"
  using assms
proof (induction n rule: dec_induct)
  case base
  then show ?case by auto
next
  case (step n)
  let ?w = "foldl schedule_step s [16..<n]"
  have w: "foldl schedule_step s [16..<Suc n] = schedule_step ?w n"
    using step.hyps by simp
  have same: "schedule_step ?w n ! i = ?w ! i" if "i < n" for i
    using that by (simp add: schedule_step_def)
  have new: "schedule_step ?w n ! n = word_rotl 1 (?w ! (n - 3) XOR ?w ! (n - 8) XOR ?w ! (n - 14) XOR ?w ! (n - 16))"
    using step.prems by (simp add: schedule_step_def)
  show ?case
    using step same new unfolding w by (auto simp: Let_def less_Suc_eq)
qed

lemma length_chunks: "0 < n \<Longrightarrow> length (chunks n xs) = (length xs + n - 1) div n"
proof (induction n xs rule: chunks.induct)
  case (1 n xs)
  show ?case
  proof (cases "xs = []")
    case True
    with 1 show ?thesis by (simp add: chunks.simps [of n "[]"])
  next
    case False
    with 1 have "length (chunks n xs) = Suc ((length xs - n + n - 1) div n)"
      by (subst chunks.simps) simp
    also have "\<dots> = (length xs + n - 1) div n"
    proof (cases "length xs \<le> n")
      case True
      moreover from False obtain m where "length xs = Suc m" by (cases xs) auto
      ultimately have "(length xs + n - 1) div n = 1"
        using "1.prems" by (intro div_nat_eqI) simp_all
      with True "1.prems" show ?thesis by simp
    next
      case gt: False
      then have eq: "length xs + n - 1 = (length xs - n + n - 1) + n" by simp
      show ?thesis unfolding eq using "1.prems" by (simp only: div_add_self2)
    qed
    finally show ?thesis .
  qed
qed

lemma length_schedule_init: "length chunk = 64 \<Longrightarrow> length (schedule_init chunk) = 80"
  by (simp add: schedule_init_def Let_def length_chunks)

section \<open>Properties\<close>

text \<open>
  C27: The handshake hash pads every admissible key as SHA-1 prescribes: the key and the GUID, a byte
  \<^verbatim>\<open>0x80\<close>, zeros up to 56 modulo 64, and the length in bits as eight bytes, big endian. All writes
  stay within the 192-byte buffer, the loop ends, and a key of more than 32 bytes is refused.
\<close>

theorem hash_key_padding:
  "hash_key b64 key =
     (if length key > 32 then Some (Err BadWebsocketKey)
      else
        let z = (119 - (length key + 36) mod 64) mod 64
        in Some (Ok (b64 (sha_digest (key @ WS_GUID @ [0x80] @ replicate z 0 @
             be_bytes 8 (of_nat (length key + 36) * 8 :: u64))))))"
proof (cases "length key > 32")
  case True
  then show ?thesis by (simp add: hash_key_def)
next
  case False
  let ?len = "length key + 36"
  let ?inp = "key @ WS_GUID @ replicate (192 - ?len) 0"
  have "?len + 73 \<le> length ?inp" using False by simp
  from pad_message_spec [OF this] obtain z where z: "z < 64" "(?len + 1 + z) mod 64 = 56"
    and p: "pad_message ?len ?inp = Some (take ?len ?inp @ [0x80] @ replicate z 0 @
      be_bytes 8 (of_nat ?len * 8 :: u64))"
    by blast
  note pad_gap_eq [OF z]
  with False p show ?thesis by (simp add: hash_key_def Let_def)
qed

text \<open>
  The message schedule of a 64-byte chunk is that of SHA-1: the first sixteen words are the
  big-endian words of the chunk and every later one is the rotated combination of four earlier ones.
\<close>

lemma schedule_recurrence:
  assumes "length chunk = 64"
  shows "length (schedule chunk) = 80 \<and>
    (\<forall>i<16. schedule chunk ! i = from_be (chunks 4 chunk ! i)) \<and>
    (\<forall>i. 16 \<le> i \<and> i < 80 \<longrightarrow>
       schedule chunk ! i = word_rotl 1 (schedule chunk ! (i - 3) XOR schedule chunk ! (i - 8) XOR
         schedule chunk ! (i - 14) XOR schedule chunk ! (i - 16)))"
proof -
  have len: "length (schedule_init chunk) = 80" by (rule length_schedule_init [OF assms])
  have "schedule_init chunk ! i = from_be (chunks 4 chunk ! i)" if "i < 16" for i
    using that assms by (simp add: schedule_init_def Let_def nth_append length_chunks)
  with schedule_fold [of 80 "schedule_init chunk"] len show ?thesis
    by (simp add: schedule_def Let_def)
qed

end
