(* ===== verification/Ws_Frame.thy ===== *)
theory Ws_Frame
  imports Ws_Proto Utf8
begin

text \<open>
  The WebSocket frame parser and writer (\<^verbatim>\<open>geario-http/src/ws/frame.rs\<close>). The buffer is the list of its
  bytes, returned with what the parser left in it; \<open>big\<close> and \<open>addr\<close> are the byte order of the target
  and the address of the buffer, which \<^verbatim>\<open>apply_mask\<close> reads. A length is a \<^typ>\<open>nat\<close> below the range of
  \<^verbatim>\<open>usize\<close> (64 bits); \<open>None\<close> as the result of \<open>parse\<close> is the panic of the unchecked addition
  \<^verbatim>\<open>idx + length\<close>. The masking key of \<^verbatim>\<open>write_message\<close> comes from a random number generator and is the
  argument \<open>rnd\<close>.
\<close>

section \<open>Definitions\<close>

abbreviation usize_range :: nat where
  "usize_range \<equiv> 18446744073709551616"

text \<open>The extended length; \<open>idx\<close> is the position after it.\<close>

definition parse_length :: "u8 list \<Rightarrow> u8 \<Rightarrow> nat \<Rightarrow> protocol_error + (nat \<times> nat) option" where
  "parse_length src len max_size =
     (if len = 126 then
        if length src < 4 then Ok None
        else Ok (Some (4, unat (from_be (take 2 (drop 2 src)) :: u16)))
      else if len = 127 then
        if length src < 10 then Ok None
        else
          let len = unat (from_be (take 8 (drop 2 src)) :: u64)
          in if len > max_size then Err Overflow else Ok (Some (10, len))
      else Ok (Some (2, unat len)))"

definition parse_metadata ::
  "u8 list \<Rightarrow> bool \<Rightarrow> nat \<Rightarrow> protocol_error + (nat \<times> bool \<times> opcode \<times> nat \<times> u32 option) option" where
  "parse_metadata src server max_size =
     (if length src < 2 then Ok None
      else
        let first = src ! 0;
            second = src ! 1;
            finished = (first AND 0x80 \<noteq> 0);
            masked = (second AND 0x80 \<noteq> 0)
        in if \<not> masked \<and> server then Err UnmaskedFrame
           else if masked \<and> \<not> server then Err MaskedFrame
           else
             let opcode = opcode_from_u8 (first AND 0x0F)
             in if opcode = OpBad then Err (InvalidOpcode (first AND 0x0F))
                else
                  case parse_length src (second AND 0x7F) max_size of
                    Err e \<Rightarrow> Err e
                  | Ok None \<Rightarrow> Ok None
                  | Ok (Some (idx, len)) \<Rightarrow>
                      if len > max_size then Err Overflow
                      else if server then
                        if length src < idx + 4 then Ok None
                        else Ok (Some (idx + 4, finished, opcode, len, Some (from_le (take 4 (drop idx src)))))
                      else Ok (Some (idx, finished, opcode, len, None)))"

definition parse ::
  "bool \<Rightarrow> nat \<Rightarrow> u8 list \<Rightarrow> bool \<Rightarrow> nat \<Rightarrow>
   ((protocol_error + (bool \<times> opcode \<times> u8 list option) option) \<times> u8 list) option" where
  "parse big addr src server max_size =
     (case parse_metadata src server max_size of
        Err e \<Rightarrow> Some (Err e, src)
      | Ok None \<Rightarrow> Some (Ok None, src)
      | Ok (Some (idx, finished, opcode, len, msk)) \<Rightarrow>
          if idx + len \<ge> usize_range then None
          else if length src < idx + len then Some (Ok None, src)
          else
            let src = drop idx src
            in if len = 0 then Some (Ok (Some (finished, opcode, None)), src)
               else if (opcode = OpPing \<or> opcode = OpPong) \<and> len > 125 then Some (Err (InvalidLength len), src)
               else if opcode = OpClose \<and> len > 125 then Some (Ok (Some (True, OpClose, None)), src)
               else
                 let body = take len src;
                     body = (case msk of Some m \<Rightarrow> apply_mask big (addr + idx) body m | None \<Rightarrow> body)
                 in Some (Ok (Some (finished, opcode, Some body)), drop len src))"

definition parse_close_payload :: "u8 list \<Rightarrow> close_reason option" where
  "parse_close_payload payload =
     (if length payload \<ge> 2 then
        Some \<lparr>cr_code = close_code_from_u16 (from_be (take 2 payload)),
          cr_description = (if length payload > 2 then Some (utf8_lossy (drop 2 payload)) else None)\<rparr>
      else None)"

definition write_message ::
  "bool \<Rightarrow> nat \<Rightarrow> u32 \<Rightarrow> u8 list \<Rightarrow> u8 list \<Rightarrow> opcode \<Rightarrow> bool \<Rightarrow> bool \<Rightarrow> u8 list" where
  "write_message big addr rnd dst payload op fin mask_it =
     (let one = (if fin then 0x80 OR opcode_to_u8 op else opcode_to_u8 op);
          payload_len = length payload;
          two = (if mask_it then 0x80 else 0 :: u8);
          dst = dst @
            (if payload_len < 126 then [one, two OR of_nat payload_len]
             else if payload_len \<le> 65535 then [one, two OR 0x7E] @ be_bytes 2 (of_nat payload_len :: u16)
             else [one, two OR 127] @ be_bytes 8 (of_nat payload_len :: u64))
      in if mask_it then dst @ le_bytes 4 rnd @ apply_mask big addr payload rnd
         else dst @ payload)"

definition close_payload :: "close_reason option \<Rightarrow> u8 list" where
  "close_payload reason =
     (case reason of
        None \<Rightarrow> []
      | Some r \<Rightarrow> be_bytes 2 (close_code_to_u16 (cr_code r)) @ (case cr_description r of None \<Rightarrow> [] | Some d \<Rightarrow> d))"

definition write_close ::
  "bool \<Rightarrow> nat \<Rightarrow> u32 \<Rightarrow> u8 list \<Rightarrow> close_reason option \<Rightarrow> bool \<Rightarrow> u8 list" where
  "write_close big addr rnd dst reason mask_it =
     write_message big addr rnd dst (close_payload reason) OpClose True mask_it"

section \<open>Growing input\<close>

lemma parse_length_append:
  assumes "parse_length src len max_size \<noteq> Ok None"
  shows "parse_length (src @ bs) len max_size = parse_length src len max_size"
  using assms by (auto simp: parse_length_def Let_def split: if_splits)

lemma parse_length_idx:
  "parse_length src len max_size = Ok (Some (idx, n)) \<Longrightarrow> 2 \<le> idx \<and> idx \<le> 10"
  by (auto simp: parse_length_def Let_def split: if_splits)

lemma parse_metadata_append:
  assumes "parse_metadata src server max_size \<noteq> Ok None"
  shows "parse_metadata (src @ bs) server max_size = parse_metadata src server max_size"
proof (cases "parse_length src (src ! 1 AND 0x7F) max_size")
  case (Inl e)
  with assms parse_length_append [of src "src ! 1 AND 0x7F" max_size bs] show ?thesis
    by (auto simp: parse_metadata_def Let_def nth_append)
next
  case (Inr r)
  with assms parse_length_append [of src "src ! 1 AND 0x7F" max_size bs] show ?thesis
    by (cases r) (auto simp: parse_metadata_def Let_def nth_append split: if_splits)
qed

lemma parse_metadata_bounds:
  assumes "parse_metadata src server max_size = Ok (Some (idx, fin, op, len, msk))"
  shows "2 \<le> idx \<and> idx \<le> 14 \<and> len \<le> max_size"
  using assms parse_length_idx
  by (fastforce simp: parse_metadata_def Let_def split: if_splits sum.splits option.splits)

text \<open>What is parsed, or refused, on a buffer stays so when more bytes arrive behind it.\<close>

lemma parse_append:
  assumes "parse big addr src server max_size \<noteq> Some (Ok None, src)"
  shows "parse big addr (src @ bs) server max_size =
    map_option (\<lambda>(r, left). (r, left @ bs)) (parse big addr src server max_size)"
proof (cases "parse_metadata src server max_size")
  case (Inl e)
  with parse_metadata_append [of src server max_size bs] show ?thesis
    by (simp add: parse_def)
next
  case (Inr r)
  with assms have "r \<noteq> None" by (cases r) (simp_all add: parse_def)
  with Inr obtain idx fin op len msk where
    m: "parse_metadata src server max_size = Ok (Some (idx, fin, op, len, msk))"
    by (cases r) auto
  with parse_metadata_append [of src server max_size bs]
  have m': "parse_metadata (src @ bs) server max_size = Ok (Some (idx, fin, op, len, msk))"
    by simp
  show ?thesis
  proof (cases "usize_range \<le> idx + len")
    case True
    then show ?thesis by (simp add: parse_def m m')
  next
    case False
    with assms have "idx + len \<le> length src" by (simp add: parse_def m split: if_splits)
    with False show ?thesis by (simp add: parse_def m m' Let_def)
  qed
qed

lemma parse_pending:
  "parse big addr src server max_size = Some (Ok None, left) \<Longrightarrow> left = src"
  by (auto simp: parse_def Let_def split: sum.splits option.splits if_splits)

lemma parse_consumes:
  "parse big addr src server max_size = Some (Ok (Some r), left) \<Longrightarrow> length left < length src"
  using parse_metadata_bounds [of src server max_size]
  by (fastforce simp: parse_def Let_def split: sum.splits option.splits if_splits)

lemma parse_total:
  "max_size + 14 < usize_range \<Longrightarrow> parse big addr src server max_size \<noteq> None"
  using parse_metadata_bounds [of src server max_size]
  by (fastforce simp: parse_def Let_def split: sum.splits option.splits if_splits)

text \<open>The address of the buffer does not matter.\<close>

lemma parse_addr: "parse big addr src server max_size = parse big addr' src server max_size"
  unfolding parse_def apply_mask_mask_from ..

section \<open>Parsing what was written\<close>

lemma or_high_bit:
  fixes w :: u8
  assumes "w < 128"
  shows "(0x80 OR w) AND 0x80 \<noteq> 0" "(0x80 OR w) AND 0x7F = w" "w AND 0x80 = 0" "w AND 0x7F = w"
proof -
  have "w AND 0x7F = take_bit 7 w" by (simp add: take_bit_eq_mask mask_eq_exp_minus_1)
  moreover have "unat (take_bit 7 w) = unat w"
    using assms by (simp add: unsigned_take_bit_eq take_bit_nat_eq_self_iff word_less_nat_alt)
  ultimately have w: "w AND 0x7F = w" by (metis word_unat_eq_iff)
  have "w AND 0x80 = w AND (0x7F AND 0x80)" by (metis w and.assoc)
  then show hi: "w AND 0x80 = 0" by simp
  show "(0x80 OR w) AND 0x80 \<noteq> 0" by (simp add: bit.conj_disj_distrib2 hi)
  show "(0x80 OR w) AND 0x7F = w" by (simp add: bit.conj_disj_distrib2 w)
  show "w AND 0x7F = w" by (rule w)
qed

lemma opcode_bits:
  "op \<noteq> OpBad \<Longrightarrow> opcode_from_u8 ((0x80 OR opcode_to_u8 op) AND 0x0F) = op"
  "op \<noteq> OpBad \<Longrightarrow> opcode_from_u8 (opcode_to_u8 op AND 0x0F) = op"
  "(0x80 OR opcode_to_u8 op) AND 0x80 \<noteq> 0" "opcode_to_u8 op AND 0x80 = 0"
  by (cases op; simp add: opcode_from_u8_def)+

text \<open>The first bytes of a frame and its extended length.\<close>

definition first_byte :: "opcode \<Rightarrow> bool \<Rightarrow> u8" where
  "first_byte op fin = (if fin then 0x80 OR opcode_to_u8 op else opcode_to_u8 op)"

definition size_byte :: "nat \<Rightarrow> u8" where
  "size_byte n = (if n < 126 then of_nat n else if n \<le> 65535 then 126 else 127)"

definition size_ext :: "nat \<Rightarrow> u8 list" where
  "size_ext n =
     (if n < 126 then [] else if n \<le> 65535 then be_bytes 2 (of_nat n :: u16) else be_bytes 8 (of_nat n :: u64))"

lemma write_message_parts:
  "write_message big addr rnd dst pl op fin mask_it =
     dst @ first_byte op fin # ((if mask_it then 0x80 else 0) OR size_byte (length pl)) # size_ext (length pl) @
     (if mask_it then le_bytes 4 rnd @ mask_from (mask_key big rnd) 0 pl else pl)"
  by (simp add: write_message_def Let_def first_byte_def size_byte_def size_ext_def apply_mask_mask_from)

lemma size_byte_less: "size_byte n < 128"
  by (simp add: size_byte_def word_less_nat_alt unat_of_nat)

lemma parse_length_size:
  assumes "n < usize_range" "n \<le> max_size"
  shows "parse_length (a # b # size_ext n @ bs) (size_byte n) max_size = Ok (Some (2 + length (size_ext n), n))"
proof -
  consider "n < 126" | "126 \<le> n" "n \<le> 65535" | "65535 < n" by linarith
  then show ?thesis
  proof cases
    case 1
    then have "unat (of_nat n :: u8) = n" by (simp add: unat_of_nat)
    then have "(of_nat n :: u8) \<noteq> 126" "(of_nat n :: u8) \<noteq> 127" using 1 by auto
    with 1 \<open>unat _ = n\<close> show ?thesis by (simp add: parse_length_def size_byte_def size_ext_def)
  next
    case 2
    then have "unat (of_nat n :: u16) = n" by (simp add: unat_of_nat)
    with 2 show ?thesis
      by (simp add: parse_length_def size_byte_def size_ext_def from_be_be_bytes)
  next
    case 3
    then have "unat (of_nat n :: u64) = n" using assms by (simp add: unat_of_nat)
    with 3 assms show ?thesis
      by (simp add: parse_length_def size_byte_def size_ext_def from_be_be_bytes Let_def)
  qed
qed

lemma parse_metadata_write:
  assumes "op \<noteq> OpBad" "n < usize_range" "n \<le> max_size"
  shows "parse_metadata (first_byte op fin # ((if server then 0x80 else 0) OR size_byte n) # size_ext n @
      (if server then le_bytes 4 rnd else []) @ bs) server max_size =
    Ok (Some (2 + length (size_ext n) + (if server then 4 else 0), fin, op, n, if server then Some rnd else None))"
proof -
  have op: "opcode_from_u8 (first_byte op fin AND 0x0F) = op" "(first_byte op fin AND 0x80 \<noteq> 0) = fin"
    using assms(1) opcode_bits [of op] by (auto simp: first_byte_def)
  note len = parse_length_size [OF assms(2,3), of "first_byte op fin"]
  show ?thesis
    using assms by (simp add: parse_metadata_def op len or_high_bit [OF size_byte_less] from_le_le_bytes Let_def)
qed

lemma parse_pending_bound:
  assumes "parse big addr src server max_size = Some (Ok None, left)"
  shows "length src < max_size + 14"
proof (cases "parse_metadata src server max_size")
  case (Inl e)
  with assms show ?thesis by (simp add: parse_def)
next
  case (Inr r)
  show ?thesis
  proof (cases r)
    case None
    with Inr show ?thesis
      using parse_length_idx [of src "src ! 1 AND 0x7F" max_size]
      by (auto simp: parse_metadata_def parse_length_def Let_def split: if_splits)
  next
    case (Some x)
    obtain idx fin op len msk where x: "x = (idx, fin, op, len, msk)" by (cases x)
    with assms Inr Some parse_metadata_bounds [of src server max_size idx fin op len msk]
    show ?thesis by (auto simp: parse_def Let_def split: if_splits)
  qed
qed

lemma written_frame:
  obtains pre where "length pre \<le> 14"
    and "\<And>bs. write_message big addr rnd [] pl op fin server @ bs =
      pre @ (if server then apply_mask big addr pl rnd else pl) @ bs"
    and "\<And>bs max_size. op \<noteq> OpBad \<Longrightarrow> length pl < usize_range \<Longrightarrow> length pl \<le> max_size \<Longrightarrow>
      parse_metadata (pre @ bs) server max_size =
        Ok (Some (length pre, fin, op, length pl, if server then Some rnd else None))"
proof
  let ?pre = "first_byte op fin # ((if server then 0x80 else 0) OR size_byte (length pl)) # size_ext (length pl) @
      (if server then le_bytes 4 rnd else [])"
  show "length ?pre \<le> 14" by (simp add: size_ext_def)
  show "write_message big addr rnd [] pl op fin server @ bs =
      ?pre @ (if server then apply_mask big addr pl rnd else pl) @ bs" for bs
    by (simp add: write_message_parts apply_mask_mask_from)
  show "parse_metadata (?pre @ bs) server max_size =
        Ok (Some (length ?pre, fin, op, length pl, if server then Some rnd else None))"
    if "op \<noteq> OpBad" "length pl < usize_range" "length pl \<le> max_size" for bs max_size
    using parse_metadata_write [OF that, of fin server rnd bs] by simp
qed

lemma parse_oversized_close:
  assumes "125 < length pl" "length pl \<le> max_size" "max_size + 14 < usize_range"
  shows "parse big addr (write_message big addr' rnd [] pl OpClose True server @ bs) server max_size =
    Some (Ok (Some (True, OpClose, None)), (if server then apply_mask big addr' pl rnd else pl) @ bs)"
proof -
  obtain pre where pre: "length pre \<le> 14"
    "\<And>bs. write_message big addr' rnd [] pl OpClose True server @ bs =
      pre @ (if server then apply_mask big addr' pl rnd else pl) @ bs"
    "\<And>bs max_size. length pl < usize_range \<Longrightarrow> length pl \<le> max_size \<Longrightarrow>
      parse_metadata (pre @ bs) server max_size =
        Ok (Some (length pre, True, OpClose, length pl, if server then Some rnd else None))"
    by (rule written_frame [of big addr' rnd pl OpClose True server]) auto
  have "length (if server then apply_mask big addr' pl rnd else pl) = length pl"
    by (simp add: apply_mask_mask_from)
  with assms pre show ?thesis by (simp add: parse_def Let_def)
qed

lemma parse_write_message:
  assumes "op \<noteq> OpBad" "length pl \<le> max_size" "max_size + 14 < usize_range"
    and "op \<in> {OpPing, OpPong, OpClose} \<longrightarrow> length pl \<le> 125"
  shows "parse big addr (write_message big addr' rnd [] pl op fin server @ bs) server max_size =
    Some (Ok (Some (fin, op, if pl = [] then None else Some pl)), bs)"
proof -
  obtain pre where pre: "length pre \<le> 14"
    "\<And>bs. write_message big addr' rnd [] pl op fin server @ bs =
      pre @ (if server then apply_mask big addr' pl rnd else pl) @ bs"
    "\<And>bs max_size. op \<noteq> OpBad \<Longrightarrow> length pl < usize_range \<Longrightarrow> length pl \<le> max_size \<Longrightarrow>
      parse_metadata (pre @ bs) server max_size =
        Ok (Some (length pre, fin, op, length pl, if server then Some rnd else None))"
    using written_frame [of big addr' rnd pl op fin server] by blast
  have "length (if server then apply_mask big addr' pl rnd else pl) = length pl"
    by (simp add: apply_mask_mask_from)
  with assms pre show ?thesis
    by (auto simp: parse_def Let_def apply_mask_mask_from mask_from_involution)
qed

text \<open>A close reason survives when its description is a non-empty valid string and its code canonical.\<close>

definition canonical_reason :: "close_reason option \<Rightarrow> bool" where
  "canonical_reason reason =
     (case reason of
        None \<Rightarrow> True
      | Some r \<Rightarrow>
          close_code_from_u16 (close_code_to_u16 (cr_code r)) = cr_code r \<and>
          (case cr_description r of None \<Rightarrow> True | Some d \<Rightarrow> d \<noteq> [] \<and> utf8_valid d))"

lemma parse_close_payload_roundtrip:
  "parse_close_payload (close_payload reason) = reason \<longleftrightarrow> canonical_reason reason"
proof (cases reason)
  case None
  then show ?thesis by (simp add: close_payload_def parse_close_payload_def canonical_reason_def)
next
  case (Some r)
  obtain c d where r: "r = \<lparr>cr_code = c, cr_description = d\<rparr>" by (cases r)
  show ?thesis
  proof (cases d)
    case None
    with Some r show ?thesis
      by (simp add: close_payload_def parse_close_payload_def canonical_reason_def from_be_be_bytes)
  next
    case d: (Some t)
    have "utf8_lossy t = t \<longleftrightarrow> utf8_valid t" using utf8_lossy_valid utf8_valid_lossy by metis
    with Some r d show ?thesis
      by (auto simp: close_payload_def parse_close_payload_def canonical_reason_def from_be_be_bytes)
  qed
qed

end
