(* ===== verification/Ws_Codec.thy ===== *)
theory Ws_Codec
  imports Ws_Frame
begin

text \<open>
  The WebSocket codec (\<^verbatim>\<open>geario-http/src/ws/codec.rs\<close>): messages and frames, the flags that track
  fragmented messages in both directions, the encoder and the decoder. \<open>ws_drain\<close> is the reading loop
  of the framing layer: it decodes until the codec asks for more input or fails.
\<close>

section \<open>Definitions\<close>

datatype ws_item = FirstText "u8 list" | FirstBinary "u8 list" | ContItem "u8 list" | LastItem "u8 list"

datatype ws_message =
    MText "u8 list"
  | MBinary "u8 list"
  | MContinuation ws_item
  | MPing "u8 list"
  | MPong "u8 list"
  | MClose "close_reason option"

datatype ws_frame =
    FText "u8 list"
  | FBinary "u8 list"
  | FContinuation ws_item
  | FPing "u8 list"
  | FPong "u8 list"
  | FClose "close_reason option"

record ws_codec =
  wc_flags :: u8
  wc_max_size :: nat

abbreviation W_SERVER :: u8 where "W_SERVER \<equiv> 0x01"
abbreviation W_R_CONTINUATION :: u8 where "W_R_CONTINUATION \<equiv> 0x02"
abbreviation W_W_CONTINUATION :: u8 where "W_W_CONTINUATION \<equiv> 0x04"
abbreviation W_CLOSED :: u8 where "W_CLOSED \<equiv> 0x08"

definition wc_new :: ws_codec where
  "wc_new = \<lparr>wc_flags = W_SERVER, wc_max_size = 65536\<rparr>"

definition wc_set_max_size :: "ws_codec \<Rightarrow> nat \<Rightarrow> ws_codec" where
  "wc_set_max_size c n = c\<lparr>wc_max_size := n\<rparr>"

definition wc_insert_flags :: "ws_codec \<Rightarrow> u8 \<Rightarrow> ws_codec" where
  "wc_insert_flags c f = c\<lparr>wc_flags := fl_insert (wc_flags c) f\<rparr>"

definition wc_remove_flags :: "ws_codec \<Rightarrow> u8 \<Rightarrow> ws_codec" where
  "wc_remove_flags c f = c\<lparr>wc_flags := fl_remove (wc_flags c) f\<rparr>"

definition wc_client_mode :: "ws_codec \<Rightarrow> ws_codec" where
  "wc_client_mode c = wc_remove_flags c W_SERVER"

definition wc_has :: "ws_codec \<Rightarrow> u8 \<Rightarrow> bool" where
  "wc_has c f = fl_contains (wc_flags c) f"

definition wc_is_closed :: "ws_codec \<Rightarrow> bool" where
  "wc_is_closed c = wc_has c W_CLOSED"

definition wc_encode_page :: "bool \<Rightarrow> nat \<Rightarrow> u32 \<Rightarrow> ws_codec \<Rightarrow> u8 list \<Rightarrow> u8 list \<Rightarrow> u8 list" where
  "wc_encode_page big addr rnd c page dst =
     write_message big addr rnd dst page OpBinary True (\<not> wc_has c W_SERVER)"

text \<open>The encoder returns its result, the codec and the output buffer.\<close>

definition wc_encodev ::
  "bool \<Rightarrow> nat \<Rightarrow> u32 \<Rightarrow> ws_codec \<Rightarrow> ws_message \<Rightarrow> u8 list \<Rightarrow> (protocol_error + unit) \<times> ws_codec \<times> u8 list"
where
  "wc_encodev big addr rnd c item dst =
     (let msk = (\<not> wc_has c W_SERVER);
          write = write_message big addr rnd dst
      in case item of
        MText txt \<Rightarrow> (Ok (), c, write txt OpText True msk)
      | MBinary bin \<Rightarrow> (Ok (), c, write bin OpBinary True msk)
      | MPing txt \<Rightarrow> (Ok (), c, write txt OpPing True msk)
      | MPong txt \<Rightarrow> (Ok (), c, write txt OpPong True msk)
      | MClose reason \<Rightarrow>
          let c = wc_insert_flags c W_CLOSED
          in (Ok (), c, write_close big addr rnd dst reason (\<not> wc_has c W_SERVER))
      | MContinuation cont \<Rightarrow>
          (case cont of
             FirstText data \<Rightarrow>
               if wc_has c W_W_CONTINUATION then (Err ContinuationStarted, c, dst)
               else
                 let c = wc_insert_flags c W_W_CONTINUATION
                 in (Ok (), c, write data OpText False (\<not> wc_has c W_SERVER))
           | FirstBinary data \<Rightarrow>
               if wc_has c W_W_CONTINUATION then (Err ContinuationStarted, c, dst)
               else
                 let c = wc_insert_flags c W_W_CONTINUATION
                 in (Ok (), c, write data OpBinary False (\<not> wc_has c W_SERVER))
           | ContItem data \<Rightarrow>
               if wc_has c W_W_CONTINUATION then (Ok (), c, write data OpContinue False msk)
               else (Err ContinuationNotStarted, c, dst)
           | LastItem data \<Rightarrow>
               if wc_has c W_W_CONTINUATION then
                 let c = wc_remove_flags c W_W_CONTINUATION
                 in (Ok (), c, write data OpContinue True (\<not> wc_has c W_SERVER))
               else (Err ContinuationNotStarted, c, dst)))"

text \<open>What the decoder makes of a parsed frame.\<close>

definition wc_finished :: "ws_codec \<Rightarrow> opcode \<Rightarrow> u8 list option \<Rightarrow> (protocol_error + ws_frame) \<times> ws_codec" where
  "wc_finished c opcode payload =
     (let data = (case payload of None \<Rightarrow> [] | Some pl \<Rightarrow> pl)
      in case opcode of
        OpContinue \<Rightarrow>
          if wc_has c W_R_CONTINUATION then
            (Ok (FContinuation (LastItem data)), wc_remove_flags c W_R_CONTINUATION)
          else (Err ContinuationNotStarted, c)
      | OpBad \<Rightarrow> (Err BadOpCode, c)
      | OpClose \<Rightarrow>
          (Ok (FClose (case payload of None \<Rightarrow> None | Some pl \<Rightarrow> parse_close_payload pl)), c)
      | OpPing \<Rightarrow> (Ok (FPing data), c)
      | OpPong \<Rightarrow> (Ok (FPong data), c)
      | OpBinary \<Rightarrow> (Ok (FBinary data), c)
      | OpText \<Rightarrow> (Ok (FText data), c))"

definition wc_unfinished :: "ws_codec \<Rightarrow> opcode \<Rightarrow> u8 list option \<Rightarrow> (protocol_error + ws_frame) \<times> ws_codec" where
  "wc_unfinished c opcode payload =
     (let data = (case payload of None \<Rightarrow> [] | Some pl \<Rightarrow> pl)
      in case opcode of
        OpContinue \<Rightarrow>
          if wc_has c W_R_CONTINUATION then (Ok (FContinuation (ContItem data)), c)
          else (Err ContinuationNotStarted, c)
      | OpBinary \<Rightarrow>
          if wc_has c W_R_CONTINUATION then (Err ContinuationStarted, c)
          else (Ok (FContinuation (FirstBinary data)), wc_insert_flags c W_R_CONTINUATION)
      | OpText \<Rightarrow>
          if wc_has c W_R_CONTINUATION then (Err ContinuationStarted, c)
          else (Ok (FContinuation (FirstText data)), wc_insert_flags c W_R_CONTINUATION)
      | OpPing \<Rightarrow> (Ok (FPing data), c)
      | OpPong \<Rightarrow> (Ok (FPong data), c)
      | OpBad \<Rightarrow> (Err BadOpCode, c)
      | OpClose \<Rightarrow> (Err (ContinuationFragment opcode), c))"

definition wc_decode ::
  "bool \<Rightarrow> nat \<Rightarrow> ws_codec \<Rightarrow> u8 list \<Rightarrow> ((protocol_error + ws_frame option) \<times> ws_codec \<times> u8 list) option"
where
  "wc_decode big addr c src =
     (case parse big addr src (wc_has c W_SERVER) (wc_max_size c) of
        None \<Rightarrow> None
      | Some (Ok (Some (finished, opcode, payload)), src') \<Rightarrow>
          (case (if finished then wc_finished else wc_unfinished) c opcode payload of
             (Ok f, c') \<Rightarrow> Some (Ok (Some f), c', src')
           | (Err e, c') \<Rightarrow> Some (Err e, c', src'))
      | Some (Ok None, src') \<Rightarrow> Some (Ok None, c, src')
      | Some (Err e, src') \<Rightarrow> Some (Err e, c, src'))"

section \<open>Reading a stream\<close>

lemma wc_decode_consumes:
  "wc_decode big addr c src = Some (Ok (Some f), c', src') \<Longrightarrow> length src' < length src"
  using parse_consumes [of big addr src "wc_has c W_SERVER" "wc_max_size c"]
  by (auto simp: wc_decode_def split: option.splits sum.splits prod.splits)

function ws_drain ::
  "bool \<times> nat \<Rightarrow> ws_codec \<Rightarrow> u8 list \<Rightarrow> (ws_frame list \<times> protocol_error drain_end \<times> ws_codec \<times> u8 list) option"
where
  "ws_drain p c src =
     (case wc_decode (fst p) (snd p) c src of
        None \<Rightarrow> None
      | Some (Err e, c', src') \<Rightarrow> Some ([], Failed e, c', src')
      | Some (Ok None, c', src') \<Rightarrow> Some ([], NeedMore, c', src')
      | Some (Ok (Some f), c', src') \<Rightarrow> prepend [f] (ws_drain p c' src'))"
  by pat_completeness auto
termination
  by (relation "measure (\<lambda>(p, c, src). length src)") (auto dest: wc_decode_consumes)

declare ws_drain.simps [simp del]

lemma wc_decode_append:
  assumes "wc_decode big addr c src \<noteq> Some (Ok None, c, src)"
  shows "wc_decode big addr c (src @ bs) =
    map_option (\<lambda>(r, c', left). (r, c', left @ bs)) (wc_decode big addr c src)"
proof -
  have "parse big addr src (wc_has c W_SERVER) (wc_max_size c) \<noteq> Some (Ok None, src)"
    using assms by (auto simp: wc_decode_def)
  from parse_append [OF this, of bs] show ?thesis
    by (auto simp: wc_decode_def split: option.splits sum.splits prod.splits)
qed

lemma wc_decode_pending:
  "wc_decode big addr c src = Some (Ok None, c', src') \<Longrightarrow> c' = c \<and> src' = src"
  by (auto simp: wc_decode_def dest: parse_pending split: option.splits sum.splits prod.splits if_splits)

interpretation ws_stream: incremental "\<lambda>_. True" ws_drain
proof
  fix p c a b
  show "ws_drain p c (a @ b) = resume (ws_drain p c a) (ws_drain p) b"
  proof (induction p c a rule: ws_drain.induct)
    case (1 p c a)
    note app = wc_decode_append [of "fst p" "snd p" c a b]
    show ?case
    proof (cases "wc_decode (fst p) (snd p) c a")
      case None
      with app show ?thesis by (simp add: ws_drain.simps [of p c])
    next
      case (Some r)
      obtain x c' left where r: "r = (x, c', left)" by (cases r)
      show ?thesis
      proof (cases x)
        case (Inl e)
        with app Some r show ?thesis by (simp add: ws_drain.simps [of p c])
      next
        case x: (Inr y)
        show ?thesis
        proof (cases y)
          case None
          with Some r x wc_decode_pending [of "fst p" "snd p" c a] show ?thesis
            by (simp add: ws_drain.simps [of p c a])
        next
          case y: (Some f)
          with Some r x 1 have "ws_drain p c' (left @ b) = resume (ws_drain p c' left) (ws_drain p) b"
            by simp
          with app Some r x y show ?thesis
            by (simp add: ws_drain.simps [of p c] resume_prepend)
        qed
      qed
    qed
  qed
qed

section \<open>Both ends of a connection\<close>

lemma wc_has_simps [simp]:
  "wc_has (wc_insert_flags c f) f"
  "f AND g = 0 \<Longrightarrow> wc_has (wc_insert_flags c f) g = wc_has c g"
  "f \<noteq> 0 \<Longrightarrow> \<not> wc_has (wc_remove_flags c f) f"
  "f AND g = 0 \<Longrightarrow> wc_has (wc_remove_flags c f) g = wc_has c g"
  "wc_max_size (wc_insert_flags c f) = wc_max_size c"
  "wc_max_size (wc_remove_flags c f) = wc_max_size c"
  by (simp_all add: wc_has_def wc_insert_flags_def wc_remove_flags_def flag_simps)

text \<open>
  The peer of an encoder is a decoder in the other role that agrees on whether a fragmented message
  is under way.
\<close>

definition peers :: "ws_codec \<Rightarrow> ws_codec \<Rightarrow> bool" where
  "peers enc dec \<longleftrightarrow>
     wc_has enc W_SERVER \<noteq> wc_has dec W_SERVER \<and>
     wc_has enc W_W_CONTINUATION = wc_has dec W_R_CONTINUATION"

fun item_data :: "ws_item \<Rightarrow> u8 list" where
  "item_data (FirstText d) = d"
| "item_data (FirstBinary d) = d"
| "item_data (ContItem d) = d"
| "item_data (LastItem d) = d"

fun message_data :: "ws_message \<Rightarrow> u8 list" where
  "message_data (MText d) = d"
| "message_data (MBinary d) = d"
| "message_data (MContinuation i) = item_data i"
| "message_data (MPing d) = d"
| "message_data (MPong d) = d"
| "message_data (MClose r) = close_payload r"

fun frame_of :: "ws_message \<Rightarrow> ws_frame" where
  "frame_of (MText d) = FText d"
| "frame_of (MBinary d) = FBinary d"
| "frame_of (MContinuation i) = FContinuation i"
| "frame_of (MPing d) = FPing d"
| "frame_of (MPong d) = FPong d"
| "frame_of (MClose r) = FClose r"

text \<open>The messages a peer with the given limit can be sent: control frames carry at most 125 bytes.\<close>

definition msg_fits :: "nat \<Rightarrow> ws_message \<Rightarrow> bool" where
  "msg_fits max_size m \<longleftrightarrow>
     length (message_data m) \<le> max_size \<and>
     (case m of
        MPing d \<Rightarrow> length d \<le> 125
      | MPong d \<Rightarrow> length d \<le> 125
      | MClose r \<Rightarrow> length (close_payload r) \<le> 125 \<and> canonical_reason r
      | _ \<Rightarrow> True)"

lemma write_message_append:
  "write_message big addr rnd dst pl op fin msk = dst @ write_message big addr rnd [] pl op fin msk"
  by (simp add: write_message_parts)

text \<open>The header a message is written with, and the flags of the encoder after it.\<close>

fun message_op :: "ws_message \<Rightarrow> opcode \<times> bool" where
  "message_op (MText _) = (OpText, True)"
| "message_op (MBinary _) = (OpBinary, True)"
| "message_op (MPing _) = (OpPing, True)"
| "message_op (MPong _) = (OpPong, True)"
| "message_op (MClose _) = (OpClose, True)"
| "message_op (MContinuation (FirstText _)) = (OpText, False)"
| "message_op (MContinuation (FirstBinary _)) = (OpBinary, False)"
| "message_op (MContinuation (ContItem _)) = (OpContinue, False)"
| "message_op (MContinuation (LastItem _)) = (OpContinue, True)"

lemma wc_encodev_Ok:
  assumes "wc_encodev big addr rnd c m dst = (Ok (), c', out)"
  shows "out = dst @ write_message big addr rnd [] (message_data m) (fst (message_op m)) (snd (message_op m))
      (\<not> wc_has c W_SERVER)"
    and "wc_has c' W_SERVER = wc_has c W_SERVER"
  using assms
  by (cases m rule: message_op.cases;
      auto simp: wc_encodev_def write_close_def Let_def write_message_append [of _ _ _ dst] split: if_splits)+

lemma close_payload_Nil: "close_payload r = [] \<longleftrightarrow> r = None"
  by (cases r) (auto simp: close_payload_def simp flip: length_0_conv)

lemma parsed_payload [simp]:
  "(case (if pl = [] then None else Some pl) of None \<Rightarrow> [] | Some x \<Rightarrow> x) = pl"
  by simp

lemma wc_receive:
  assumes "peers enc dec" "wc_encodev big addr rnd enc m dst = (Ok (), enc', out)" "msg_fits n m"
  shows "\<exists>dec'. (if snd (message_op m) then wc_finished else wc_unfinished) dec (fst (message_op m))
      (if message_data m = [] then None else Some (message_data m)) = (Ok (frame_of m), dec') \<and>
    peers enc' dec' \<and> wc_max_size dec' = wc_max_size dec"
  using assms
  by (cases m rule: message_op.cases)
    (auto simp: wc_encodev_def wc_finished_def wc_unfinished_def peers_def msg_fits_def Let_def
      close_payload_Nil parse_close_payload_roundtrip split: if_splits)

lemma wc_decode_encode:
  assumes "peers enc dec" "wc_encodev big addr rnd enc m dst = (Ok (), enc', out)"
    and "msg_fits (wc_max_size dec) m" "wc_max_size dec + 14 < usize_range"
  shows "\<exists>wire dec'. out = dst @ wire \<and>
    (\<forall>addr' bs. wc_decode big addr' dec (wire @ bs) = Some (Ok (Some (frame_of m)), dec', bs)) \<and>
    peers enc' dec' \<and> wc_max_size dec' = wc_max_size dec"
proof -
  let ?wire = "write_message big addr rnd [] (message_data m) (fst (message_op m)) (snd (message_op m)) (wc_has dec W_SERVER)"
  have "out = dst @ ?wire" using wc_encodev_Ok(1) [OF assms(2)] assms(1) by (simp add: peers_def)
  moreover have "parse big addr' (?wire @ bs) (wc_has dec W_SERVER) (wc_max_size dec) =
      Some (Ok (Some (snd (message_op m), fst (message_op m),
        if message_data m = [] then None else Some (message_data m))), bs)" for addr' bs
    using assms(3,4)
    by (intro parse_write_message; cases m rule: message_op.cases) (auto simp: msg_fits_def)
  moreover obtain dec' where
    "(if snd (message_op m) then wc_finished else wc_unfinished) dec (fst (message_op m))
      (if message_data m = [] then None else Some (message_data m)) = (Ok (frame_of m), dec')"
    "peers enc' dec'" "wc_max_size dec' = wc_max_size dec"
    using wc_receive [OF assms(1,2,3)] by blast
  ultimately show ?thesis by (auto simp: wc_decode_def)
qed

text \<open>Sending a sequence of messages, each with its random key and the address of its payload.\<close>

fun wc_send ::
  "bool \<Rightarrow> ws_codec \<Rightarrow> (u32 \<times> nat \<times> ws_message) list \<Rightarrow> u8 list \<Rightarrow> (protocol_error + unit) \<times> ws_codec \<times> u8 list"
where
  "wc_send big c [] dst = (Ok (), c, dst)"
| "wc_send big c ((rnd, addr, m) # ms) dst =
     (case wc_encodev big addr rnd c m dst of
        (Ok _, c', dst') \<Rightarrow> wc_send big c' ms dst'
      | (Err e, c', dst') \<Rightarrow> (Err e, c', dst'))"

abbreviation sent_message :: "u32 \<times> nat \<times> ws_message \<Rightarrow> ws_message" where
  "sent_message \<equiv> (\<lambda>(_, _, m). m)"

lemma ws_drain_frame:
  "wc_decode (fst p) (snd p) c src = Some (Ok (Some f), c', src') \<Longrightarrow>
   ws_drain p c src = prepend [f] (ws_drain p c' src')"
  by (simp add: ws_drain.simps [of p c src])

lemma wc_decode_empty [simp]: "wc_decode big addr c [] = Some (Ok None, c, [])"
  by (simp add: wc_decode_def parse_def parse_metadata_def)

lemma ws_drain_send:
  assumes "peers enc dec" "wc_send (fst p) enc ms dst = (Ok (), enc', out)"
    and "\<forall>x\<in>set ms. msg_fits (wc_max_size dec) (sent_message x)" "wc_max_size dec + 14 < usize_range"
  shows "\<exists>wire dec'. out = dst @ wire \<and> ws_drain p dec wire = Some (map (frame_of \<circ> sent_message) ms, NeedMore, dec', []) \<and>
    peers enc' dec' \<and> wc_max_size dec' = wc_max_size dec"
  using assms
proof (induction ms arbitrary: enc dec dst)
  case Nil
  then show ?case by (auto simp: ws_drain.simps [of p dec])
next
  case (Cons x ms)
  obtain rnd addr m where x: "x = (rnd, addr, m)" by (cases x)
  obtain r c1 d1 where r: "wc_encodev (fst p) addr rnd enc m dst = (r, c1, d1)" by (rule prod_cases3)
  have "r = Ok ()" using Cons.prems(2) x r by (cases r) simp_all
  with r have e: "wc_encodev (fst p) addr rnd enc m dst = (Ok (), c1, d1)" by simp
  with Cons.prems(2) x have send: "wc_send (fst p) c1 ms d1 = (Ok (), enc', out)" by simp
  have fits: "msg_fits (wc_max_size dec) m" using Cons.prems(3) x by simp
  obtain w1 dec1 where d: "d1 = dst @ w1" "peers c1 dec1" "wc_max_size dec1 = wc_max_size dec"
    and first: "\<And>addr' bs. wc_decode (fst p) addr' dec (w1 @ bs) = Some (Ok (Some (frame_of m)), dec1, bs)"
    using wc_decode_encode [OF Cons.prems(1) e fits Cons.prems(4)] by blast
  have "\<forall>x\<in>set ms. msg_fits (wc_max_size dec1) (sent_message x)" "wc_max_size dec1 + 14 < usize_range"
    using Cons.prems(3,4) d(3) by simp_all
  from Cons.IH [OF d(2) send this] obtain w2 dec2 where
    i: "out = d1 @ w2" "ws_drain p dec1 w2 = Some (map (frame_of \<circ> sent_message) ms, NeedMore, dec2, [])"
    "peers enc' dec2" "wc_max_size dec2 = wc_max_size dec1"
    by blast
  have "ws_drain p dec (w1 @ w2) = Some (map (frame_of \<circ> sent_message) (x # ms), NeedMore, dec2, [])"
    using ws_drain_frame [OF first] i(2) x by simp
  with d i show ?case by auto
qed

section \<open>The order of fragments\<close>

text \<open>
  The protocol of fragmented messages: a first fragment only outside of a fragmented message, a
  continuation or a last fragment only inside of one. The result is whether one is under way.
\<close>

fun fragments :: "bool \<Rightarrow> ws_frame list \<Rightarrow> bool option" where
  "fragments b [] = Some b"
| "fragments b (FContinuation (FirstText _) # fs) = (if b then None else fragments True fs)"
| "fragments b (FContinuation (FirstBinary _) # fs) = (if b then None else fragments True fs)"
| "fragments b (FContinuation (ContItem _) # fs) = (if b then fragments True fs else None)"
| "fragments b (FContinuation (LastItem _) # fs) = (if b then fragments False fs else None)"
| "fragments b (_ # fs) = fragments b fs"

lemma fragments_frame:
  assumes "(if fin then wc_finished else wc_unfinished) c op payload = (Ok f, c')"
  shows "fragments (wc_has c W_R_CONTINUATION) (f # fs) = fragments (wc_has c' W_R_CONTINUATION) fs"
  using assms
  by (cases fin; cases op) (auto simp: wc_finished_def wc_unfinished_def Let_def split: if_splits)

lemma wc_decode_Ok:
  assumes "wc_decode big addr c src = Some (Ok (Some f), c', src')"
  shows "\<exists>fin op payload. parse big addr src (wc_has c W_SERVER) (wc_max_size c) = Some (Ok (Some (fin, op, payload)), src') \<and>
    (if fin then wc_finished else wc_unfinished) c op payload = (Ok f, c')"
  using assms by (fastforce simp: wc_decode_def split: option.splits sum.splits prod.splits)

lemma received_refused:
  assumes "(if fin then wc_finished else wc_unfinished) c op payload = (Err e, c')"
  shows "c' = c"
  using assms
  by (cases fin; cases op) (auto simp: wc_finished_def wc_unfinished_def Let_def split: if_splits)

lemma wc_decode_Err:
  assumes "wc_decode big addr c src = Some (Err e, c', src')"
  shows "c' = c"
  using assms received_refused
  by (fastforce simp: wc_decode_def split: option.splits sum.splits prod.splits)

lemma wc_decode_other:
  assumes "wc_decode big addr c src = Some (r, c', src')" "\<And>f. r \<noteq> Ok (Some f)"
  shows "c' = c"
proof (cases r)
  case (Inl e)
  with assms wc_decode_Err show ?thesis by blast
next
  case (Inr x)
  with assms wc_decode_pending [of big addr c src c' src'] show ?thesis by (cases x) auto
qed

text \<open>Payloads of frames.\<close>

fun frame_data :: "ws_frame \<Rightarrow> u8 list" where
  "frame_data (FText d) = d"
| "frame_data (FBinary d) = d"
| "frame_data (FContinuation i) = item_data i"
| "frame_data (FPing d) = d"
| "frame_data (FPong d) = d"
| "frame_data (FClose r) = []"

definition control_frame :: "ws_frame \<Rightarrow> bool" where
  "control_frame f = (case f of FPing _ \<Rightarrow> True | FPong _ \<Rightarrow> True | FClose _ \<Rightarrow> True | _ \<Rightarrow> False)"

lemma parse_payload:
  assumes "parse big addr src server max_size = Some (Ok (Some (fin, op, Some pl)), src')"
  shows "length pl \<le> max_size \<and> (op \<in> {OpPing, OpPong, OpClose} \<longrightarrow> length pl \<le> 125)"
proof -
  from assms obtain idx fin' op' len msk where
    m: "parse_metadata src server max_size = Ok (Some (idx, fin', op', len, msk))"
    by (auto simp: parse_def split: sum.splits option.splits)
  from assms parse_metadata_bounds [OF m] show ?thesis
    by (auto simp: parse_def m Let_def apply_mask_mask_from split: if_splits option.splits)
qed

lemma received_data:
  assumes "(if fin then wc_finished else wc_unfinished) c op payload = (Ok f, c')"
  shows "(frame_data f = [] \<or> payload = Some (frame_data f)) \<and> (control_frame f \<longrightarrow> op \<in> {OpPing, OpPong, OpClose})"
  using assms
  by (cases fin; cases op; cases payload)
    (auto simp: wc_finished_def wc_unfinished_def Let_def control_frame_def split: if_splits)

section \<open>Properties\<close>

text \<open>Evaluation of the codec on ground terms.\<close>

lemmas wc_eval = wc_encodev_def wc_client_mode_def wc_new_def wc_has_def wc_insert_flags_def
  wc_remove_flags_def fl_insert_def fl_remove_def fl_contains_def write_message_parts first_byte_def
  size_byte_def size_ext_def le_bytes_def wbyte_def mask_key_def upt_rec

text \<open>
  C28: A sequence of messages one codec has encoded, arriving in any fragments at a codec in the other
  role, is decoded to exactly these messages, in order, with nothing left over, whatever masking keys
  were drawn and wherever the buffers lie; and both codecs then again agree on whether a fragmented
  message is under way. Required is that each message fits the receiver's limit, that control
  messages have at most 125 bytes, and that a close reason is canonical.
\<close>

theorem ws_session_roundtrip:
  assumes "peers enc dec" "wc_send big enc ms [] = (Ok (), enc', wire)"
    and "\<forall>x\<in>set ms. msg_fits (wc_max_size dec) (sent_message x)" "wc_max_size dec + 14 < usize_range"
    and "concat (f # fs) = wire"
  shows "\<exists>dec'. feed (ws_drain (big, addr)) dec [] (f # fs) = Some (map (frame_of \<circ> sent_message) ms, NeedMore, dec', []) \<and>
    peers enc' dec'"
  using ws_drain_send [of enc dec "(big, addr)" ms "[]" enc' wire] assms
    ws_stream.feed_eq_run [of "(big, addr)" dec "[]" f fs]
  by auto

theorem ws_session_roundtrip_witness:
  "\<exists>dec'. feed (ws_drain (False, 5)) wc_new [] [[1, 0x80], [0, 0, 0, 0, 0x80], [0x81, 1, 2, 3, 4, 0x49]] =
     Some ([FContinuation (FirstText []), FContinuation (LastItem [0x48])], NeedMore, dec', [])"
proof -
  let ?ms = "[(0, 0, MContinuation (FirstText [])), (0x04030201, 7, MContinuation (LastItem [0x48]))]"
  have "wc_send False (wc_client_mode wc_new) ?ms [] =
    (Ok (), wc_client_mode wc_new, [1, 0x80, 0, 0, 0, 0, 0x80, 0x81, 1, 2, 3, 4, 0x49])"
    by (simp add: wc_eval)
  moreover have "peers (wc_client_mode wc_new) wc_new" by (simp add: peers_def wc_eval)
  moreover have "\<forall>x\<in>set ?ms. msg_fits (wc_max_size wc_new) (sent_message x)"
    by (simp add: msg_fits_def wc_new_def)
  moreover have "wc_max_size wc_new + 14 < usize_range" by (simp add: wc_new_def)
  ultimately show ?thesis
    using ws_session_roundtrip [of "wc_client_mode wc_new" wc_new False ?ms "wc_client_mode wc_new"
        "[1, 0x80, 0, 0, 0, 0, 0x80, 0x81, 1, 2, 3, 4, 0x49]" "[1, 0x80]"
        "[[0, 0, 0, 0, 0x80], [0x81, 1, 2, 3, 4, 0x49]]" 5]
    by auto
qed

text \<open>
  C31: Whatever bytes arrive, the frames a codec delivers keep the order of fragments: a first
  fragment only outside of a fragmented message, a continuation or last one only inside; the codec's
  flag tells which, also after an error.
\<close>

theorem ws_fragments_ordered:
  "case ws_drain p c src of
     None \<Rightarrow> True
   | Some (frames, _, c', _) \<Rightarrow>
       fragments (wc_has c W_R_CONTINUATION) frames = Some (wc_has c' W_R_CONTINUATION)"
proof (induction p c src rule: ws_drain.induct)
  case (1 p c src)
  show ?case
  proof (cases "wc_decode (fst p) (snd p) c src")
    case None
    then show ?thesis by (simp add: ws_drain.simps [of p c src])
  next
    case (Some r)
    obtain x c' left where r: "r = (x, c', left)" by (cases r)
    show ?thesis
    proof (cases "\<exists>f. x = Ok (Some f)")
      case True
      then obtain f where f: "x = Ok (Some f)" by blast
      with Some r have d: "wc_decode (fst p) (snd p) c src = Some (Ok (Some f), c', left)" by simp
      have "case ws_drain p c' left of None \<Rightarrow> True
        | Some (frames, _, c'', _) \<Rightarrow> fragments (wc_has c' W_R_CONTINUATION) frames = Some (wc_has c'' W_R_CONTINUATION)"
        using 1 [of r x "(c', left)" "Some f" f c' left] Some r f by simp
      moreover have "fragments (wc_has c W_R_CONTINUATION) (f # fs) = fragments (wc_has c' W_R_CONTINUATION) fs" for fs
        using wc_decode_Ok [OF d] fragments_frame by blast
      ultimately show ?thesis
        by (auto simp: ws_drain_frame [OF d] prepend_def split: option.splits)
    next
      case False
      then have "c' = c" using Some r wc_decode_other by blast
      with Some r False show ?thesis
        by (cases x) (auto simp: ws_drain.simps [of p c src] split: option.splits)
    qed
  qed
qed

text \<open>
  C32: A delivered payload never exceeds the limit of the codec nor, in a control frame, 125 bytes;
  the decoder never holds back more than the limit and a header of 14 bytes; and it cannot panic on
  any input unless the limit is within 14 of the range of \<^verbatim>\<open>usize\<close>.
\<close>

theorem ws_decoder_bounds:
  assumes "wc_max_size c + 14 < usize_range"
  shows "case wc_decode big addr c src of
     None \<Rightarrow> False
   | Some (Ok (Some f), _, _) \<Rightarrow>
       length (frame_data f) \<le> wc_max_size c \<and> (control_frame f \<longrightarrow> length (frame_data f) \<le> 125)
   | Some (Ok None, _, _) \<Rightarrow> length src < wc_max_size c + 14
   | Some (Err _, _, _) \<Rightarrow> True"
proof (cases "wc_decode big addr c src")
  case None
  with parse_total [OF assms, of big addr src "wc_has c W_SERVER"] show ?thesis
    by (auto simp: wc_decode_def split: option.splits sum.splits prod.splits)
next
  case (Some r)
  obtain x c' left where r: "r = (x, c', left)" by (cases r)
  consider (frame) f where "x = Ok (Some f)" | (more_data) "x = Ok None" | (error) e where "x = Err e"
    by (cases x; cases "projr x") auto
  then show ?thesis
  proof cases
    case frame
    with Some r have "wc_decode big addr c src = Some (Ok (Some f), c', left)" by simp
    from wc_decode_Ok [OF this] obtain fin op payload where
      p: "parse big addr src (wc_has c W_SERVER) (wc_max_size c) = Some (Ok (Some (fin, op, payload)), left)"
      "(if fin then wc_finished else wc_unfinished) c op payload = (Ok f, c')"
      by blast
    with received_data [OF p(2)] parse_payload [of big addr src] Some r frame show ?thesis by auto
  next
    case more_data
    with Some r have "parse big addr src (wc_has c W_SERVER) (wc_max_size c) = Some (Ok None, left)"
      by (auto simp: wc_decode_def split: option.splits sum.splits prod.splits)
    then have "length src < wc_max_size c + 14" by (rule parse_pending_bound)
    with Some r more_data show ?thesis by simp
  next
    case error
    with Some r show ?thesis by simp
  qed
qed

theorem ws_decoder_bounds_witness:
  "\<exists>f c' left. wc_decode False 0 (wc_client_mode wc_new) [0x82, 3, 7, 8, 9] = Some (Ok (Some f), c', left) \<and>
     length (frame_data f) \<le> 65536"
proof -
  have "wc_decode False 0 (wc_client_mode wc_new) [0x82, 3, 7, 8, 9] =
      Some (Ok (Some (FBinary [7, 8, 9])), wc_client_mode wc_new, [])"
    by (simp add: wc_decode_def parse_def parse_metadata_def parse_length_def opcode_from_u8_def
        wc_finished_def wc_eval)
  with ws_decoder_bounds [where c = "wc_client_mode wc_new" and big = False and addr = 0 and src = "[0x82, 3, 7, 8, 9]"] show ?thesis
    by (simp add: wc_client_mode_def wc_new_def)
qed

text \<open>
  The encoder refuses exactly the messages that break the order of fragments, and then writes
  nothing and keeps its state; a close message marks the codec as closed for good, as nothing clears
  the mark.
\<close>

lemma ws_encoder_contract:
  "case wc_encodev big addr rnd c m dst of
     (Err e, c', out) \<Rightarrow>
       c' = c \<and> out = dst \<and> fragments (wc_has c W_W_CONTINUATION) [frame_of m] = None
   | (Ok _, c', out) \<Rightarrow>
       fragments (wc_has c W_W_CONTINUATION) [frame_of m] = Some (wc_has c' W_W_CONTINUATION) \<and>
       wc_has c' W_SERVER = wc_has c W_SERVER \<and> wc_has c' W_R_CONTINUATION = wc_has c W_R_CONTINUATION \<and>
       wc_is_closed c' = (wc_is_closed c \<or> (\<exists>r. m = MClose r)) \<and> (\<exists>wire. out = dst @ wire \<and> wire \<noteq> [])"
  by (cases m rule: message_op.cases)
    (simp_all add: wc_encodev_def wc_is_closed_def Let_def write_close_def write_message_parts)

text \<open>
  C33: The payload of a close frame of more than 125 bytes is not consumed: the decoder reports a
  close without reason and then reads the payload, still masked, as further frames.
\<close>

theorem ws_oversized_close_reparsed:
  assumes "125 < length pl" "length pl \<le> wc_max_size c" "wc_max_size c + 14 < usize_range"
  shows "ws_drain (big, addr) c (write_message big addr' rnd [] pl OpClose True (wc_has c W_SERVER) @ bs) =
    prepend [FClose None]
      (ws_drain (big, addr) c ((if wc_has c W_SERVER then apply_mask big addr' pl rnd else pl) @ bs))"
proof -
  have "parse big addr (write_message big addr' rnd [] pl OpClose True (wc_has c W_SERVER) @ bs)
      (wc_has c W_SERVER) (wc_max_size c) =
    Some (Ok (Some (True, OpClose, None)), (if wc_has c W_SERVER then apply_mask big addr' pl rnd else pl) @ bs)"
    using assms by (rule parse_oversized_close)
  then show ?thesis
    by (intro ws_drain_frame) (simp add: wc_decode_def wc_finished_def)
qed

theorem ws_oversized_close_reparsed_witness:
  "ws_drain (False, 0) (wc_client_mode wc_new)
     (write_message False 0 0 [] (replicate 126 0) OpClose True False) =
   prepend [FClose None] (ws_drain (False, 0) (wc_client_mode wc_new) (replicate 126 0))"
  using ws_oversized_close_reparsed [of "replicate 126 0" "wc_client_mode wc_new" False 0 0 0 "[]"]
  by (simp add: wc_client_mode_def wc_new_def wc_has_def wc_remove_flags_def fl_remove_def fl_contains_def)

end
