(* ===== verification/Ws_Transport.thy ===== *)
theory Ws_Transport
  imports Ws_Codec
begin

text \<open>
  The byte stream over WebSocket messages (\<^verbatim>\<open>geario-http/src/ws/transport.rs\<close>) and the sink for messages
  (\<^verbatim>\<open>ws/sink.rs\<close>). The buffers of the IO filter are a record: what has been received and not decoded, what
  has been decoded for the application, what is to be sent, whether the stream has been closed, and how
  many masking keys have been drawn. The masking keys are an argument.
\<close>

section \<open>The filter\<close>

abbreviation WT_CLOSED :: u8 where "WT_CLOSED \<equiv> 0x01"
abbreviation WT_CONTINUATION :: u8 where "WT_CONTINUATION \<equiv> 0x02"
abbreviation WT_PROTO_ERR :: u8 where "WT_PROTO_ERR \<equiv> 0x04"

record ws_transport =
  wt_codec :: ws_codec
  wt_flags :: u8

record ws_bufs =
  wb_src :: "u8 list"
  wb_dst :: "u8 list"
  wb_out :: "u8 list"
  wb_closed :: bool
  wb_drawn :: nat

text \<open>The two kinds of \<^verbatim>\<open>io::ErrorKind::InvalidData\<close>: with the error of the codec and with a text.\<close>

datatype transport_error = TeProtocol protocol_error | TeText string

definition wt_create :: "ws_codec \<Rightarrow> ws_transport" where
  "wt_create codec = \<lparr>wt_codec = codec, wt_flags = 0\<rparr>"

definition wt_insert_flags :: "u8 \<Rightarrow> ws_transport \<Rightarrow> ws_transport" where
  "wt_insert_flags f t = t\<lparr>wt_flags := fl_insert (wt_flags t) f\<rparr>"

definition wt_remove_flags :: "u8 \<Rightarrow> ws_transport \<Rightarrow> ws_transport" where
  "wt_remove_flags f t = t\<lparr>wt_flags := fl_remove (wt_flags t) f\<rparr>"

definition wt_continuation_must_start :: "string \<Rightarrow> ws_transport \<Rightarrow> (transport_error + unit) \<times> ws_transport" where
  "wt_continuation_must_start msg t =
     (if fl_contains (wt_flags t) WT_CONTINUATION then (Ok (), t)
      else (Err (TeText msg), wt_insert_flags WT_PROTO_ERR t))"

text \<open>The encoder of the codec on the output, with the next masking key.\<close>

definition wt_encode ::
  "bool \<Rightarrow> nat \<Rightarrow> (nat \<Rightarrow> u32) \<Rightarrow> ws_message \<Rightarrow> ws_transport \<Rightarrow> ws_bufs \<Rightarrow> (protocol_error + unit) \<times> ws_transport \<times> ws_bufs" where
  "wt_encode big addr key m t b =
     (let (r, codec, out) = wc_encodev big addr (key (wb_drawn b)) (wt_codec t) m (wb_out b)
      in (r, t\<lparr>wt_codec := codec\<rparr>, b\<lparr>wb_out := out, wb_drawn := wb_drawn b + 1\<rparr>))"

definition wt_shutdown :: "bool \<Rightarrow> nat \<Rightarrow> (nat \<Rightarrow> u32) \<Rightarrow> ws_transport \<Rightarrow> ws_bufs \<Rightarrow> ws_transport \<times> ws_bufs" where
  "wt_shutdown big addr key t b =
     (if \<not> fl_contains (wt_flags t) WT_CLOSED then
        let code = (if fl_contains (wt_flags t) WT_PROTO_ERR then Protocol else Normal);
            t = wt_insert_flags WT_CLOSED t
        in snd (wt_encode big addr key (MClose (Some \<lparr>cr_code = code, cr_description = None\<rparr>)) t b)
      else (t, b))"

text \<open>What is done with one frame; the result says whether the loop goes on.\<close>

definition wt_frame ::
  "bool \<Rightarrow> nat \<Rightarrow> (nat \<Rightarrow> u32) \<Rightarrow> ws_frame \<Rightarrow> ws_transport \<Rightarrow> ws_bufs \<Rightarrow> (transport_error + bool) \<times> ws_transport \<times> ws_bufs" where
  "wt_frame big addr key f t b =
     (let data = (\<lambda>bin. b\<lparr>wb_dst := wb_dst b @ bin\<rparr>)
      in case f of
        FBinary bin \<Rightarrow> (Ok True, t, data bin)
      | FContinuation (FirstBinary bin) \<Rightarrow> (Ok True, wt_insert_flags WT_CONTINUATION t, data bin)
      | FContinuation (ContItem bin) \<Rightarrow>
          (case wt_continuation_must_start ''Continuation frame is not started'' t of
             (Err e, t) \<Rightarrow> (Err e, t, b)
           | (Ok _, t) \<Rightarrow> (Ok True, t, data bin))
      | FContinuation (LastItem bin) \<Rightarrow>
          (case wt_continuation_must_start ''Continuation frame is not started, last frame is received'' t of
             (Err e, t) \<Rightarrow> (Err e, t, b)
           | (Ok _, t) \<Rightarrow> (Ok True, wt_remove_flags WT_CONTINUATION t, data bin))
      | FContinuation (FirstText _) \<Rightarrow>
          (Err (TeText ''WebSocket Text continuation frames are not supported''), wt_insert_flags WT_PROTO_ERR t, b)
      | FText _ \<Rightarrow> (Err (TeText ''WebSockets Text frames are not supported''), wt_insert_flags WT_PROTO_ERR t, b)
      | FPing msg \<Rightarrow> (let (_, t, b) = wt_encode big addr key (MPong msg) t b in (Ok True, t, b))
      | FPong _ \<Rightarrow> (Ok True, t, b)
      | FClose _ \<Rightarrow> (Ok False, t, b\<lparr>wb_closed := True\<rparr>))"

lemma wt_frame_src: "wt_frame big addr key f t b = (r, t', b') \<Longrightarrow> wb_src b' = wb_src b"
  by (auto simp: wt_frame_def wt_encode_def Let_def split: ws_frame.splits ws_item.splits prod.splits sum.splits)

function wt_read ::
  "bool \<Rightarrow> nat \<Rightarrow> (nat \<Rightarrow> u32) \<Rightarrow> ws_transport \<Rightarrow> ws_bufs \<Rightarrow> ((transport_error + unit) \<times> ws_transport \<times> ws_bufs) option" where
  "wt_read big addr key t b =
     (case wc_decode big addr (wt_codec t) (wb_src b) of
        None \<Rightarrow> None
      | Some (Err e, codec, src) \<Rightarrow>
          Some (Err (TeProtocol e), wt_insert_flags WT_PROTO_ERR (t\<lparr>wt_codec := codec\<rparr>), b\<lparr>wb_src := src\<rparr>)
      | Some (Ok None, codec, src) \<Rightarrow> Some (Ok (), t\<lparr>wt_codec := codec\<rparr>, b\<lparr>wb_src := src\<rparr>)
      | Some (Ok (Some f), codec, src) \<Rightarrow>
          (case wt_frame big addr key f (t\<lparr>wt_codec := codec\<rparr>) (b\<lparr>wb_src := src\<rparr>) of
             (Err e, t, b) \<Rightarrow> Some (Err e, t, b)
           | (Ok False, t, b) \<Rightarrow> Some (Ok (), t, b)
           | (Ok True, t, b) \<Rightarrow> wt_read big addr key t b))"
  by pat_completeness auto
termination
  by (relation "measure (\<lambda>(big, addr, key, t, b). length (wb_src b))") (auto dest!: wc_decode_consumes dest: wt_frame_src [OF sym])

declare wt_read.simps [simp del]

fun wt_write ::
  "bool \<Rightarrow> nat \<Rightarrow> (nat \<Rightarrow> u32) \<Rightarrow> ws_transport \<Rightarrow> u8 list list \<Rightarrow> ws_bufs \<Rightarrow> ws_bufs" where
  "wt_write big addr key t [] b = b"
| "wt_write big addr key t (page # pages) b =
     wt_write big addr key t pages
       (b\<lparr>wb_out := wc_encode_page big addr (key (wb_drawn b)) (wt_codec t) page (wb_out b), wb_drawn := wb_drawn b + 1\<rparr>)"

section \<open>The sink\<close>

text \<open>\<^verbatim>\<open>WsSink::send\<close>: whether the codec was closed is asked before the message is encoded.\<close>

definition sink_send ::
  "bool \<Rightarrow> nat \<Rightarrow> u32 \<Rightarrow> ws_message \<Rightarrow> ws_codec \<Rightarrow> u8 list \<Rightarrow> bool \<Rightarrow> (protocol_error + unit) \<times> ws_codec \<times> u8 list \<times> bool" where
  "sink_send big addr rnd item codec out closed =
     (let close = (case item of MClose _ \<Rightarrow> wc_is_closed codec | _ \<Rightarrow> False)
      in case wc_encodev big addr rnd codec item out of
           (Err e, codec, out) \<Rightarrow> (Err e, codec, out, closed)
         | (Ok _, codec, out) \<Rightarrow> (Ok (), codec, out, closed \<or> close))"

section \<open>A transparent byte stream\<close>

text \<open>The messages a byte stream consists of, and the bytes they carry.\<close>

fun stream_message :: "ws_message \<Rightarrow> bool" where
  "stream_message (MText _) = False"
| "stream_message (MContinuation (FirstText _)) = False"
| "stream_message (MClose _) = False"
| "stream_message _ = True"

fun stream_data :: "ws_message \<Rightarrow> u8 list" where
  "stream_data (MBinary d) = d"
| "stream_data (MContinuation i) = item_data i"
| "stream_data _ = []"

text \<open>The filter agrees with its codec on whether a fragmented message is under way.\<close>

definition wt_synced :: "ws_transport \<Rightarrow> bool" where
  "wt_synced t \<longleftrightarrow> fl_contains (wt_flags t) WT_CONTINUATION = wc_has (wt_codec t) W_R_CONTINUATION"

lemma frame_synced:
  assumes "wc_decode big addr (wt_codec t) src = Some (Ok (Some (frame_of m)), c', src')" "wt_synced t" "stream_message m"
  shows "\<exists>t' b'. wt_frame big addr' key (frame_of m) (t\<lparr>wt_codec := c'\<rparr>) b = (Ok True, t', b') \<and> wt_codec t' = c' \<and> wt_synced t' \<and>
    wb_dst b' = wb_dst b @ stream_data m \<and> wb_src b' = wb_src b \<and> wb_closed b' = wb_closed b"
proof -
  from wc_decode_Ok [OF assms(1)] obtain fin op pl where
    "(if fin then wc_finished else wc_unfinished) (wt_codec t) op pl = (Ok (frame_of m), c')" by blast
  from fragments_frame [OF this, of "[]"] have
    "fragments (wc_has (wt_codec t) W_R_CONTINUATION) [frame_of m] = Some (wc_has c' W_R_CONTINUATION)" by simp
  with assms(2,3) show ?thesis
    by (cases m rule: stream_message.cases)
      (auto simp: wt_frame_def wt_continuation_must_start_def wt_insert_flags_def wt_remove_flags_def wt_encode_def
        wc_encodev_def wt_synced_def flag_simps Let_def split: if_splits)
qed

lemma wt_read_drain:
  assumes "ws_drain (big, addr) (wt_codec t) (wb_src b) = Some (map frame_of ms, NeedMore, c', left)"
    and "wt_synced t" "list_all stream_message ms"
  shows "\<exists>t' b'. wt_read big addr key t b = Some (Ok (), t', b') \<and> wt_codec t' = c' \<and> wt_synced t' \<and>
    wb_dst b' = wb_dst b @ concat (map stream_data ms) \<and> wb_src b' = left \<and> wb_closed b' = wb_closed b"
  using assms
proof (induction ms arbitrary: t b)
  case Nil
  then have "wc_decode big addr (wt_codec t) (wb_src b) = Some (Ok None, c', left)"
    by (subst (asm) ws_drain.simps) (auto simp: prepend_def split: option.splits prod.splits sum.splits)
  with Nil show ?case by (subst wt_read.simps) (auto simp: wt_synced_def dest: wc_decode_pending)
next
  case (Cons m ms)
  from Cons.prems(1) obtain c1 src where d: "wc_decode big addr (wt_codec t) (wb_src b) = Some (Ok (Some (frame_of m)), c1, src)"
    and r: "ws_drain (big, addr) c1 src = Some (map frame_of ms, NeedMore, c', left)"
    by (subst (asm) ws_drain.simps) (auto simp: prepend_def split: option.splits prod.splits sum.splits)
  from frame_synced [OF d, of addr key "b\<lparr>wb_src := src\<rparr>"] Cons.prems(2,3) obtain t1 b1 where
    f: "wt_frame big addr key (frame_of m) (t\<lparr>wt_codec := c1\<rparr>) (b\<lparr>wb_src := src\<rparr>) = (Ok True, t1, b1)"
    and t1: "wt_codec t1 = c1" "wt_synced t1" "wb_dst b1 = wb_dst b @ stream_data m" "wb_src b1 = src" "wb_closed b1 = wb_closed b"
    by auto
  with r Cons.IH [of t1 b1] Cons.prems(3) d f show ?case by (subst wt_read.simps) auto
qed

text \<open>The data of the stream arrives in fragments; each is processed when it arrives.\<close>

fun wt_receive ::
  "bool \<Rightarrow> nat \<Rightarrow> (nat \<Rightarrow> u32) \<Rightarrow> ws_transport \<Rightarrow> ws_bufs \<Rightarrow> u8 list list \<Rightarrow> ((transport_error + unit) \<times> ws_transport \<times> ws_bufs) option" where
  "wt_receive big addr key t b [] = Some (Ok (), t, b)"
| "wt_receive big addr key t b (f # fs) =
     (case wt_read big addr key t (b\<lparr>wb_src := wb_src b @ f\<rparr>) of
        Some (Ok _, t, b) \<Rightarrow> wt_receive big addr key t b fs
      | r \<Rightarrow> r)"

lemma wt_receive_feed:
  assumes "feed (ws_drain (big, addr)) (wt_codec t) (wb_src b) fs = Some (map frame_of ms, NeedMore, c', left)"
    and "wt_synced t" "list_all stream_message ms"
  shows "\<exists>t' b'. wt_receive big addr key t b fs = Some (Ok (), t', b') \<and> wt_codec t' = c' \<and> wt_synced t' \<and>
    wb_dst b' = wb_dst b @ concat (map stream_data ms) \<and> wb_src b' = left \<and> wb_closed b' = wb_closed b"
  using assms
proof (induction fs arbitrary: t b ms)
  case (Cons f fs)
  from Cons.prems(1) obtain out c1 left1 rest where
    d: "ws_drain (big, addr) (wt_codec t) (wb_src b @ f) = Some (out, NeedMore, c1, left1)"
    and r: "feed (ws_drain (big, addr)) c1 left1 fs = Some (rest, NeedMore, c', left)" and ms: "map frame_of ms = out @ rest"
    by (auto simp: prepend_def split: option.splits prod.splits drain_end.splits)
  let ?ms1 = "take (length out) ms" and ?ms2 = "drop (length out) ms"
  have o: "out = map frame_of ?ms1" "rest = map frame_of ?ms2" by (simp_all add: ms flip: take_map drop_map)
  have s: "list_all stream_message ?ms1" "list_all stream_message ?ms2"
    using Cons.prems(3) by (auto simp: list_all_iff dest: in_set_takeD in_set_dropD)
  have "ws_drain (big, addr) (wt_codec t) (wb_src (b\<lparr>wb_src := wb_src b @ f\<rparr>)) = Some (map frame_of ?ms1, NeedMore, c1, left1)"
    using d o(1) by simp
  from wt_read_drain [OF this Cons.prems(2) s(1), of key] obtain t1 b1 where
    f: "wt_read big addr key t (b\<lparr>wb_src := wb_src b @ f\<rparr>) = Some (Ok (), t1, b1)" and t1: "wt_codec t1 = c1" "wt_synced t1"
    "wb_dst b1 = wb_dst b @ concat (map stream_data ?ms1)" "wb_src b1 = left1" "wb_closed b1 = wb_closed b"
    by auto
  have "feed (ws_drain (big, addr)) (wt_codec t1) (wb_src b1) fs = Some (map frame_of ?ms2, NeedMore, c', left)"
    using r o(2) t1 by simp
  from Cons.IH [OF this t1(2) s(2)] f t1 have "\<exists>t' b'. wt_receive big addr key t b (f # fs) = Some (Ok (), t', b') \<and> wt_codec t' = c' \<and>
    wt_synced t' \<and> wb_dst b' = wb_dst b @ concat (map stream_data ?ms1) @ concat (map stream_data ?ms2) \<and> wb_src b' = left \<and>
    wb_closed b' = wb_closed b" by auto
  then show ?case by (simp flip: concat_append map_append)
qed simp

text \<open>Writing pages sends binary messages.\<close>

fun page_messages :: "nat \<Rightarrow> (nat \<Rightarrow> u32) \<Rightarrow> nat \<Rightarrow> u8 list list \<Rightarrow> (u32 \<times> nat \<times> ws_message) list" where
  "page_messages addr key n [] = []"
| "page_messages addr key n (page # pages) = (key n, addr, MBinary page) # page_messages addr key (Suc n) pages"

lemma wt_write_sends:
  "wc_send big (wt_codec t) (page_messages addr key (wb_drawn b) pages) (wb_out b) =
     (Ok (), wt_codec t, wb_out (wt_write big addr key t pages b))"
proof (induction pages arbitrary: b)
  case (Cons page pages)
  from Cons.IH [of "b\<lparr>wb_out := wc_encode_page big addr (key (wb_drawn b)) (wt_codec t) page (wb_out b), wb_drawn := wb_drawn b + 1\<rparr>"]
  show ?case by (simp add: wc_encodev_def wc_encode_page_def Let_def)
qed simp

lemma page_messages_set: "x \<in> set (page_messages addr key n pages) \<Longrightarrow> \<exists>page\<in>set pages. sent_message x = MBinary page"
  by (induction addr key n pages rule: page_messages.induct) auto

lemma page_messages_data: "concat (map (stream_data \<circ> sent_message) (page_messages addr key n pages)) = concat pages"
  by (induction addr key n pages rule: page_messages.induct) auto

text \<open>
  C29: A WebSocket connection used as a byte stream is transparent. Whatever pages an application writes at
  one end, the filter at the other end delivers their bytes, in order and complete, however the network
  cuts the messages and whatever masking keys are drawn; no error occurs, nothing is left in the buffer
  and the stream stays open. Required is that each page fits the frame limit of the receiver.
\<close>

theorem ws_transport_transparent:
  assumes "peers (wt_codec w) (wt_codec r)" "wt_synced r" "wb_out wb = []" "wb_src rb = []"
    and "\<forall>page\<in>set pages. length page \<le> wc_max_size (wt_codec r)" "wc_max_size (wt_codec r) + 14 < usize_range"
    and "concat (f # fs) = wb_out (wt_write big addr key w pages wb)"
  shows "\<exists>r' rb'. wt_receive big addr' key' r rb (f # fs) = Some (Ok (), r', rb') \<and>
    wb_dst rb' = wb_dst rb @ concat pages \<and> wb_src rb' = [] \<and> wb_closed rb' = wb_closed rb \<and>
    wt_synced r' \<and> peers (wt_codec w) (wt_codec r')"
proof -
  let ?ms = "page_messages addr key (wb_drawn wb) pages"
  have fits: "\<forall>x\<in>set ?ms. msg_fits (wc_max_size (wt_codec r)) (sent_message x)"
    using assms(5) by (auto simp: msg_fits_def dest!: page_messages_set)
  have "wc_send (fst (big, addr')) (wt_codec w) ?ms [] = (Ok (), wt_codec w, concat (f # fs))"
    using wt_write_sends [of big w addr key wb pages] assms(3,7) by simp
  from ws_drain_send [OF assms(1) this fits assms(6)] obtain c where
    c: "ws_drain (big, addr') (wt_codec r) (concat (f # fs)) = Some (map (frame_of \<circ> sent_message) ?ms, NeedMore, c, [])"
    "peers (wt_codec w) c" by auto
  have "feed (ws_drain (big, addr')) (wt_codec r) (wb_src rb) (f # fs) = Some (map frame_of (map sent_message ?ms), NeedMore, c, [])"
    using c(1) ws_stream.feed_eq_run [of "(big, addr')" "wt_codec r" "[]" f fs] assms(4) by simp
  moreover have "list_all stream_message (map sent_message ?ms)"
    by (auto simp: list_all_iff dest!: page_messages_set)
  ultimately show ?thesis
    using wt_receive_feed [of big addr' r rb "f # fs" "map sent_message ?ms" c "[]" key'] assms(2) c(2)
      page_messages_data [of addr key "wb_drawn wb" pages] by auto
qed

definition empty_bufs :: ws_bufs where
  "empty_bufs = \<lparr>wb_src = [], wb_dst = [], wb_out = [], wb_closed = False, wb_drawn = 0\<rparr>"

theorem ws_transport_transparent_witness:
  "\<exists>r' rb'. wt_receive False 3 (\<lambda>_. 0) (wt_create wc_new) empty_bufs [[0x82, 0x81, 1, 2], [3, 4, 0x49]] = Some (Ok (), r', rb') \<and>
     wb_dst rb' = [0x48]"
proof -
  let ?w = "wt_create (wc_client_mode wc_new)"
  have "wb_out (wt_write False 7 (\<lambda>_. 0x04030201) ?w [[0x48]] empty_bufs) = [0x82, 0x81, 1, 2, 3, 4, 0x49]"
    by (simp add: empty_bufs_def wt_create_def wc_encode_page_def wc_eval)
  then have "concat [[0x82, 0x81, 1, 2], [3, 4, 0x49]] = wb_out (wt_write False 7 (\<lambda>_. 0x04030201) ?w [[0x48]] empty_bufs)"
    by simp
  moreover have "peers (wt_codec ?w) (wt_codec (wt_create wc_new))" "wt_synced (wt_create wc_new)"
    "wc_max_size (wt_codec (wt_create wc_new)) + 14 < usize_range"
    "\<forall>page\<in>set [[0x48 :: u8]]. length page \<le> wc_max_size (wt_codec (wt_create wc_new))"
    by (simp_all add: peers_def wt_synced_def wt_create_def wc_eval flag_simps)
  ultimately show ?thesis
    using ws_transport_transparent [of ?w "wt_create wc_new" empty_bufs empty_bufs "[[0x48]]" "[0x82, 0x81, 1, 2]" "[[3, 4, 0x49]]" False 7
        "\<lambda>_. 0x04030201" 3 "\<lambda>_. 0"]
    by (auto simp: empty_bufs_def)
qed

text \<open>
  The close frame of a shutdown is sent once, and its code tells of a protocol error exactly if one has
  been recorded.
\<close>

lemma shutdown_once:
  assumes "wt_shutdown big addr key t b = (t1, b1)"
  shows "wt_shutdown big addr key t1 b1 = (t1, b1)"
  using assms by (auto simp: wt_shutdown_def wt_encode_def wt_insert_flags_def flag_simps Let_def split: if_splits prod.splits)

end
