(* ===== verification/Client_Types.thy ===== *)
theory Client_Types
  imports Http_Request Http_Response
begin

text \<open>
  The types of the HTTP client: its errors (\<^verbatim>\<open>geario-http/src/client/error.rs\<close>), its configuration
  (\<^verbatim>\<open>client/cfg.rs\<close>), the target of a proxy (\<^verbatim>\<open>client/proxy.rs\<close>) and the request for a connection
  (\<^verbatim>\<open>client/mod.rs\<close>).

  A \<^verbatim>\<open>Uri\<close> and an \<^verbatim>\<open>Authority\<close> belong to the \<^verbatim>\<open>http\<close> crate: what the client asks of them is a record of
  functions. A JSON error and an error of the application are opaque numbers.
\<close>

section \<open>Uris\<close>

type_synonym authority = string

record uri_ops =
  uo_parse :: "string \<Rightarrow> uri option"
  uo_scheme :: "uri \<Rightarrow> string option"
  uo_authority :: "uri \<Rightarrow> authority option"
  uo_host :: "authority \<Rightarrow> string"
  uo_port :: "authority \<Rightarrow> nat option"

text \<open>\<^verbatim>\<open>Uri::host\<close> and \<^verbatim>\<open>Uri::port_u16\<close> read the authority.\<close>

definition uri_host :: "uri_ops \<Rightarrow> uri \<Rightarrow> string option" where
  "uri_host uo u = map_option (uo_host uo) (uo_authority uo u)"

definition uri_port :: "uri_ops \<Rightarrow> uri \<Rightarrow> nat option" where
  "uri_port uo u = Option.bind (uo_authority uo u) (uo_port uo)"

definition H_HOST :: header_name where "H_HOST = ''host''"

section \<open>Errors\<close>

datatype json_payload_error =
    JpContentType
  | JpDeserialize "nat option"
  | JpPayload payload_error

fun jp_clone :: "json_payload_error \<Rightarrow> json_payload_error" where
  "jp_clone JpContentType = JpContentType"
| "jp_clone (JpDeserialize _) = JpDeserialize None"
| "jp_clone (JpPayload err) = JpPayload err"

definition jp_from_json :: "nat \<Rightarrow> json_payload_error" where
  "jp_from_json err = JpDeserialize (Some err)"

definition jp_from_payload :: "payload_error \<Rightarrow> json_payload_error" where
  "jp_from_payload err = JpPayload err"

fun jp_signature :: "json_payload_error \<Rightarrow> string" where
  "jp_signature JpContentType = ''geario-client-JsonContentType''"
| "jp_signature (JpDeserialize _) = ''geario-client-JsonDeserialize''"
| "jp_signature (JpPayload _) = ''geario-client-JsonPayload''"

datatype connect_error =
    CeSslIsNotSupported
  | CeResolver io_error
  | CeNoRecords
  | CeTimeout
  | CeDisconnected "io_error option"
  | CeUnresolved

fun ce_signature :: "connect_error \<Rightarrow> string" where
  "ce_signature CeSslIsNotSupported = ''geario-client-connect-SslIsNotSupported''"
| "ce_signature (CeResolver _) = ''geario-client-connect-Resolver''"
| "ce_signature CeNoRecords = ''geario-client-connect-NoRecords''"
| "ce_signature CeTimeout = ''geario-client-connect-Timeout''"
| "ce_signature (CeDisconnected _) = ''geario-client-connect-Disconnected''"
| "ce_signature CeUnresolved = ''geario-client-connect-Unresolved''"

text \<open>\<^verbatim>\<open>clone_io_error\<close> of the runtime is an argument.\<close>

fun ce_clone :: "(io_error \<Rightarrow> io_error) \<Rightarrow> connect_error \<Rightarrow> connect_error" where
  "ce_clone cl (CeResolver e) = CeResolver (cl e)"
| "ce_clone cl (CeDisconnected (Some e)) = CeDisconnected (Some (cl e))"
| "ce_clone cl (CeDisconnected None) = CeDisconnected None"
| "ce_clone cl CeSslIsNotSupported = CeSslIsNotSupported"
| "ce_clone cl CeNoRecords = CeNoRecords"
| "ce_clone cl CeTimeout = CeTimeout"
| "ce_clone cl CeUnresolved = CeUnresolved"

text \<open>The connector of the runtime reports one of these; \<^verbatim>\<open>InvalidInput\<close> is a panic.\<close>

datatype net_connect_error =
    NeResolver io_error | NeNoRecords | NeInvalidInput | NeUnresolved | NeIo io_error

fun ce_from_net :: "net_connect_error \<Rightarrow> connect_error option" where
  "ce_from_net (NeResolver e) = Some (CeResolver e)"
| "ce_from_net NeNoRecords = Some CeNoRecords"
| "ce_from_net NeInvalidInput = None"
| "ce_from_net NeUnresolved = Some CeUnresolved"
| "ce_from_net (NeIo e) = Some (CeDisconnected (Some e))"

datatype invalid_url = IuMissingScheme | IuUnknownScheme | IuMissingHost | IuHttp error_kind

datatype client_error =
    ClUrl invalid_url
  | ClConnect connect_error
  | ClSend io_error
  | ClRequest encode_error
  | ClResponse decode_error
  | ClHttp error_kind
  | ClTimeout
  | ClProxyTunnelNotSupported
  | ClTunnelNotSupported
  | ClError nat

fun cl_clone :: "(io_error \<Rightarrow> io_error) \<Rightarrow> client_error \<Rightarrow> client_error" where
  "cl_clone cl (ClConnect err) = ClConnect (ce_clone cl err)"
| "cl_clone cl (ClSend err) = ClSend (cl err)"
| "cl_clone cl err = err"

definition cl_from_encode :: "encode_error + io_error \<Rightarrow> client_error" where
  "cl_from_encode err = (case err of Inl e \<Rightarrow> ClRequest e | Inr e \<Rightarrow> ClSend e)"

definition cl_from_decode :: "decode_error + io_error \<Rightarrow> client_error" where
  "cl_from_decode err = (case err of Inl e \<Rightarrow> ClResponse e | Inr e \<Rightarrow> ClSend e)"

fun cl_signature :: "(io_error \<Rightarrow> string) \<Rightarrow> client_error \<Rightarrow> string" where
  "cl_signature sig (ClUrl _) = ''geario-client-Url''"
| "cl_signature sig (ClHttp _) = ''geario-client-Http''"
| "cl_signature sig (ClConnect err) = ce_signature err"
| "cl_signature sig (ClSend err) = sig err"
| "cl_signature sig (ClRequest _) = ''geario-client-Request''"
| "cl_signature sig (ClResponse _) = ''geario-client-Response''"
| "cl_signature sig ClTimeout = ''geario-client-Timeout''"
| "cl_signature sig ClProxyTunnelNotSupported = ''geario-client-ProxyTunnelNotSupported''"
| "cl_signature sig ClTunnelNotSupported = ''geario-client-TunnelNotSupported''"
| "cl_signature sig (ClError _) = ''geario-client-SendBody''"

section \<open>Proxies\<close>

record proxy_target =
  px_host :: string
  px_port :: nat

datatype proxy_error = PxMalformed | PxUnsupportedScheme | PxMissingHost | PxCredentialsNotSupported

definition px_parse :: "uri_ops \<Rightarrow> string \<Rightarrow> proxy_error + proxy_target" where
  "px_parse uo raw =
     (case uo_parse uo raw of
        None \<Rightarrow> Err PxMalformed
      | Some u \<Rightarrow>
          if uo_scheme uo u \<noteq> Some ''http'' then Err PxUnsupportedScheme
          else (case uo_authority uo u of
                  None \<Rightarrow> Err PxMissingHost
                | Some auth \<Rightarrow>
                    if CHR ''@'' \<in> set auth then Err PxCredentialsNotSupported
                    else let host = uo_host uo auth
                         in if host = [] then Err PxMissingHost
                            else Ok \<lparr>px_host = host,
                                     px_port = (case uo_port uo auth of Some p \<Rightarrow> p | None \<Rightarrow> 80)\<rparr>))"

definition px_needs_tunnel :: "uri_ops \<Rightarrow> uri \<Rightarrow> bool" where
  "px_needs_tunnel uo target = (uo_scheme uo target = Some ''https'' \<or> uo_scheme uo target = Some ''wss'')"

section \<open>Configuration\<close>

text \<open>Periods in milliseconds. Numbers are \<^verbatim>\<open>usize\<close>.\<close>

record client_config =
  cc_headers :: header_map
  cc_timeout :: nat
  cc_pl_limit :: nat
  cc_pl_timeout :: nat
  cc_default_headers :: bool
  cc_allow_redirects :: bool
  cc_max_redirects :: nat
  cc_conn_lifetime :: nat
  cc_conn_keep_alive :: nat
  cc_limit :: nat
  cc_proxy :: "proxy_target option"

definition cc_new :: client_config where
  "cc_new =
     \<lparr>cc_headers = hm_new, cc_timeout = 5000, cc_pl_limit = 262144, cc_pl_timeout = 10000, cc_default_headers = True,
      cc_allow_redirects = True, cc_max_redirects = 2, cc_conn_lifetime = 75000, cc_conn_keep_alive = 15000, cc_limit = 8,
      cc_proxy = None\<rparr>"

definition cc_set_limit :: "nat \<Rightarrow> client_config \<Rightarrow> client_config" where
  "cc_set_limit limit c = c\<lparr>cc_limit := limit\<rparr>"

definition cc_set_keep_alive :: "seconds \<Rightarrow> client_config \<Rightarrow> client_config" where
  "cc_set_keep_alive dur c = c\<lparr>cc_conn_keep_alive := 1000 * unat dur\<rparr>"

definition cc_set_lifetime :: "seconds \<Rightarrow> client_config \<Rightarrow> client_config" where
  "cc_set_lifetime dur c = c\<lparr>cc_conn_lifetime := 1000 * unat dur\<rparr>"

definition cc_set_response_timeout :: "nat \<Rightarrow> client_config \<Rightarrow> client_config" where
  "cc_set_response_timeout timeout c = c\<lparr>cc_timeout := timeout\<rparr>"

definition cc_disable_timeout :: "client_config \<Rightarrow> client_config" where
  "cc_disable_timeout c = c\<lparr>cc_timeout := 0\<rparr>"

definition cc_disable_redirects :: "client_config \<Rightarrow> client_config" where
  "cc_disable_redirects c = c\<lparr>cc_allow_redirects := False\<rparr>"

definition cc_set_max_redirects :: "nat \<Rightarrow> client_config \<Rightarrow> client_config" where
  "cc_set_max_redirects num c = c\<lparr>cc_max_redirects := num\<rparr>"

definition cc_set_no_default_headers :: "client_config \<Rightarrow> client_config" where
  "cc_set_no_default_headers c = c\<lparr>cc_default_headers := False\<rparr>"

definition cc_set_response_payload_limit :: "nat \<Rightarrow> client_config \<Rightarrow> client_config" where
  "cc_set_response_payload_limit limit c = c\<lparr>cc_pl_limit := limit\<rparr>"

definition cc_set_response_payload_timeout :: "nat \<Rightarrow> client_config \<Rightarrow> client_config" where
  "cc_set_response_payload_timeout timeout c = c\<lparr>cc_pl_timeout := timeout\<rparr>"

definition cc_set_header ::
  "error_kind + header_name \<Rightarrow> error_kind + header_value \<Rightarrow> client_config \<Rightarrow> error_kind + client_config" where
  "cc_set_header key value c =
     (case key of
        Err e \<Rightarrow> Err e
      | Ok k \<Rightarrow>
          (case value of
             Err e \<Rightarrow> Err e
           | Ok v \<Rightarrow> Ok (c\<lparr>cc_headers := hm_append (cc_headers c) k v\<rparr>)))"

definition H_AUTHORIZATION :: header_name where "H_AUTHORIZATION = ''authorization''"

text \<open>The text of the credentials; \<open>b64\<close> is the standard encoder of the \<^verbatim>\<open>base64\<close> crate.\<close>

definition basic_auth :: "(string \<Rightarrow> string) \<Rightarrow> string \<Rightarrow> string option \<Rightarrow> string" where
  "basic_auth b64 username password =
     ''Basic '' @ b64 (case password of Some p \<Rightarrow> username @ '':'' @ p | None \<Rightarrow> username @ '':'')"

text \<open>\<^verbatim>\<open>HeaderValue::try_from\<close> on a text, with its error converted.\<close>

definition text_value :: "string \<Rightarrow> error_kind + header_value" where
  "text_value s = map_sum error_from_header_value id (hv_from_shared s)"

definition cc_set_basic_auth ::
  "(string \<Rightarrow> string) \<Rightarrow> string \<Rightarrow> string option \<Rightarrow> client_config \<Rightarrow> error_kind + client_config" where
  "cc_set_basic_auth b64 username password c =
     cc_set_header (Ok H_AUTHORIZATION) (text_value (basic_auth b64 username password)) c"

definition cc_set_bearer_auth :: "string \<Rightarrow> client_config \<Rightarrow> error_kind + client_config" where
  "cc_set_bearer_auth token c = cc_set_header (Ok H_AUTHORIZATION) (text_value (''Bearer '' @ token)) c"

section \<open>Requests for a connection\<close>

record connect =
  cn_uri :: uri
  cn_addr :: "string option"

end
