(* ===== verification/Ws_Handshake.thy ===== *)
theory Ws_Handshake
  imports Ws_Transport Client_Types H1_Roundtrip
begin

text \<open>
  The opening handshake of WebSockets: the server's side (\<^verbatim>\<open>geario-http/src/ws/handshake.rs\<close>), the
  configuration of the client (\<^verbatim>\<open>ws/cfg.rs\<close>), the client (\<^verbatim>\<open>ws/client.rs\<close>) and the remaining errors of
  \<^verbatim>\<open>ws/error.rs\<close>.

  What belongs to other crates is the record \<open>ws_env\<close>: uris, cookie jars, percent encoding, base64 and
  the parser of header names. \<^verbatim>\<open>connect\<close> is cut at its three awaits: the outcome of the connector, of
  sending and of receiving are arguments. \<^const>\<open>None\<close> is a panic.
\<close>

section \<open>Errors\<close>

datatype 'e ws_error =
    WsService 'e
  | WsKeepAlive
  | WsReadTimeout
  | WsProtocol protocol_error
  | WsDisconnected "io_error option"

datatype ws_config_error = WcMissingScheme | WcUnknownScheme | WcMissingHost | WcHttp error_kind

datatype ws_client_error =
    WeInvalidRequest encode_error
  | WeInvalidResponse decode_error
  | WeInvalidResponseStatus status_code
  | WeInvalidUpgradeHeader
  | WeInvalidConnectionHeader header_value
  | WeMissingConnectionHeader
  | WeMissingWebSocketAcceptHeader
  | WeInvalidChallengeResponse string header_value
  | WeProtocol protocol_error
  | WeTimeout
  | WeConnect net_connect_error
  | WeDisconnected "io_error option"

definition we_from_decode :: "decode_error + io_error \<Rightarrow> ws_client_error" where
  "we_from_decode err = (case err of Inl e \<Rightarrow> WeInvalidResponse e | Inr e \<Rightarrow> WeDisconnected (Some e))"

definition we_from_encode :: "encode_error + io_error \<Rightarrow> ws_client_error" where
  "we_from_encode err = (case err of Inl e \<Rightarrow> WeInvalidRequest e | Inr e \<Rightarrow> WeDisconnected (Some e))"

text \<open>\<^verbatim>\<open>clone_io_error\<close> and \<^verbatim>\<open>clone\<close> of a connector's error belong to the runtime.\<close>

fun we_clone ::
  "(io_error \<Rightarrow> io_error) \<Rightarrow> (net_connect_error \<Rightarrow> net_connect_error) \<Rightarrow> ws_client_error \<Rightarrow> ws_client_error" where
  "we_clone cl cn (WeConnect err) = WeConnect (cn err)"
| "we_clone cl cn (WeDisconnected err) = WeDisconnected (map_option cl err)"
| "we_clone cl cn err = err"

definition H_ALLOW :: header_name where "H_ALLOW = ''allow''"
definition H_ORIGIN :: header_name where "H_ORIGIN = ''origin''"
definition H_COOKIE :: header_name where "H_COOKIE = ''cookie''"
definition H_WS_VERSION :: header_name where "H_WS_VERSION = ''sec-websocket-version''"
definition H_WS_KEY :: header_name where "H_WS_KEY = ''sec-websocket-key''"
definition H_WS_ACCEPT :: header_name where "H_WS_ACCEPT = ''sec-websocket-accept''"
definition H_WS_PROTOCOL :: header_name where "H_WS_PROTOCOL = ''sec-websocket-protocol''"

text \<open>\<^verbatim>\<open>ResponseError\<close> for \<^verbatim>\<open>HandshakeError\<close>.\<close>

definition handshake_error_response ::
  "'j cookie_ops \<Rightarrow> response_head list \<Rightarrow> handshake_error \<Rightarrow> (response \<times> 'j response_builder) option" where
  "handshake_error_response co pool err =
     (let bad = (\<lambda>reason. bl_finish co pool (bl_reason reason (bl_new pool 400)))
      in case err of
           GetMethodRequired \<Rightarrow> bl_finish co pool (bl_header (Ok H_ALLOW) (text_value ''GET'') (bl_new pool 405))
         | NoWebsocketUpgrade \<Rightarrow> bad ''No WebSocket UPGRADE header found''
         | NoConnectionUpgrade \<Rightarrow> bad ''No CONNECTION upgrade''
         | NoVersionHeader \<Rightarrow> bad ''Websocket version header is required''
         | UnsupportedWsVersion \<Rightarrow> bad ''Unsupported version''
         | BadWebsocketKey \<Rightarrow> bad ''Handshake error'')"

section \<open>The server\<close>

record 'j ws_env =
  ws_uri :: uri_ops
  ws_jar :: "'j cookie_ops"
  ws_cookie_name :: "string \<Rightarrow> string"
  ws_cookie_value :: "string \<Rightarrow> string"
  ws_percent :: "string \<Rightarrow> string"
  ws_b64 :: "u8 list \<Rightarrow> string"
  ws_parse_name :: "string \<Rightarrow> header_name option"

text \<open>\<^verbatim>\<open>s.to_ascii_lowercase().contains(word)\<close> on the first value of a header, if it is printable text.\<close>

definition mentions :: "string \<Rightarrow> header_value \<Rightarrow> bool" where
  "mentions word v = (case hv_to_str v of Ok s \<Rightarrow> sublist word (map to_ascii_lowercase s) | Err _ \<Rightarrow> False)"

definition has_websocket :: "(string \<Rightarrow> header_name option) \<Rightarrow> header_map \<Rightarrow> bool" where
  "has_websocket pn hs = (case hm_get pn hs (Left H_UPGRADE) of Some hdr \<Rightarrow> mentions ''websocket'' hdr | None \<Rightarrow> False)"

definition verify_handshake :: "(string \<Rightarrow> header_name option) \<Rightarrow> request_head \<Rightarrow> handshake_error + unit" where
  "verify_handshake pn req =
     (if rq_method req \<noteq> ''GET'' then Err GetMethodRequired
      else if \<not> has_websocket pn (rq_headers req) then Err NoWebsocketUpgrade
      else if \<not> rq_upgrade req then Err NoConnectionUpgrade
      else if \<not> hm_contains_key pn (rq_headers req) (Left H_WS_VERSION) then Err NoVersionHeader
      else if \<not> (case hm_get pn (rq_headers req) (Left H_WS_VERSION) of
                   Some hdr \<Rightarrow> hv_inner hdr = ''13'' \<or> hv_inner hdr = ''8'' \<or> hv_inner hdr = ''7''
                 | None \<Rightarrow> False)
        then Err UnsupportedWsVersion
      else if \<not> hm_contains_key pn (rq_headers req) (Left H_WS_KEY) then Err BadWebsocketKey
      else Ok ())"

definition handshake_response ::
  "'j ws_env \<Rightarrow> response_head list \<Rightarrow> request_head \<Rightarrow> 'j response_builder option" where
  "handshake_response env pool req =
     (case hm_get (ws_parse_name env) (rq_headers req) (Left H_WS_KEY) of
        None \<Rightarrow> None
      | Some v \<Rightarrow>
          (case hash_key (ws_b64 env) (map of_char (hv_inner v)) of
             None \<Rightarrow> None
           | Some r \<Rightarrow>
               (let key = (case r of Ok k \<Rightarrow> k | Err _ \<Rightarrow> [])
                in Some (fst (bl_take
                     (bl_header (Ok H_WS_ACCEPT) (text_value key)
                       (bl_header (Ok H_TRANSFER_ENCODING) (text_value ''chunked'')
                         (bl_upgrade (text_value ''websocket'') (bl_new pool 101)))))))))"

definition handshake ::
  "'j ws_env \<Rightarrow> response_head list \<Rightarrow> request_head \<Rightarrow> (handshake_error + 'j response_builder) option" where
  "handshake env pool req =
     (case verify_handshake (ws_parse_name env) req of
        Err e \<Rightarrow> Some (Err e)
      | Ok _ \<Rightarrow> map_option Inr (handshake_response env pool req))"

section \<open>Configuration of the client\<close>

record 'j ws_client_config =
  wf_addr :: "string option"
  wf_max_size :: nat
  wf_timeout :: nat
  wf_headers :: header_map
  wf_server_mode :: bool
  wf_cookies :: "'j option"

definition wf_new :: "'j ws_client_config" where
  "wf_new =
     \<lparr>wf_addr = None, wf_max_size = 65536, wf_timeout = 5000,
      wf_headers = hm_insert (hm_insert hm_new H_UPGRADE (the (hv_from_static ''websocket'')))
        H_WS_VERSION (the (hv_from_static ''13'')),
      wf_server_mode = False, wf_cookies = None\<rparr>"

definition wf_set_address :: "string \<Rightarrow> 'j ws_client_config \<Rightarrow> 'j ws_client_config" where
  "wf_set_address addr c = c\<lparr>wf_addr := Some addr\<rparr>"

text \<open>\<^verbatim>\<open>pop\<close> removes the last character, if there is one; \<^verbatim>\<open>unwrap\<close> panics on an invalid value.\<close>

definition wf_set_protocols :: "string list \<Rightarrow> 'j ws_client_config \<Rightarrow> 'j ws_client_config option" where
  "wf_set_protocols protos c =
     (let ps = butlast (foldl (\<lambda>acc s. acc @ s @ '','') [] protos)
      in case hv_from_str ps of
           Ok v \<Rightarrow> Some (c\<lparr>wf_headers := hm_insert (wf_headers c) H_WS_PROTOCOL v\<rparr>)
         | Err _ \<Rightarrow> None)"

definition wf_set_cookie :: "'j cookie_ops \<Rightarrow> string \<Rightarrow> 'j ws_client_config \<Rightarrow> 'j ws_client_config" where
  "wf_set_cookie co ck c =
     (case wf_cookies c of
        Some jar \<Rightarrow> c\<lparr>wf_cookies := Some (cj_add co ck jar)\<rparr>
      | None \<Rightarrow> c\<lparr>wf_cookies := Some (cj_add co ck (cj_new co))\<rparr>)"

definition wf_set_origin :: "error_kind + header_value \<Rightarrow> 'j ws_client_config \<Rightarrow> error_kind + 'j ws_client_config" where
  "wf_set_origin origin c =
     (case origin of
        Err e \<Rightarrow> Err e
      | Ok v \<Rightarrow> Ok (c\<lparr>wf_headers := hm_insert (wf_headers c) H_ORIGIN v\<rparr>))"

definition wf_set_max_frame_size :: "nat \<Rightarrow> 'j ws_client_config \<Rightarrow> 'j ws_client_config" where
  "wf_set_max_frame_size limit c = c\<lparr>wf_max_size := limit\<rparr>"

definition wf_set_server_mode :: "'j ws_client_config \<Rightarrow> 'j ws_client_config" where
  "wf_set_server_mode c = c\<lparr>wf_server_mode := True\<rparr>"

definition wf_set_header ::
  "error_kind + header_name \<Rightarrow> error_kind + header_value \<Rightarrow> 'j ws_client_config \<Rightarrow> error_kind + 'j ws_client_config" where
  "wf_set_header key value c =
     (case key of
        Err e \<Rightarrow> Err e
      | Ok k \<Rightarrow>
          (case value of
             Err e \<Rightarrow> Err e
           | Ok v \<Rightarrow> Ok (c\<lparr>wf_headers := hm_insert (wf_headers c) k v\<rparr>)))"

text \<open>The value is converted only if the name is not set.\<close>

definition wf_set_header_if_unset ::
  "(string \<Rightarrow> header_name option) \<Rightarrow> error_kind + header_name \<Rightarrow> error_kind + header_value \<Rightarrow> 'j ws_client_config \<Rightarrow>
   error_kind + 'j ws_client_config" where
  "wf_set_header_if_unset pn key value c =
     (case key of
        Err e \<Rightarrow> Err e
      | Ok k \<Rightarrow>
          (if \<not> hm_contains_key pn (wf_headers c) (Left k) then
             (case value of
                Err e \<Rightarrow> Err e
              | Ok v \<Rightarrow> Ok (c\<lparr>wf_headers := hm_insert (wf_headers c) k v\<rparr>))
           else Ok c))"

definition wf_set_basic_auth ::
  "(string \<Rightarrow> string) \<Rightarrow> string \<Rightarrow> string option \<Rightarrow> 'j ws_client_config \<Rightarrow> error_kind + 'j ws_client_config" where
  "wf_set_basic_auth b64 username password c =
     wf_set_header (Ok H_AUTHORIZATION) (text_value (basic_auth b64 username password)) c"

definition wf_set_bearer_auth :: "string \<Rightarrow> 'j ws_client_config \<Rightarrow> error_kind + 'j ws_client_config" where
  "wf_set_bearer_auth token c = wf_set_header (Ok H_AUTHORIZATION) (text_value (''Bearer '' @ token)) c"

definition wf_set_timeout :: "nat \<Rightarrow> 'j ws_client_config \<Rightarrow> 'j ws_client_config" where
  "wf_set_timeout timeout c = c\<lparr>wf_timeout := timeout\<rparr>"

section \<open>The client\<close>

record 'j ws_client =
  wsc_uri :: uri
  wsc_cfg :: "'j ws_client_config"

text \<open>The argument is the result of \<^verbatim>\<open>Uri::try_from\<close>.\<close>

definition wsc_new :: "uri_ops \<Rightarrow> error_kind + uri \<Rightarrow> 'j ws_client_config \<Rightarrow> ws_config_error + 'j ws_client" where
  "wsc_new uo u cfg =
     (case u of
        Err e \<Rightarrow> Err (WcHttp e)
      | Ok uri \<Rightarrow>
          if uri_host uo uri = None then Err WcMissingHost
          else (case uo_scheme uo uri of
                  None \<Rightarrow> Err WcMissingScheme
                | Some scheme \<Rightarrow>
                    if scheme \<in> {''http'', ''ws'', ''https'', ''wss''} then Ok \<lparr>wsc_uri = uri, wsc_cfg = cfg\<rparr>
                    else Err WcUnknownScheme))"

fun copy_headers :: "(string \<Rightarrow> header_name option) \<Rightarrow> (header_name \<times> header_value) list \<Rightarrow> header_map \<Rightarrow> header_map" where
  "copy_headers pn [] hs = hs"
| "copy_headers pn ((key, value) # kvs) hs =
     copy_headers pn kvs (if \<not> hm_contains_key pn hs (Left key) then hm_insert hs key value else hs)"

text \<open>The cookie header; slicing off the first two bytes of an empty text panics.\<close>

definition cookie_text :: "'j ws_env \<Rightarrow> string list \<Rightarrow> string option" where
  "cookie_text env delta =
     (let cookie = concat (map (\<lambda>c. ''; '' @ ws_percent env (ws_cookie_name env c) @ ''='' @
                                    ws_percent env (ws_cookie_value env c)) delta)
      in if length cookie < 2 then None else Some (drop 2 cookie))"

definition set_cookies :: "'j ws_env \<Rightarrow> 'j option \<Rightarrow> header_map \<Rightarrow> header_map option" where
  "set_cookies env cookies hs =
     (case cookies of
        None \<Rightarrow> Some hs
      | Some jar \<Rightarrow>
          (case cookie_text env (cj_delta (ws_jar env) jar) of
             None \<Rightarrow> None
           | Some s \<Rightarrow> (case hv_from_str s of Ok v \<Rightarrow> Some (hm_insert hs H_COOKIE v) | Err _ \<Rightarrow> None)))"

definition set_host :: "'j ws_env \<Rightarrow> uri \<Rightarrow> header_map \<Rightarrow> header_map option" where
  "set_host env uri hs =
     (if \<not> hm_contains_key (ws_parse_name env) hs (Left H_HOST) then
        (case uri_host (ws_uri env) uri of
           None \<Rightarrow> None
         | Some host \<Rightarrow> (case hv_from_str host of Ok v \<Rightarrow> Some (hm_insert hs H_HOST v) | Err _ \<Rightarrow> None))
      else Some hs)"

text \<open>The request of \<^verbatim>\<open>connect\<close> and the key it offers; \<open>sec_key\<close> is what the generator has filled in.\<close>

definition wsc_request ::
  "'j ws_env \<Rightarrow> request_head list \<Rightarrow> u8 list \<Rightarrow> 'j ws_client \<Rightarrow> (request_head \<times> string) option" where
  "wsc_request env pool sec_key c =
     (let head = (fst (get_message rq_clear rq_default pool))\<lparr>rq_method := ''GET'', rq_uri := wsc_uri c\<rparr>;
          head = rq_set_connection_type Upgrade head;
          hs = copy_headers (ws_parse_name env) (it_collect (hm_iter_new (wf_headers (wsc_cfg c)))) (rq_headers head);
          key = ws_b64 env sec_key
      in case set_host env (wsc_uri c) hs of
           None \<Rightarrow> None
         | Some hs \<Rightarrow>
             (case set_cookies env (wf_cookies (wsc_cfg c)) hs of
                None \<Rightarrow> None
              | Some hs \<Rightarrow>
                  (case hv_from_str key of
                     Ok v \<Rightarrow> Some (head\<lparr>rq_headers := hm_insert hs H_WS_KEY v\<rparr>, key)
                   | Err _ \<Rightarrow> None)))"

definition wsc_verify_response :: "'j ws_env \<Rightarrow> string \<Rightarrow> response_head \<Rightarrow> (ws_client_error + unit) option" where
  "wsc_verify_response env key res =
     (if rs_status res \<noteq> 101 then Some (Err (WeInvalidResponseStatus (rs_status res)))
      else if \<not> has_websocket (ws_parse_name env) (rs_headers res) then Some (Err WeInvalidUpgradeHeader)
      else
        (case hm_get (ws_parse_name env) (rs_headers res) (Left H_CONNECTION) of
           None \<Rightarrow> Some (Err WeMissingConnectionHeader)
         | Some conn \<Rightarrow>
             if \<not> mentions ''upgrade'' conn then Some (Err (WeInvalidConnectionHeader conn))
             else
               (case hm_get (ws_parse_name env) (rs_headers res) (Left H_WS_ACCEPT) of
                  None \<Rightarrow> Some (Err WeMissingWebSocketAcceptHeader)
                | Some hdr_key \<Rightarrow>
                    (case hash_key (ws_b64 env) (map of_char key) of
                       None \<Rightarrow> None
                     | Some (Err _) \<Rightarrow> Some (Err (WeInvalidChallengeResponse [] hdr_key))
                     | Some (Ok encoded) \<Rightarrow>
                         if hv_inner hdr_key \<noteq> encoded then Some (Err (WeInvalidChallengeResponse encoded hdr_key))
                         else Some (Ok ())))))"

record ws_connection =
  wn_io :: io_handle
  wn_codec :: ws_codec
  wn_res :: response_head

text \<open>Sending the request and reading the head of the response.\<close>

definition wsc_exchange ::
  "(encode_error + io_error) + unit \<Rightarrow> (decode_error + io_error) + response_head option \<Rightarrow> ws_client_error + response_head" where
  "wsc_exchange sent received =
     (case sent of
        Err e \<Rightarrow> Err (we_from_encode e)
      | Ok _ \<Rightarrow>
          (case received of
             Err e \<Rightarrow> Err (we_from_decode e)
           | Ok None \<Rightarrow> Err (WeDisconnected None)
           | Ok (Some res) \<Rightarrow> Ok res))"

text \<open>
  \<^verbatim>\<open>connect\<close>: \<open>late\<close> says whether the exchange takes longer than the timeout, which counts only if there
  is one.
\<close>

definition wsc_connect ::
  "'j ws_env \<Rightarrow> request_head list \<Rightarrow> u8 list \<Rightarrow> net_connect_error + io_handle \<Rightarrow> bool \<Rightarrow> (encode_error + io_error) + unit \<Rightarrow>
   (decode_error + io_error) + response_head option \<Rightarrow> 'j ws_client \<Rightarrow> (ws_client_error + ws_connection) option" where
  "wsc_connect env pool sec_key connected late sent received c =
     (case wsc_request env pool sec_key c of
        None \<Rightarrow> None
      | Some (head, key) \<Rightarrow>
          (case connected of
             Err e \<Rightarrow> Some (Err (WeConnect e))
           | Ok io \<Rightarrow>
               (let cfg = wsc_cfg c;
                    response = (if wf_timeout cfg \<noteq> 0 \<and> late then Err WeTimeout else wsc_exchange sent received);
                    codec = (if wf_server_mode cfg then wc_set_max_size wc_new (wf_max_size cfg)
                             else wc_client_mode (wc_set_max_size wc_new (wf_max_size cfg)))
                in case response of
                     Err e \<Rightarrow> Some (Err e)
                   | Ok res \<Rightarrow>
                       (case wsc_verify_response env key res of
                          None \<Rightarrow> None
                        | Some (Err e) \<Rightarrow> Some (Err e)
                        | Some (Ok _) \<Rightarrow> Some (Ok \<lparr>wn_io = io, wn_codec = codec, wn_res = res\<rparr>)))))"

text \<open>The service of \<^verbatim>\<open>start\<close> on an item of the runtime's dispatcher, and the one \<^verbatim>\<open>receiver\<close> gives it.\<close>

datatype ws_reason =
    ReKeepAliveTimeout | ReReadTimeout | ReDecoder protocol_error | ReEncoder protocol_error | ReIo "io_error option"

datatype ws_dispatch_item = DiItem ws_frame | DiControl | DiStop ws_reason

fun ws_start :: "(ws_frame \<Rightarrow> 'e + ws_message option) \<Rightarrow> ws_dispatch_item \<Rightarrow> 'e ws_error + ws_message option" where
  "ws_start svc (DiItem item) = map_sum WsService id (svc item)"
| "ws_start svc DiControl = Ok None"
| "ws_start svc (DiStop ReKeepAliveTimeout) = Err WsKeepAlive"
| "ws_start svc (DiStop ReReadTimeout) = Err WsReadTimeout"
| "ws_start svc (DiStop (ReDecoder e)) = Err (WsProtocol e)"
| "ws_start svc (DiStop (ReEncoder e)) = Err (WsProtocol e)"
| "ws_start svc (DiStop (ReIo e)) = Err (WsDisconnected e)"

record 'e ws_mailbox =
  mx_items :: "('e ws_error + ws_frame) list"
  mx_dropped :: bool
  mx_io_closed :: bool

definition ws_receiver_item :: "ws_frame \<Rightarrow> 'e ws_mailbox \<Rightarrow> ws_message option \<times> 'e ws_mailbox" where
  "ws_receiver_item item m =
     (None, if mx_dropped m then m\<lparr>mx_io_closed := True\<rparr> else m\<lparr>mx_items := mx_items m @ [Ok item]\<rparr>)"

definition ws_receiver_end :: "'e ws_error + unit \<Rightarrow> 'e ws_mailbox \<Rightarrow> 'e ws_mailbox" where
  "ws_receiver_end result m =
     (case result of
        Err e \<Rightarrow> if mx_dropped m then m else m\<lparr>mx_items := mx_items m @ [Err e]\<rparr>
      | Ok _ \<Rightarrow> m)"

section \<open>Headers\<close>

lemma hm_get_insert [simp]:
  "hm_get pn (hm_insert m k v) (Left k') = (if k' = k then Some v else hm_get pn m (Left k'))"
  by (simp add: hm_get_def hm_insert_def update_conv')

lemma map_of_insert: "map_of (hm_insert m k v) = (map_of m)(k \<mapsto> One v)"
  by (simp add: hm_insert_def update_conv')

lemma hm_get_append_new:
  "map_of m k = None \<Longrightarrow> hm_append m k v = hm_insert m k v"
  by (simp add: hm_append_def hm_insert_def)

lemma hm_get_present: "hm_get pn m (Left k) = Some v \<Longrightarrow> hm_contains_key pn m (Left k)"
  by (auto simp: hm_get_def bind_eq_Some_conv)

lemma map_of_filter:
  "map_of kvs k = (case map snd (filter (\<lambda>kv. fst kv = k) kvs) of [] \<Rightarrow> None | v # _ \<Rightarrow> Some v)"
  by (induction kvs) auto

lemma map_of_collect: "hm_invar m \<Longrightarrow> map_of (it_collect (hm_iter_new m)) k = hm_get pn m (Left k)"
  by (simp add: map_of_filter header_map_iteration hm_get_values)

lemma copy_headers_map_of:
  "map_of (copy_headers pn kvs hs) k = (if map_of hs k \<noteq> None then map_of hs k else map_option One (map_of kvs k))"
  by (induction pn kvs hs rule: copy_headers.induct) (auto simp: map_of_insert)

lemma copy_headers_get:
  "hm_invar m \<Longrightarrow> hm_get pn (copy_headers pn (it_collect (hm_iter_new m)) []) (Left k) = hm_get pn m (Left k)"
  by (cases "hm_get pn m (Left k)") (simp_all add: hm_get_def [of pn "copy_headers _ _ _"] copy_headers_map_of map_of_collect [of m k pn])

lemma text_value_valid: "list_all is_valid s \<Longrightarrow> text_value s = Ok \<lparr>hv_inner = s, hv_is_sensitive = False\<rparr>"
  by (simp add: text_value_def hv_from_shared_def hv_checks)

lemma hv_from_str_valid: "list_all is_valid s \<Longrightarrow> hv_from_str s = Ok \<lparr>hv_inner = s, hv_is_sensitive = False\<rparr>"
  by (simp add: hv_from_str_def hv_checks)

lemmas ws_header_names = H_UPGRADE_def H_CONNECTION_def H_TRANSFER_ENCODING_def H_HOST_def H_COOKIE_def
  H_WS_VERSION_def H_WS_KEY_def H_WS_ACCEPT_def

section \<open>Requests and responses of the handshake\<close>

text \<open>What a configuration must say for the server to agree; a fresh one says it.\<close>

definition offers_websocket :: "(string \<Rightarrow> header_name option) \<Rightarrow> header_map \<Rightarrow> bool" where
  "offers_websocket pn hs \<longleftrightarrow> hm_invar hs \<and> has_websocket pn hs \<and>
     (case hm_get pn hs (Left H_WS_VERSION) of Some v \<Rightarrow> hv_inner v \<in> {''13'', ''8'', ''7''} | None \<Rightarrow> False)"

lemma wf_new_offers: "offers_websocket pn (wf_headers (wf_new :: 'j ws_client_config))"
proof -
  have "hv_from_static ''websocket'' = Some \<lparr>hv_inner = ''websocket'', hv_is_sensitive = False\<rparr>"
    "hv_from_static ''13'' = Some \<lparr>hv_inner = ''13'', hv_is_sensitive = False\<rparr>"
    "mentions ''websocket'' \<lparr>hv_inner = ''websocket'', hv_is_sensitive = False\<rparr>"
    by code_simp+
  then show ?thesis
    by (simp add: offers_websocket_def wf_new_def has_websocket_def ws_header_names hm.invar_insert hm.invar_empty)
qed

text \<open>
  What a head carries to the peer: of a request the method, the upgrade and the three headers of the
  handshake; of a response the status, the two headers and the line for its connection type.
\<close>

definition arrives_as :: "request_head \<Rightarrow> request_head \<Rightarrow> bool" where
  "arrives_as head req \<longleftrightarrow> rq_method req = rq_method head \<and> rq_upgrade req = rq_upgrade head \<and>
     list_all (\<lambda>k. map_of (rq_headers req) k = map_of (rq_headers head) k) [H_UPGRADE, H_WS_VERSION, H_WS_KEY]"

definition answers_as :: "response_head \<Rightarrow> response_head \<Rightarrow> bool" where
  "answers_as h res \<longleftrightarrow> rs_status res = rs_status h \<and>
     list_all (\<lambda>k. map_of (rs_headers res) k = map_of (rs_headers h) k) [H_UPGRADE, H_WS_ACCEPT] \<and>
     list_all (\<lambda>(k, v). map_of (rs_headers res) k = Some (One \<lparr>hv_inner = v, hv_is_sensitive = False\<rparr>))
       (connection_fields (rs_version h) (rs_connection_type h))"

lemma same_entry_get: "map_of m k = map_of m' k \<Longrightarrow> hm_get pn m (Left k) = hm_get pn m' (Left k)"
  by (simp add: hm_get_def)

lemma pooled_request: "rq_headers (fst (get_message rq_clear rq_default pool)) = []"
  using rq_pool.get_message_carried [of pool] by (simp add: rq_carried_def rq_default_def hm_new_def)

lemma set_host_get:
  "set_host env u hs = Some hs' \<Longrightarrow> k \<noteq> H_HOST \<Longrightarrow> hm_get pn hs' (Left k) = hm_get pn hs (Left k)"
  by (auto simp: set_host_def split: if_splits option.splits sum.splits)

lemma set_cookies_get:
  "set_cookies env ck hs = Some hs' \<Longrightarrow> k \<noteq> H_COOKIE \<Longrightarrow> hm_get pn hs' (Left k) = hm_get pn hs (Left k)"
  by (auto simp: set_cookies_def split: if_splits option.splits sum.splits)

lemma wsc_request_spec:
  assumes "wsc_request env pool sec_key c = Some (head, key)" "hm_invar (wf_headers (wsc_cfg c))"
  shows "key = ws_b64 env sec_key" "rq_method head = ''GET''" "rq_upgrade head"
    "hm_get pn (rq_headers head) (Left H_WS_KEY) = Some \<lparr>hv_inner = key, hv_is_sensitive = False\<rparr>"
    "k \<notin> {H_HOST, H_COOKIE, H_WS_KEY} \<Longrightarrow> hm_get pn (rq_headers head) (Left k) = hm_get pn (wf_headers (wsc_cfg c)) (Left k)"
proof -
  let ?hs = "copy_headers (ws_parse_name env) (it_collect (hm_iter_new (wf_headers (wsc_cfg c)))) []"
  obtain hs1 hs2 v where h: "set_host env (wsc_uri c) ?hs = Some hs1" "set_cookies env (wf_cookies (wsc_cfg c)) hs1 = Some hs2"
    "hv_from_str key = Ok v" "key = ws_b64 env sec_key" "rq_headers head = hm_insert hs2 H_WS_KEY v"
    "rq_method head = ''GET''" "rq_upgrade head"
    using assms(1)
    by (auto simp: wsc_request_def Let_def pooled_request rq_upgrade_def flag_simps simp del: get_message.simps split: option.splits sum.splits)
  then show "key = ws_b64 env sec_key" "rq_method head = ''GET''" "rq_upgrade head" by simp_all
  show "hm_get pn (rq_headers head) (Left H_WS_KEY) = Some \<lparr>hv_inner = key, hv_is_sensitive = False\<rparr>"
    using h(3,5) by (auto simp: hv_checks split: if_splits)
  have copy: "hm_get pn ?hs (Left k) = hm_get pn (wf_headers (wsc_cfg c)) (Left k)"
    using copy_headers_get [OF assms(2), of "ws_parse_name env" k] by (simp add: hm_get_def)
  assume "k \<notin> {H_HOST, H_COOKIE, H_WS_KEY}"
  then show "hm_get pn (rq_headers head) (Left k) = hm_get pn (wf_headers (wsc_cfg c)) (Left k)"
    using h(5) set_cookies_get [OF h(2), of k pn] set_host_get [OF h(1), of k pn] copy by simp
qed

text \<open>The head of a handshake response, for every key the hash takes.\<close>

definition accept_head :: "response_head list \<Rightarrow> string \<Rightarrow> response_head" where
  "accept_head pool accept =
     (rs_set_connection_type Upgrade (fresh_head pool 101))
       \<lparr>rs_headers := hm_insert (hm_insert (hm_insert hm_new H_UPGRADE \<lparr>hv_inner = ''websocket'', hv_is_sensitive = False\<rparr>)
          H_TRANSFER_ENCODING \<lparr>hv_inner = ''chunked'', hv_is_sensitive = False\<rparr>)
          H_WS_ACCEPT \<lparr>hv_inner = accept, hv_is_sensitive = False\<rparr>\<rparr>"

lemma handshake_response_head:
  assumes "hm_get (ws_parse_name env) (rq_headers req) (Left H_WS_KEY) = Some v"
    and "hash_key (ws_b64 env) (map of_char (hv_inner v)) = Some r"
    and "accept = (case r of Ok k \<Rightarrow> k | Err _ \<Rightarrow> [])" "list_all is_valid accept"
  shows "handshake_response env pool req = Some \<lparr>bl_head = Some (accept_head pool accept), bl_err = None, bl_cookies = None\<rparr>"
proof -
  have ws: "text_value ''websocket'' = Ok \<lparr>hv_inner = ''websocket'', hv_is_sensitive = False\<rparr>"
    "text_value ''chunked'' = Ok \<lparr>hv_inner = ''chunked'', hv_is_sensitive = False\<rparr>"
    by code_simp+
  have new: "map_of (hm_insert hm_new H_UPGRADE a) H_TRANSFER_ENCODING = None"
    "map_of (hm_insert (hm_insert hm_new H_UPGRADE a) H_TRANSFER_ENCODING b) H_WS_ACCEPT = None" for a b
    by (simp_all add: map_of_insert hm_new_def ws_header_names)
  show ?thesis
    using assms(1,2) text_value_valid [OF assms(4)] assms(3)
    by (simp add: handshake_response_def bl_take_def bl_header_def bl_upgrade_def bl_set_header_def on_parts_def parts_def
      bl_new_def ws hm_get_append_new new accept_head_def)
qed

lemma hash_key_total:
  assumes "length key \<le> 32"
  shows "\<exists>bs. hash_key b64 key = Some (Ok (b64 bs))"
proof -
  let ?inp = "key @ WS_GUID @ replicate (192 - (length key + 36)) 0"
  have "length key + 36 + 73 \<le> length ?inp" using assms by simp
  from pad_message_spec [OF this] obtain msg where "pad_message (length key + 36) ?inp = Some msg" by blast
  with assms show ?thesis by (auto simp: hash_key_def Let_def)
qed

lemma same_entries:
  assumes "map_of (rs_headers res) H_UPGRADE = map_of (rs_headers (accept_head pool accept)) H_UPGRADE"
    "map_of (rs_headers res) H_WS_ACCEPT = map_of (rs_headers (accept_head pool accept)) H_WS_ACCEPT"
  shows "has_websocket pn (rs_headers res)"
    "hm_get pn (rs_headers res) (Left H_WS_ACCEPT) = Some \<lparr>hv_inner = accept, hv_is_sensitive = False\<rparr>"
proof -
  have "mentions ''websocket'' \<lparr>hv_inner = ''websocket'', hv_is_sensitive = False\<rparr>" by code_simp
  then show "has_websocket pn (rs_headers res)"
    using same_entry_get [OF assms(1), of pn] by (simp add: has_websocket_def accept_head_def ws_header_names)
  show "hm_get pn (rs_headers res) (Left H_WS_ACCEPT) = Some \<lparr>hv_inner = accept, hv_is_sensitive = False\<rparr>"
    using same_entry_get [OF assms(2), of pn] by (simp add: accept_head_def)
qed

text \<open>The client accepts what the head of a handshake response becomes.\<close>

lemma accept_head_verified:
  assumes "hash_key (ws_b64 env) (map of_char key) = Some (Ok accept)" "answers_as (accept_head pool accept) res"
  shows "wsc_verify_response env key res = Some (Ok ())"
proof -
  have "rs_connection_type (accept_head pool accept) = Upgrade" "rs_status (accept_head pool accept) = 101"
    by (simp_all add: accept_head_def rs_connection_type_def flag_simps)
  with assms(2) have "map_of (rs_headers res) H_CONNECTION = Some (One \<lparr>hv_inner = ''upgrade'', hv_is_sensitive = False\<rparr>)"
    "rs_status res = 101"
    by (simp_all add: answers_as_def connection_fields_def)
  moreover have "mentions ''upgrade'' \<lparr>hv_inner = ''upgrade'', hv_is_sensitive = False\<rparr>" by code_simp
  ultimately show ?thesis
    using assms same_entries [of res pool accept "ws_parse_name env"]
    by (simp add: wsc_verify_response_def answers_as_def hm_get_def [of _ _ "Left H_CONNECTION"])
qed

lemma verify_handshake_ok:
  assumes "rq_method req = ''GET''" "rq_upgrade req" "offers_websocket pn hs"
    and "hm_get pn (rq_headers req) (Left H_UPGRADE) = hm_get pn hs (Left H_UPGRADE)"
    and "hm_get pn (rq_headers req) (Left H_WS_VERSION) = hm_get pn hs (Left H_WS_VERSION)"
    and "hm_get pn (rq_headers req) (Left H_WS_KEY) = Some v"
  shows "verify_handshake pn req = Ok ()"
proof -
  obtain ver where "hm_get pn (rq_headers req) (Left H_WS_VERSION) = Some ver" "hv_inner ver \<in> {''13'', ''8'', ''7''}"
    using assms(3,5) by (auto simp: offers_websocket_def split: option.splits)
  then show ?thesis
    using assms hm_get_present [OF assms(6)] hm_get_present [of pn "rq_headers req" H_WS_VERSION ver]
    by (auto simp: verify_handshake_def offers_websocket_def has_websocket_def)
qed

text \<open>A cookie jar without anything to send, with which the client panics. \<^verbatim>\<open>set_cookie\<close> leaves none.\<close>

definition empty_jar :: "'j ws_env \<Rightarrow> 'j ws_client \<Rightarrow> bool" where
  "empty_jar env c \<longleftrightarrow> (case wf_cookies (wsc_cfg c) of None \<Rightarrow> False | Some jar \<Rightarrow> cj_delta (ws_jar env) jar = [])"

lemma set_cookie_not_empty:
  assumes "\<And>jar. cj_delta (ws_jar env) (cj_add (ws_jar env) ck jar) \<noteq> []"
  shows "\<not> empty_jar env \<lparr>wsc_uri = u, wsc_cfg = wf_set_cookie (ws_jar env) ck cfg\<rparr>"
  using assms by (simp add: empty_jar_def wf_set_cookie_def split: option.split)

lemma cookie_text_valid:
  assumes "\<And>s. list_all is_valid (ws_percent env s)"
  shows "if delta = [] then cookie_text env delta = None else \<exists>s. cookie_text env delta = Some s \<and> list_all is_valid s"
proof -
  have "list_all is_valid ''; ''" "list_all is_valid ''=''" by code_simp+
  with assms have v: "list_all is_valid (concat (map (\<lambda>c. ''; '' @ ws_percent env (ws_cookie_name env c) @ ''='' @
      ws_percent env (ws_cookie_value env c)) delta))"
    by (induction delta) simp_all
  show ?thesis
  proof (cases delta)
    case (Cons c cs)
    with v show ?thesis by (auto simp: cookie_text_def list_all_iff)
  qed (simp add: cookie_text_def)
qed

lemma set_cookies_total:
  assumes "\<And>s. list_all is_valid (ws_percent env s)"
  shows "set_cookies env (wf_cookies (wsc_cfg c)) hs = None \<longleftrightarrow> empty_jar env c"
  using cookie_text_valid [OF assms, where delta = "cj_delta (ws_jar env) (the (wf_cookies (wsc_cfg c)))"]
  by (auto simp: set_cookies_def empty_jar_def hv_from_str_valid split: option.splits if_splits)

lemma client_request_total:
  assumes "uri_host (ws_uri env) (wsc_uri c) = Some host" "list_all is_valid host" "\<And>s. list_all is_valid (ws_percent env s)"
    and "list_all is_valid (ws_b64 env sec_key)"
  shows "wsc_request env pool sec_key c = None \<longleftrightarrow> empty_jar env c"
proof -
  have "set_host env (wsc_uri c) hs = Some (the (set_host env (wsc_uri c) hs))" for hs
    using assms(1,2) by (simp add: set_host_def hv_from_str_valid)
  then obtain h where h: "set_host env (wsc_uri c) hs = Some (h hs)" for hs by (rule that)
  show ?thesis
    using assms(4) set_cookies_total [OF assms(3), of c]
    by (auto simp: wsc_request_def Let_def hv_from_str_valid h split: option.splits)
qed

section \<open>Properties\<close>

text \<open>
  C30: Client and server agree on the handshake. For every uri with a host that is a header value, every
  configuration that offers WebSocket in a version of the server and every 16 random bytes, the client builds a
  request; the server that receives it upgrades with status 101, and the client accepts this response. The one
  exception is a configured cookie jar with nothing to send, with which the client panics, and which \<^verbatim>\<open>set_cookie\<close> never leaves. The
  base64 encoder is assumed to print visible characters, four for every three bytes or part of them, and the percent
  encoder to print what a header value may contain.
\<close>

theorem ws_handshake_agrees:
  assumes "\<forall>bs. list_all is_visible_ascii (ws_b64 env bs) \<and> length (ws_b64 env bs) = 4 * ((length bs + 2) div 3)"
    and "uri_host (ws_uri env) (wsc_uri c) = Some host" "list_all is_valid host" "\<forall>s. list_all is_valid (ws_percent env s)"
    and "offers_websocket (ws_parse_name env) (wf_headers (wsc_cfg c))" "length sec_key = 16"
  shows "if empty_jar env c then wsc_request env rpool sec_key c = None
    else \<exists>head key. wsc_request env rpool sec_key c = Some (head, key) \<and>
      (\<forall>req. arrives_as head req \<longrightarrow>
       (\<exists>b h. handshake env pool req = Some (Ok b) \<and> bl_head b = Some h \<and> bl_err b = None \<and> rs_status h = 101 \<and> rs_upgrade h \<and>
          (\<forall>res. answers_as h res \<longrightarrow> wsc_verify_response env key res = Some (Ok ()))))"
proof (cases "empty_jar env c")
  case True
  then show ?thesis
    using client_request_total [of env c host sec_key rpool] assms(1-4) by (simp add: list_all_iff visible_is_valid)
next
  case False
  have valid: "list_all is_valid (ws_b64 env bs)" for bs
    using assms(1) by (simp add: list_all_iff visible_is_valid)
  obtain head key where r: "wsc_request env rpool sec_key c = Some (head, key)"
    using client_request_total [of env c host sec_key rpool] assms(2-4) valid False by auto
  have inv: "hm_invar (wf_headers (wsc_cfg c))" using assms(5) by (simp add: offers_websocket_def)
  note spec = wsc_request_spec [OF r inv]
  have len: "length (map of_char key :: u8 list) \<le> 32" using assms(1,6) spec(1) by simp
  obtain accept where acc: "hash_key (ws_b64 env) (map of_char key) = Some (Ok accept)" "list_all is_valid accept"
    using hash_key_total [OF len, of "ws_b64 env"] valid by blast
  have "\<exists>b h. handshake env pool req = Some (Ok b) \<and> bl_head b = Some h \<and> bl_err b = None \<and> rs_status h = 101 \<and> rs_upgrade h \<and>
      (\<forall>res. answers_as h res \<longrightarrow> wsc_verify_response env key res = Some (Ok ()))" if req: "arrives_as head req" for req
  proof -
    have get: "hm_get (ws_parse_name env) (rq_headers req) (Left k) = hm_get (ws_parse_name env) (rq_headers head) (Left k)"
      if "k \<in> {H_UPGRADE, H_WS_VERSION, H_WS_KEY}" for k
      using req that by (auto simp: arrives_as_def intro!: same_entry_get)
    have v: "verify_handshake (ws_parse_name env) req = Ok ()"
      by (rule verify_handshake_ok [OF _ _ assms(5)])
        (use req spec get in \<open>simp_all add: arrives_as_def ws_header_names\<close>)
    have "handshake_response env pool req = Some \<lparr>bl_head = Some (accept_head pool accept), bl_err = None, bl_cookies = None\<rparr>"
      by (rule handshake_response_head [where v = "\<lparr>hv_inner = key, hv_is_sensitive = False\<rparr>" and r = "Ok accept"])
        (use get spec(4) acc in simp_all)
    with v accept_head_verified [OF acc(1), of pool] show ?thesis
      by (simp add: handshake_def accept_head_def rs_upgrade_def rs_connection_type_def flag_simps)
  qed
  with r False show ?thesis by simp
qed

text \<open>Base64 stands in for by a printer of the right length.\<close>

definition sample_env :: "unit ws_env" where
  "sample_env =
     \<lparr>ws_uri = \<lparr>uo_parse = Some, uo_scheme = (\<lambda>_. Some ''ws''), uo_authority = Some, uo_host = (\<lambda>a. a), uo_port = (\<lambda>_. None)\<rparr>,
      ws_jar = \<lparr>cj_new = (), cj_add = (\<lambda>_ j. j), cj_add_original = (\<lambda>_ j. j), cj_remove = (\<lambda>_ j. j), cj_delta = (\<lambda>_. [])\<rparr>,
      ws_cookie_name = (\<lambda>c. c), ws_cookie_value = (\<lambda>c. c), ws_percent = filter is_valid,
      ws_b64 = (\<lambda>bs. replicate (4 * ((length bs + 2) div 3)) (CHR ''A'')), ws_parse_name = Some\<rparr>"

definition sample_client :: "unit ws_client" where
  "sample_client = \<lparr>wsc_uri = ''localhost'', wsc_cfg = wf_new\<rparr>"

theorem ws_handshake_agrees_witness:
  "\<exists>head key. wsc_request sample_env [] (replicate 16 7) sample_client = Some (head, key) \<and> arrives_as head head \<and>
     (\<exists>b h. handshake sample_env [] head = Some (Ok b) \<and> bl_head b = Some h \<and> rs_status h = 101)"
proof -
  have "\<forall>bs. list_all is_visible_ascii (ws_b64 sample_env bs) \<and> length (ws_b64 sample_env bs) = 4 * ((length bs + 2) div 3)"
    by (simp add: sample_env_def list_all_iff is_visible_ascii_def byte_val_def)
  moreover have "uri_host (ws_uri sample_env) (wsc_uri sample_client) = Some ''localhost''"
    by (simp add: sample_env_def sample_client_def uri_host_def)
  moreover have "list_all is_valid ''localhost''" by code_simp
  moreover have "\<forall>s. list_all is_valid (ws_percent sample_env s)" by (simp add: sample_env_def list_all_iff)
  moreover have "\<not> empty_jar sample_env sample_client" by (simp add: empty_jar_def sample_client_def wf_new_def)
  moreover have "offers_websocket (ws_parse_name sample_env) (wf_headers (wsc_cfg sample_client))"
    by (simp add: sample_client_def wf_new_offers)
  ultimately obtain head key where hk: "wsc_request sample_env [] (replicate 16 7) sample_client = Some (head, key)"
    and up: "arrives_as head req \<Longrightarrow> \<exists>b h. handshake sample_env [] req = Some (Ok b) \<and> bl_head b = Some h \<and> bl_err b = None \<and>
      rs_status h = 101 \<and> rs_upgrade h \<and> (\<forall>res. answers_as h res \<longrightarrow> wsc_verify_response sample_env key res = Some (Ok ()))" for req
    using ws_handshake_agrees [of sample_env sample_client "''localhost''" "replicate 16 7" "[]" "[]"] by (metis length_replicate)
  have same: "arrives_as head head" by (simp add: arrives_as_def)
  from up [OF this] obtain b h where "handshake sample_env [] head = Some (Ok b)" "bl_head b = Some h" "rs_status h = 101"
    by (elim exE conjE) (rule that)
  with hk same show ?thesis by (intro exI conjI)
qed

text \<open>
  A key of more than 32 bytes is refused by the hash, but the server drops this error: it upgrades all the
  same and answers with an empty challenge response.
\<close>

lemma long_key_accepted:
  assumes "verify_handshake (ws_parse_name env) req = Ok ()"
    and "hm_get (ws_parse_name env) (rq_headers req) (Left H_WS_KEY) = Some v" "length (hv_inner v) > 32"
  shows "handshake env pool req = Some (Ok \<lparr>bl_head = Some (accept_head pool []), bl_err = None, bl_cookies = None\<rparr>)"
proof -
  have "hash_key (ws_b64 env) (map of_char (hv_inner v)) = Some (Err BadWebsocketKey)"
    using assms(3) by (simp add: hash_key_def)
  from handshake_response_head [OF assms(2) this, of "[]" pool] assms(1) show ?thesis
    by (simp add: handshake_def)
qed

text \<open>
  A connection of the client takes frames up to the configured size, and its codec fits a server's, for
  frames in both directions, unless the server mode is set.
\<close>

lemma wsc_connect_codec:
  assumes "wsc_connect env pool sec_key connected late sent received c = Some (Ok conn)"
  shows "wc_max_size (wn_codec conn) = wf_max_size (wsc_cfg c)"
    "\<not> wf_server_mode (wsc_cfg c) \<Longrightarrow> peers (wn_codec conn) wc_new \<and> peers wc_new (wn_codec conn)"
proof -
  have "wn_codec conn = (if wf_server_mode (wsc_cfg c) then wc_set_max_size wc_new (wf_max_size (wsc_cfg c))
      else wc_client_mode (wc_set_max_size wc_new (wf_max_size (wsc_cfg c))))"
    using assms by (auto simp: wsc_connect_def Let_def split: option.splits sum.splits prod.splits if_splits)
  then show "wc_max_size (wn_codec conn) = wf_max_size (wsc_cfg c)"
    "\<not> wf_server_mode (wsc_cfg c) \<Longrightarrow> peers (wn_codec conn) wc_new \<and> peers wc_new (wn_codec conn)"
    by (simp_all add: peers_def wc_has_def wc_new_def wc_set_max_size_def wc_client_mode_def wc_remove_flags_def
      fl_contains_def fl_remove_def)
qed

end
