(* ===== verification/Client_Pool.thy ===== *)
theory Client_Pool
  imports Client_Types "HOL-Library.Monad_Syntax" "HOL-Library.Multiset"
begin

text \<open>
  The connection pool of the HTTP client (\<^verbatim>\<open>geario-http/src/client/pool.rs\<close>) and its connections
  (\<^verbatim>\<open>client/connection.rs\<close>).

  The state is that of \<^verbatim>\<open>Inner\<close> and \<^verbatim>\<open>Waiters\<close> and what surrounds them: the clock, the IO streams (by number:
  whether one is closed and its read buffer), the one-shot channels of the waiting calls, the
  connection attempts under way, the connections in the hands of the client, the streams being shut
  down, and whether the support task runs. The maps are association lists; their order, which a
  \<^verbatim>\<open>HashMap\<close> leaves open, may change between two steps. Asynchronous functions are cut where they wait.
  The support task is followed from its first wake-up on; the pass it makes when it starts is left out.
  A decrement of the number of acquired connections below zero is \<^const>\<open>None\<close>.
\<close>

section \<open>State\<close>

datatype pool_key = Key authority

datatype client_conn_type = H1 nat

record available_connection =
  av_io :: client_conn_type
  av_used :: nat
  av_created :: nat

text \<open>A connection; its guard \<^verbatim>\<open>Acquired\<close> is the key, present until it is released or dropped.\<close>

record client_connection =
  cx_io :: "client_conn_type option"
  cx_created :: nat
  cx_pool :: "pool_key option"

datatype acquire_result =
    Acquired client_conn_type nat
  | Available
  | NotAvailable

type_synonym waiter = nat
type_synonym conn_result = "connect_error + client_connection"

datatype waiter_chan =
    ChWaiting
  | ChSent conn_result
  | ChCanceled
  | ChClosed

record conn_pool =
  po_cfg :: client_config
  po_stopped :: bool
  po_acquired :: nat
  po_available :: "(pool_key \<times> available_connection list) list"
  po_connecting :: "pool_key list"
  po_waker :: bool
  po_waiters :: "(pool_key \<times> (connect \<times> waiter) list) list"
  rt_now :: nat
  rt_closed :: "nat list"
  rt_rbuf :: "nat \<Rightarrow> bytes"
  rt_chans :: "waiter_chan list"
  rt_opening :: "(pool_key \<times> connect \<times> waiter) list"
  rt_held :: "client_connection list"
  rt_shutdown :: "nat list"
  rt_task :: bool

definition key_from :: "authority \<Rightarrow> pool_key" where
  "key_from authority = Key authority"

definition pool_new :: "client_config \<Rightarrow> nat \<Rightarrow> conn_pool" where
  "pool_new cfg now =
     \<lparr>po_cfg = cfg, po_stopped = False, po_acquired = 0, po_available = [], po_connecting = [], po_waker = False,
      po_waiters = [], rt_now = now, rt_closed = [], rt_rbuf = (\<lambda>_. []), rt_chans = [], rt_opening = [], rt_held = [],
      rt_shutdown = [], rt_task = True\<rparr>"

section \<open>Channels\<close>

text \<open>
  \<^verbatim>\<open>Sender::is_canceled\<close> says that the receiver is gone; \<^verbatim>\<open>Sender::send\<close> gives the value back in that case
  (here: it says whether the value was taken).
\<close>

definition is_canceled :: "conn_pool \<Rightarrow> waiter \<Rightarrow> bool" where
  "is_canceled p tx = (tx < length (rt_chans p) \<and> rt_chans p ! tx = ChCanceled)"

definition chan_send :: "waiter \<Rightarrow> conn_result \<Rightarrow> conn_pool \<Rightarrow> bool \<times> conn_pool" where
  "chan_send tx v p =
     (if tx < length (rt_chans p) \<and> rt_chans p ! tx = ChWaiting
      then (True, p\<lparr>rt_chans := (rt_chans p)[tx := ChSent v]\<rparr>)
      else (False, p))"

definition chan_close :: "waiter \<Rightarrow> conn_pool \<Rightarrow> conn_pool" where
  "chan_close tx p =
     (if tx < length (rt_chans p) \<and> rt_chans p ! tx = ChWaiting
      then p\<lparr>rt_chans := (rt_chans p)[tx := ChClosed]\<rparr>
      else p)"

definition chan_new :: "conn_pool \<Rightarrow> waiter \<times> conn_pool" where
  "chan_new p = (length (rt_chans p), p\<lparr>rt_chans := rt_chans p @ [ChWaiting]\<rparr>)"

section \<open>Waiters\<close>

definition wait_for :: "pool_key \<Rightarrow> connect \<Rightarrow> conn_pool \<Rightarrow> waiter \<times> conn_pool" where
  "wait_for key req p =
     (let (tx, p) = chan_new p;
          queue = (case map_of (po_waiters p) key of Some q \<Rightarrow> q | None \<Rightarrow> [])
      in (tx, p\<lparr>po_waiters := AList.update key (queue @ [(req, tx)]) (po_waiters p)\<rparr>))"

definition waiters_cleanup :: "conn_pool \<Rightarrow> conn_pool" where
  "waiters_cleanup p =
     (let ws = map (\<lambda>(key, q). (key, dropWhile (\<lambda>(_, tx). is_canceled p tx) q)) (po_waiters p)
      in p\<lparr>po_waiters := filter (\<lambda>(_, q). q \<noteq> []) ws\<rparr>)"

section \<open>Acquiring a connection\<close>

text \<open>
  The loop of \<^verbatim>\<open>Inner::acquire\<close> over the idle connections of a host, from the back of the queue: an
  expired one is shut down, a closed one or one with unread data is dropped.
\<close>

fun reuse ::
  "conn_pool \<Rightarrow> available_connection list \<Rightarrow>
   (client_conn_type \<times> nat) option \<times> available_connection list \<times> conn_pool" where
  "reuse p [] = (None, [], p)"
| "reuse p (conn # conns) =
     (case av_io conn of
        H1 io \<Rightarrow>
          if rt_now p - av_used conn > cc_conn_keep_alive (po_cfg p) \<or>
             rt_now p - av_created conn > cc_conn_lifetime (po_cfg p)
          then reuse (p\<lparr>rt_shutdown := io # rt_shutdown p\<rparr>) conns
          else if io \<in> set (rt_closed p) then reuse p conns
          else if rt_rbuf p io = [] \<or> (length (rt_rbuf p io) = 2 \<and> rt_rbuf p io = CRLF)
          then (Some (av_io conn, av_created conn), conns, p\<lparr>rt_rbuf := (rt_rbuf p)(io := [])\<rparr>)
          else reuse p conns)"

definition acquire :: "pool_key \<Rightarrow> conn_pool \<Rightarrow> acquire_result \<times> conn_pool" where
  "acquire key p =
     (if cc_limit (po_cfg p) > 0 \<and> po_acquired p \<ge> cc_limit (po_cfg p) then (NotAvailable, p)
      else
        let (found, p) =
          (case map_of (po_available p) key of
             Some conns \<Rightarrow>
               (let (found, left, p) = reuse p (rev conns)
                in (found, p\<lparr>po_available := AList.update key (rev left) (po_available p)\<rparr>))
           | None \<Rightarrow> (None, p))
        in case found of
             Some (io, created) \<Rightarrow> (Acquired io created, p)
           | None \<Rightarrow> (if key \<in> set (po_connecting p) then NotAvailable else Available, p))"

definition check_availibility :: "conn_pool \<Rightarrow> conn_pool" where
  "check_availibility p =
     (let p = waiters_cleanup p
      in if po_waiters p \<noteq> [] \<and> po_acquired p < cc_limit (po_cfg p) then p\<lparr>po_waker := True\<rparr> else p)"

section \<open>Guards\<close>

definition acquired_new :: "pool_key \<Rightarrow> conn_pool \<Rightarrow> pool_key \<times> conn_pool" where
  "acquired_new key p = (key, p\<lparr>po_acquired := po_acquired p + 1\<rparr>)"

definition dec_acquired :: "conn_pool \<Rightarrow> conn_pool option" where
  "dec_acquired p = (if po_acquired p = 0 then None else Some (p\<lparr>po_acquired := po_acquired p - 1\<rparr>))"

definition connection_new :: "client_conn_type \<Rightarrow> nat \<Rightarrow> pool_key option \<Rightarrow> client_connection" where
  "connection_new io created pool = \<lparr>cx_io = Some io, cx_created = created, cx_pool = pool\<rparr>"

text \<open>\<^verbatim>\<open>Acquired::release\<close>; \<^verbatim>\<open>Connection::into_inner\<close> unwraps the stream.\<close>

definition acquired_release :: "pool_key \<Rightarrow> client_connection \<Rightarrow> bool \<Rightarrow> conn_pool \<Rightarrow> conn_pool option" where
  "acquired_release key conn close p =
     (case cx_io conn of
        None \<Rightarrow> None
      | Some (H1 io) \<Rightarrow>
          do {
            p \<leftarrow> dec_acquired p;
            let p = (if close then p\<lparr>rt_shutdown := io # rt_shutdown p\<rparr>
                     else
                       let queue = (case map_of (po_available p) key of Some q \<Rightarrow> q | None \<Rightarrow> [])
                       in p\<lparr>po_available := AList.update key
                              (queue @ [\<lparr>av_io = H1 io, av_used = rt_now p, av_created = cx_created conn\<rparr>]) (po_available p)\<rparr>);
            Some (check_availibility p)
          })"

definition acquired_drop :: "conn_pool \<Rightarrow> conn_pool option" where
  "acquired_drop p = map_option check_availibility (dec_acquired p)"

definition connection_release :: "client_connection \<Rightarrow> bool \<Rightarrow> conn_pool \<Rightarrow> conn_pool option" where
  "connection_release conn close p =
     (case cx_pool conn of
        Some key \<Rightarrow> acquired_release key (conn\<lparr>cx_pool := None\<rparr>) close p
      | None \<Rightarrow> Some p)"

text \<open>Dropping a connection drops its guard.\<close>

definition connection_drop :: "client_connection \<Rightarrow> conn_pool \<Rightarrow> conn_pool option" where
  "connection_drop conn p = (case cx_pool conn of Some _ \<Rightarrow> acquired_drop p | None \<Rightarrow> Some p)"

definition open_guard_new :: "pool_key \<Rightarrow> conn_pool \<Rightarrow> conn_pool" where
  "open_guard_new key p = p\<lparr>po_connecting := List.insert key (po_connecting p)\<rparr>"

definition open_guard_consume :: "pool_key \<Rightarrow> conn_pool \<Rightarrow> pool_key \<times> conn_pool" where
  "open_guard_consume key p = acquired_new key (p\<lparr>po_connecting := removeAll key (po_connecting p)\<rparr>)"

definition open_guard_drop :: "pool_key \<Rightarrow> conn_pool \<Rightarrow> conn_pool" where
  "open_guard_drop key p = check_availibility (p\<lparr>po_connecting := removeAll key (po_connecting p)\<rparr>)"

section \<open>Opening a connection\<close>

text \<open>\<^verbatim>\<open>open_connection\<close> up to the call of the connector, and its task after the connector has answered.\<close>

definition open_connection :: "connect \<Rightarrow> pool_key \<Rightarrow> waiter \<Rightarrow> conn_pool \<Rightarrow> conn_pool" where
  "open_connection req key tx p =
     (let p = open_guard_new key p
      in p\<lparr>rt_opening := rt_opening p @ [(key, req, tx)]\<rparr>)"

definition opened :: "pool_key \<Rightarrow> waiter \<Rightarrow> connect_error + nat \<Rightarrow> conn_pool \<Rightarrow> conn_pool option" where
  "opened key tx result p =
     (case result of
        Err err \<Rightarrow>
          (let (_, p) = chan_send tx (Err err) p in Some (open_guard_drop key p))
      | Ok io \<Rightarrow>
          if po_stopped p then Some (chan_close tx (open_guard_drop key p))
          else
            let (guard, p) = open_guard_consume key p;
                conn = connection_new (H1 io) (rt_now p) (Some guard);
                (taken, p) = chan_send tx (Ok conn) p
            in do {
              p \<leftarrow> (if taken then Some p else connection_release conn False p);
              Some (check_availibility p)
            })"

section \<open>Calling the pool\<close>

datatype pool_outcome =
    CallFailed connect_error
  | CallDone client_connection
  | CallWait waiter

definition pool_call :: "uri_ops \<Rightarrow> connect \<Rightarrow> conn_pool \<Rightarrow> pool_outcome \<times> conn_pool" where
  "pool_call uo req p =
     (case uo_authority uo (cn_uri req) of
        None \<Rightarrow> (CallFailed CeUnresolved, p)
      | Some auth \<Rightarrow>
          let key = key_from auth;
              (result, p) = acquire key p
          in case result of
               Acquired io created \<Rightarrow>
                 (let (guard, p) = acquired_new key p in (CallDone (connection_new io created (Some guard)), p))
             | Available \<Rightarrow>
                 (let (tx, p) = chan_new p in (CallWait tx, open_connection req key tx p))
             | NotAvailable \<Rightarrow>
                 (let (tx, p) = wait_for key req p in (CallWait tx, p)))"

text \<open>The call after its wait: the result in the channel, or the channel was closed.\<close>

definition call_resume :: "waiter \<Rightarrow> conn_pool \<Rightarrow> (conn_result \<times> conn_pool) option" where
  "call_resume rx p =
     (if rx < length (rt_chans p) then
        (case rt_chans p ! rx of
           ChSent r \<Rightarrow> Some (r, p\<lparr>rt_chans := (rt_chans p)[rx := ChClosed]\<rparr>)
         | ChClosed \<Rightarrow> Some (Err (CeDisconnected None), p)
         | _ \<Rightarrow> None)
      else None)"

text \<open>A call is dropped while it waits, with the connection that may be in its channel.\<close>

definition call_cancel :: "waiter \<Rightarrow> conn_pool \<Rightarrow> conn_pool option" where
  "call_cancel rx p =
     (if rx < length (rt_chans p) then
        let p' = p\<lparr>rt_chans := (rt_chans p)[rx := ChCanceled]\<rparr>
        in case rt_chans p ! rx of
             ChSent (Ok conn) \<Rightarrow> connection_drop conn p'
           | _ \<Rightarrow> Some p'
      else Some p)"

section \<open>The support task\<close>

text \<open>
  One pass of \<^verbatim>\<open>run_connection_pool\<close> over the waiters of one host and over all hosts; the flag says that
  a waiter has been removed. The waiters are borrowed during the pass: if the receiver of a connection
  were gone, dropping the connection would borrow them again, which is a panic (\<^const>\<open>None\<close>).
\<close>

fun serve_queue ::
  "pool_key \<Rightarrow> (connect \<times> waiter) list \<Rightarrow> bool \<Rightarrow> conn_pool \<Rightarrow> ((connect \<times> waiter) list \<times> bool \<times> conn_pool) option" where
  "serve_queue key [] cleanup p = Some ([], cleanup, p)"
| "serve_queue key ((req, tx) # queue) cleanup p =
     (if is_canceled p tx then serve_queue key queue True p
      else case acquire key p of
        (NotAvailable, p) \<Rightarrow> Some ((req, tx) # queue, cleanup, p)
      | (Acquired io created, p) \<Rightarrow>
          (let (guard, p) = acquired_new key p;
               (taken, p) = chan_send tx (Ok (connection_new io created (Some guard))) p
           in if taken then serve_queue key queue True p else None)
      | (Available, p) \<Rightarrow> serve_queue key queue True (open_connection req key tx p))"

fun serve_waiters ::
  "(pool_key \<times> (connect \<times> waiter) list) list \<Rightarrow> bool \<Rightarrow> conn_pool \<Rightarrow>
   ((pool_key \<times> (connect \<times> waiter) list) list \<times> bool \<times> conn_pool) option" where
  "serve_waiters [] cleanup p = Some ([], cleanup, p)"
| "serve_waiters ((key, queue) # ws) cleanup p =
     do {
       (queue, cleanup, p) \<leftarrow> serve_queue key queue cleanup p;
       (ws, cleanup, p) \<leftarrow> serve_waiters ws cleanup p;
       Some ((key, queue) # ws, cleanup, p)
     }"

definition pool_pass :: "conn_pool \<Rightarrow> conn_pool option" where
  "pool_pass p =
     do {
       (ws, cleanup, p) \<leftarrow> serve_waiters (po_waiters p) False p;
       let p = p\<lparr>po_waiters := ws\<rparr>;
       Some (if cleanup then waiters_cleanup p else p)
     }"

text \<open>The task wakes up: a signal was sent, or the stop channel was closed.\<close>

definition pool_wake :: "bool \<Rightarrow> conn_pool \<Rightarrow> conn_pool option" where
  "pool_wake stopping p =
     (let p = p\<lparr>po_waker := False\<rparr>
      in if stopping \<or> po_stopped p then Some (p\<lparr>rt_task := False\<rparr>) else pool_pass p)"

definition pool_shutdown :: "conn_pool \<Rightarrow> conn_pool" where
  "pool_shutdown p = p\<lparr>po_stopped := True\<rparr>"

text \<open>The last handle of the pool is dropped: the waiters are dropped with their channels.\<close>

definition pool_drop :: "conn_pool \<Rightarrow> conn_pool" where
  "pool_drop p =
     (let p = fold chan_close (map snd (concat (map snd (po_waiters p)))) p
      in p\<lparr>po_waiters := [], po_stopped := True, po_waker := True\<rparr>)"

section \<open>Runs\<close>

text \<open>
  A client calls the pool, waits, gives up, uses and releases or drops its connections; connection
  attempts end; the support task wakes up; the pool is shut down or dropped. In between, time passes,
  streams are closed, data arrives, and the maps may be ordered anew.
\<close>

fun hold :: "pool_outcome \<Rightarrow> conn_pool \<Rightarrow> conn_pool" where
  "hold (CallDone c) p = p\<lparr>rt_held := c # rt_held p\<rparr>"
| "hold _ p = p"

fun hold_result :: "conn_result \<Rightarrow> conn_pool \<Rightarrow> conn_pool" where
  "hold_result (Inr c) p = p\<lparr>rt_held := c # rt_held p\<rparr>"
| "hold_result (Inl _) p = p"

inductive pool_step :: "uri_ops \<Rightarrow> conn_pool \<Rightarrow> conn_pool \<Rightarrow> bool" for uo where
  ps_call: "pool_call uo req p = (r, p') \<Longrightarrow> pool_step uo p (hold r p')"
| ps_resume: "call_resume rx p = Some (r, p') \<Longrightarrow> pool_step uo p (hold_result r p')"
| ps_cancel: "call_cancel rx p = Some p' \<Longrightarrow> pool_step uo p p'"
| ps_opened: "(key, req, tx) \<in> set (rt_opening p) \<Longrightarrow>
    opened key tx res (p\<lparr>rt_opening := remove1 (key, req, tx) (rt_opening p)\<rparr>) = Some p' \<Longrightarrow> pool_step uo p p'"
| ps_release: "c \<in> set (rt_held p) \<Longrightarrow> connection_release c close (p\<lparr>rt_held := remove1 c (rt_held p)\<rparr>) = Some p' \<Longrightarrow>
    pool_step uo p p'"
| ps_drop: "c \<in> set (rt_held p) \<Longrightarrow> connection_drop c (p\<lparr>rt_held := remove1 c (rt_held p)\<rparr>) = Some p' \<Longrightarrow> pool_step uo p p'"
| ps_wake: "rt_task p \<Longrightarrow> po_waker p \<or> stopping \<Longrightarrow> (stopping \<longrightarrow> po_stopped p) \<Longrightarrow> pool_wake stopping p = Some p' \<Longrightarrow>
    pool_step uo p p'"
| ps_shutdown: "pool_step uo p (pool_shutdown p)"
| ps_pool_drop: "pool_step uo p (pool_drop p)"
| ps_world: "rt_now p \<le> now \<Longrightarrow> mset ws = mset (po_waiters p) \<Longrightarrow> mset av = mset (po_available p) \<Longrightarrow>
    pool_step uo p (p\<lparr>rt_now := now, rt_closed := closed, rt_rbuf := rbuf, po_waiters := ws, po_available := av\<rparr>)"

abbreviation pool_steps where
  "pool_steps uo \<equiv> (pool_step uo)\<^sup>*\<^sup>*"

section \<open>What acquiring changes\<close>

definition idle :: "conn_pool \<Rightarrow> pool_key \<Rightarrow> available_connection list" where
  "idle p k = (case map_of (po_available p) k of Some q \<Rightarrow> q | None \<Rightarrow> [])"

text \<open>Acquiring touches the idle connections, the streams being shut down and the read buffers only.\<close>

definition only_idle :: "conn_pool \<Rightarrow> conn_pool \<Rightarrow> bool" where
  "only_idle p p' \<longleftrightarrow>
     po_cfg p' = po_cfg p \<and> po_stopped p' = po_stopped p \<and> po_acquired p' = po_acquired p \<and>
     po_connecting p' = po_connecting p \<and> po_waker p' = po_waker p \<and> po_waiters p' = po_waiters p \<and> rt_now p' = rt_now p \<and>
     rt_closed p' = rt_closed p \<and> rt_chans p' = rt_chans p \<and> rt_opening p' = rt_opening p \<and> rt_held p' = rt_held p \<and>
     rt_task p' = rt_task p"

lemma reuse_frame:
  "reuse p conns = (found, left, p') \<Longrightarrow>
     only_idle p p' \<and> po_available p' = po_available p \<and> (found = None \<longrightarrow> left = []) \<and> (conns = [] \<longrightarrow> left = [])"
  by (induction p conns rule: reuse.induct) (auto simp: only_idle_def split: client_conn_type.splits if_splits)

lemma acquire_frame: "acquire k p = (r, p') \<Longrightarrow> only_idle p p'"
  by (auto simp: acquire_def only_idle_def Let_def split: if_splits option.splits prod.splits dest!: reuse_frame)

lemma acquire_idle:
  assumes "acquire k p = (r, p')"
  shows "idle p j = [] \<Longrightarrow> idle p' j = []"
    and "\<forall>io created. r \<noteq> Acquired io created \<Longrightarrow> idle p' k = [] \<or> (0 < cc_limit (po_cfg p) \<and> cc_limit (po_cfg p) \<le> po_acquired p)"
  using assms
  by (auto simp: acquire_def idle_def Let_def update_conv' split: if_splits option.splits prod.splits dest!: reuse_frame)

lemma acquire_answer:
  assumes "acquire k p = (r, p')"
  shows "r = Available \<Longrightarrow> k \<notin> set (po_connecting p)"
    and "r = NotAvailable \<Longrightarrow> k \<in> set (po_connecting p) \<or> (0 < cc_limit (po_cfg p) \<and> cc_limit (po_cfg p) \<le> po_acquired p)"
    and "r \<noteq> NotAvailable \<Longrightarrow> 0 < cc_limit (po_cfg p) \<longrightarrow> po_acquired p < cc_limit (po_cfg p)"
  using assms
  by (auto simp: acquire_def only_idle_def Let_def split: if_splits option.splits prod.splits dest!: reuse_frame)

section \<open>Guards are counted\<close>

fun sent_conn :: "waiter_chan \<Rightarrow> bool" where
  "sent_conn (ChSent (Inr _)) = True"
| "sent_conn _ = False"

definition whole :: "client_connection \<Rightarrow> bool" where
  "whole c \<longleftrightarrow> cx_io c \<noteq> None \<and> cx_pool c \<noteq> None"

text \<open>
  The number of acquired connections is that of the guards: of the connections in the hands of the
  client and in the channels, and of \<open>n\<close> more that are in flight within an operation.
\<close>

definition counted :: "nat \<Rightarrow> conn_pool \<Rightarrow> bool" where
  "counted n p \<longleftrightarrow>
     po_acquired p = length (rt_held p) + length (filter sent_conn (rt_chans p)) + n \<and>
     list_all whole (rt_held p) \<and> (\<forall>c. ChSent (Inr c) \<in> set (rt_chans p) \<longrightarrow> whole c)"

lemma length_filter_update:
  "i < length xs \<Longrightarrow>
   length (filter P (xs[i := v])) + of_bool (P (xs ! i)) = length (filter P xs) + of_bool (P v)"
proof (induction xs arbitrary: i)
  case (Cons x xs)
  then show ?case by (cases i) auto
qed simp

lemma counted_same:
  "counted n p \<Longrightarrow> po_acquired p' = po_acquired p \<Longrightarrow> rt_held p' = rt_held p \<Longrightarrow> rt_chans p' = rt_chans p \<Longrightarrow> counted n p'"
  by (simp add: counted_def)

lemma counted_chan:
  assumes "counted n p" "i < length (rt_chans p)" "\<not> sent_conn (rt_chans p ! i)"
  shows "\<not> sent_conn ch \<Longrightarrow> counted n (p\<lparr>rt_chans := (rt_chans p)[i := ch]\<rparr>)"
    and "whole c \<Longrightarrow> n = Suc m \<Longrightarrow> counted m (p\<lparr>rt_chans := (rt_chans p)[i := ChSent (Inr c)]\<rparr>)"
proof -
  note upd = length_filter_update [OF assms(2), of sent_conn]
  show "counted n (p\<lparr>rt_chans := (rt_chans p)[i := ch]\<rparr>)" if "\<not> sent_conn ch"
    using assms upd [of ch] that set_update_subset_insert [of "rt_chans p" i ch] by (fastforce simp: counted_def)
  show "counted m (p\<lparr>rt_chans := (rt_chans p)[i := ChSent (Inr c)]\<rparr>)" if "whole c" "n = Suc m"
    using assms upd [of "ChSent (Inr c)"] that set_update_subset_insert [of "rt_chans p" i "ChSent (Inr c)"]
    by (fastforce simp: counted_def)
qed

lemma cleanup_fields [simp]:
  "po_cfg (waiters_cleanup p) = po_cfg p" "po_acquired (waiters_cleanup p) = po_acquired p"
  "rt_held (waiters_cleanup p) = rt_held p" "rt_chans (waiters_cleanup p) = rt_chans p"
  "po_connecting (waiters_cleanup p) = po_connecting p" "rt_opening (waiters_cleanup p) = rt_opening p"
  "po_available (waiters_cleanup p) = po_available p" "po_stopped (waiters_cleanup p) = po_stopped p"
  "rt_task (waiters_cleanup p) = rt_task p" "po_waker (waiters_cleanup p) = po_waker p"
  by (simp_all add: waiters_cleanup_def)

lemma check_fields [simp]:
  "po_cfg (check_availibility p) = po_cfg p" "po_acquired (check_availibility p) = po_acquired p"
  "rt_held (check_availibility p) = rt_held p" "rt_chans (check_availibility p) = rt_chans p"
  "po_connecting (check_availibility p) = po_connecting p" "rt_opening (check_availibility p) = rt_opening p"
  "po_available (check_availibility p) = po_available p" "po_stopped (check_availibility p) = po_stopped p"
  "rt_task (check_availibility p) = rt_task p" "po_waiters (check_availibility p) = po_waiters (waiters_cleanup p)"
  by (simp_all add: check_availibility_def Let_def)

lemma counted_check [intro]: "counted n p \<Longrightarrow> counted n (check_availibility p)"
  by (erule counted_same) simp_all

lemma counted_cleanup [intro]: "counted n p \<Longrightarrow> counted n (waiters_cleanup p)"
  by (erule counted_same) simp_all

lemma counted_acquire: "acquire k p = (r, p') \<Longrightarrow> counted n p \<Longrightarrow> counted n p'"
  by (drule acquire_frame) (auto simp: only_idle_def intro: counted_same)

lemma counted_new: "acquired_new k p = (g, p') \<Longrightarrow> counted n p \<Longrightarrow> counted (Suc n) p' \<and> g = k"
  by (auto simp: acquired_new_def counted_def)

lemma counted_send:
  assumes "chan_send tx (Inr c) p = (taken, p')" "counted (Suc n) p" "whole c"
  shows "if taken then counted n p' else p' = p"
  using assms counted_chan(2) [OF assms(2), of tx c n] by (auto simp: chan_send_def split: if_splits)

lemma counted_send_err: "chan_send tx (Inl e) p = (taken, p') \<Longrightarrow> counted n p \<Longrightarrow> counted n p'"
  using counted_chan(1) [of n p tx "ChSent (Inl e)"] by (auto simp: chan_send_def split: if_splits)

lemma counted_close: "counted n p \<Longrightarrow> counted n (chan_close tx p)"
  using counted_chan(1) [of n p tx ChClosed] by (auto simp: chan_close_def split: if_splits)

lemma counted_open: "counted n p \<Longrightarrow> counted n (open_connection req k tx p)"
  by (auto simp: open_connection_def open_guard_new_def intro: counted_same)

lemma dec_counted:
  assumes "counted (Suc n) p"
  obtains p' where "dec_acquired p = Some p'" "counted n p'" "p' = p\<lparr>po_acquired := po_acquired p - 1\<rparr>"
  using assms by (auto simp: dec_acquired_def counted_def)

lemma release_counted:
  assumes "counted (Suc n) p" "whole c"
  shows "\<exists>p'. connection_release c close p = Some p' \<and> counted n p'"
    and "\<exists>p'. connection_drop c p = Some p' \<and> counted n p'"
proof -
  obtain q where q: "dec_acquired p = Some q" "counted n q" using dec_counted [OF assms(1)] by blast
  obtain io k where c: "cx_io c = Some (H1 io)" "cx_pool c = Some k"
    using assms(2) by (auto simp: whole_def) (metis client_conn_type.exhaust)
  show "\<exists>p'. connection_release c close p = Some p' \<and> counted n p'"
    using q c counted_check [OF counted_same [OF q(2)]]
    by (auto simp: connection_release_def acquired_release_def Let_def)
  show "\<exists>p'. connection_drop c p = Some p' \<and> counted n p'"
    using q c counted_check by (auto simp: connection_drop_def acquired_drop_def)
qed

lemma new_whole [simp]: "whole (connection_new io created (Some k))"
  by (simp add: whole_def connection_new_def)

lemma opened_counted:
  assumes "counted 0 p"
  shows "\<exists>p'. opened k tx res p = Some p' \<and> counted 0 p'"
proof (cases res)
  case (Inl e)
  then show ?thesis
    using counted_send_err [of tx e p _ _ 0] assms
    by (fastforce simp: opened_def open_guard_drop_def intro!: counted_check intro: counted_same split: prod.split)
next
  case (Inr io)
  show ?thesis
  proof (cases "po_stopped p")
    case True
    with Inr assms show ?thesis
      by (auto simp: opened_def open_guard_drop_def intro!: counted_close counted_check elim!: counted_same)
  next
    case False
    define c where "c = connection_new (H1 io) (rt_now p) (Some k)"
    obtain q where q: "open_guard_consume k p = (k, q)" "counted (Suc 0) q" "rt_now q = rt_now p"
      using assms by (auto simp: open_guard_consume_def acquired_new_def counted_def)
    obtain taken q' where snd: "chan_send tx (Inr c) q = (taken, q')" by fastforce
    have "\<exists>p'. (if taken then Some q' else connection_release c False q') = Some p' \<and> counted 0 p'"
      using counted_send [OF snd q(2)] release_counted(1) [OF q(2), of c False] by (auto simp: c_def split: if_splits)
    with Inr False q snd show ?thesis by (auto simp: opened_def c_def Let_def)
  qed
qed

lemma pool_call_counted:
  assumes "counted 0 p" "pool_call uo req p = (r, p')"
  shows "counted 0 (hold r p')"
proof (cases "uo_authority uo (cn_uri req)")
  case None
  with assms show ?thesis by (auto simp: pool_call_def)
next
  case (Some auth)
  obtain res q where a: "acquire (key_from auth) p = (res, q)" by fastforce
  note q = counted_acquire [OF a assms(1)]
  then have "counted 0 (q\<lparr>rt_chans := rt_chans q @ [ChWaiting]\<rparr>)" by (simp add: counted_def)
  then have new: "counted 0 (snd (chan_new q))" by (simp add: chan_new_def)
  show ?thesis
  proof (cases res)
    case (Acquired io created)
    with assms Some a q show ?thesis
      by (auto simp: pool_call_def acquired_new_def counted_def)
  next
    case Available
    with assms Some a counted_open [OF new] show ?thesis by (auto simp: pool_call_def split: prod.splits)
  next
    case NotAvailable
    with assms Some a counted_same [OF new] show ?thesis
      by (auto simp: pool_call_def wait_for_def Let_def split: prod.splits)
  qed
qed

lemma resume_counted:
  assumes "counted 0 p" "call_resume rx p = Some (r, p')"
  shows "counted 0 (hold_result r p')"
proof (cases "\<exists>c. rt_chans p ! rx = ChSent (Inr c)")
  case True
  with assms length_filter_update [of rx "rt_chans p" sent_conn ChClosed] set_update_subset_insert [of "rt_chans p" rx ChClosed]
  show ?thesis by (fastforce simp: call_resume_def counted_def split: if_splits dest: nth_mem [of rx "rt_chans p"])
next
  case False
  then have "\<not> sent_conn (rt_chans p ! rx)" by (cases "rt_chans p ! rx" rule: sent_conn.cases) auto
  with assms counted_chan(1) [OF assms(1), of rx ChClosed] False show ?thesis
    by (auto simp: call_resume_def split: if_splits waiter_chan.splits sum.splits) (metis hold_result.elims)+
qed

lemma cancel_counted:
  assumes "counted 0 p"
  shows "\<exists>p'. call_cancel rx p = Some p' \<and> counted 0 p'"
proof (cases "rx < length (rt_chans p) \<and> (\<exists>c. rt_chans p ! rx = ChSent (Inr c))")
  case True
  then obtain c where c: "rx < length (rt_chans p)" "rt_chans p ! rx = ChSent (Inr c)" by blast
  with assms length_filter_update [of rx "rt_chans p" sent_conn ChCanceled] set_update_subset_insert [of "rt_chans p" rx ChCanceled]
  have "counted (Suc 0) (p\<lparr>rt_chans := (rt_chans p)[rx := ChCanceled]\<rparr>)" "whole c"
    by (fastforce simp: counted_def dest: nth_mem [of rx "rt_chans p"])+
  from release_counted(2) [OF this] c show ?thesis by (simp add: call_cancel_def Let_def)
next
  case False
  then have "rx < length (rt_chans p) \<Longrightarrow> \<not> sent_conn (rt_chans p ! rx)"
    by (cases "rt_chans p ! rx" rule: sent_conn.cases) auto
  with False assms counted_chan(1) [OF assms, of rx ChCanceled] show ?thesis
    by (auto simp: call_cancel_def Let_def split: waiter_chan.splits sum.splits)
qed

lemma serve_queue_counted:
  "serve_queue k queue cl p = Some (q', cl', p') \<Longrightarrow> counted 0 p \<Longrightarrow> counted 0 p'"
proof (induction k queue cl p arbitrary: q' cl' p' rule: serve_queue.induct)
  case (2 key req tx queue cleanup p)
  obtain r q where a: "acquire key p = (r, q)" by fastforce
  note q = counted_acquire [OF a \<open>counted 0 p\<close>]
  show ?case
  proof (cases "is_canceled p tx \<or> r = NotAvailable \<or> r = Available")
    case True
    with 2 a q counted_open [OF q] show ?thesis by (auto split: if_splits)
  next
    case False
    then obtain io created where r: "r = Acquired io created" by (cases r) auto
    obtain q1 where n: "acquired_new key q = (key, q1)" "counted (Suc 0) q1"
      using counted_new q by (auto simp: acquired_new_def)
    obtain taken q2 where "chan_send tx (Inr (connection_new io created (Some key))) q1 = (taken, q2)" by fastforce
    with counted_send [OF this n(2)] 2 a n False r show ?thesis by (auto split: if_splits)
  qed
qed simp

lemma serve_waiters_counted:
  "serve_waiters ws cl p = Some (ws', cl', p') \<Longrightarrow> counted 0 p \<Longrightarrow> counted 0 p'"
proof (induction ws cl p arbitrary: ws' cl' p' rule: serve_waiters.induct)
  case (2 key queue ws cleanup p)
  then show ?case by (fastforce simp: bind_eq_Some_conv dest: serve_queue_counted)
qed simp

end
