(* ===== verification/Pool_Runs.thy ===== *)
theory Pool_Runs
  imports Client_Pool
begin

text \<open>
  The runs of a connection pool: every waiting call is known to the pool, a host is connected to by one
  attempt at a time, the number of acquired connections is that of the guards, and the support task is
  signalled whenever a waiter could be served.
\<close>

section \<open>One attempt for each host\<close>

definition attempts :: "conn_pool \<Rightarrow> bool" where
  "attempts p \<longleftrightarrow> distinct (map fst (rt_opening p)) \<and> set (po_connecting p) = fst ` set (rt_opening p)"

lemma attempts_open: "attempts p \<Longrightarrow> k \<notin> set (po_connecting p) \<Longrightarrow> attempts (open_connection req k tx p)"
  by (auto simp: attempts_def open_connection_def open_guard_new_def)

lemma attempts_end:
  assumes "attempts p" "(k, req, tx) \<in> set (rt_opening p)"
  shows "distinct (map fst (remove1 (k, req, tx) (rt_opening p)))"
    and "set (removeAll k (po_connecting p)) = fst ` set (remove1 (k, req, tx) (rt_opening p))"
proof -
  have d: "distinct (map fst (rt_opening p))" using assms(1) by (simp add: attempts_def)
  show "distinct (map fst (remove1 (k, req, tx) (rt_opening p)))"
    using d by (meson distinct_map distinct_remove1 inj_on_subset set_remove1_subset)
  have "set (remove1 (k, req, tx) (rt_opening p)) = set (rt_opening p) - {(k, req, tx)}"
    using d by (simp add: distinct_map set_remove1_eq)
  moreover have "fst x \<noteq> k" if "x \<in> set (rt_opening p)" "x \<noteq> (k, req, tx)" for x
    using d assms(2) that by (auto simp: distinct_map inj_on_def)
  ultimately show "set (removeAll k (po_connecting p)) = fst ` set (remove1 (k, req, tx) (rt_opening p))"
    using assms by (force simp: attempts_def)
qed

section \<open>Every waiting call is known\<close>

definition queue_txs :: "(pool_key \<times> (connect \<times> waiter) list) list \<Rightarrow> waiter multiset" where
  "queue_txs ws = mset (map snd (concat (map snd ws)))"

definition open_txs :: "conn_pool \<Rightarrow> waiter multiset" where
  "open_txs p = mset (map (snd \<circ> snd) (rt_opening p))"

text \<open>
  The channels \<open>M\<close> have a sender: each is of one sender, nothing has been sent on it, and a call only waits
  on one of these.
\<close>

definition tickets :: "waiter multiset \<Rightarrow> conn_pool \<Rightarrow> bool" where
  "tickets M p \<longleftrightarrow>
     (\<forall>t. count M t \<le> 1) \<and>
     (\<forall>t\<in>#M. t < length (rt_chans p) \<and> (rt_chans p ! t = ChWaiting \<or> rt_chans p ! t = ChCanceled)) \<and>
     (\<forall>t<length (rt_chans p). rt_chans p ! t = ChWaiting \<longrightarrow> t \<in># M)"

lemma tickets_same: "tickets M p \<Longrightarrow> rt_chans p' = rt_chans p \<Longrightarrow> tickets M p'"
  by (simp add: tickets_def)

lemma ticket_alone: "tickets (add_mset t M) p \<Longrightarrow> t \<notin># M"
  by (auto simp: tickets_def dest!: spec [of _ t] simp: not_in_iff)

lemma tickets_smaller: "tickets (add_mset t M) p \<Longrightarrow> \<forall>t. count M t \<le> 1"
proof
  fix s
  assume "tickets (add_mset t M) p"
  then have "count (add_mset t M) s \<le> 1" by (simp only: tickets_def)
  then show "count M s \<le> 1" by (simp split: if_splits)
qed

lemma tickets_send:
  assumes "tickets (add_mset t M) p" "chan_send t v p = (taken, p')"
  shows "tickets M p' \<and> taken = (rt_chans p ! t = ChWaiting)"
  using assms ticket_alone [OF assms(1)] tickets_smaller [OF assms(1)]
  by (auto simp: tickets_def chan_send_def nth_list_update split: if_splits)

lemma tickets_settle:
  assumes "tickets (add_mset t M) p" "ch \<noteq> ChWaiting"
  shows "tickets M (p\<lparr>rt_chans := (if t < length (rt_chans p) \<and> rt_chans p ! t = ChWaiting then (rt_chans p)[t := ch] else rt_chans p)\<rparr>)"
  using assms ticket_alone [OF assms(1)] tickets_smaller [OF assms(1)]
  by (auto simp: tickets_def nth_list_update)

lemma tickets_close: "tickets (add_mset t M) p \<Longrightarrow> tickets M (chan_close t p)"
  using ticket_alone [of t M p] tickets_smaller [of t M p]
  by (auto simp: tickets_def chan_close_def nth_list_update split: if_splits)

lemma tickets_canceled: "tickets (add_mset t M) p \<Longrightarrow> is_canceled p t \<Longrightarrow> tickets M p"
  using tickets_smaller [of t M p] by (auto simp: tickets_def is_canceled_def)

lemma tickets_new: "tickets M p \<Longrightarrow> tickets (add_mset (length (rt_chans p)) M) (p\<lparr>rt_chans := rt_chans p @ [ChWaiting]\<rparr>)"
  by (fastforce simp: tickets_def nth_append less_Suc_eq not_in_iff)

lemma tickets_spent:
  "tickets M p \<Longrightarrow> i < length (rt_chans p) \<Longrightarrow> rt_chans p ! i = ChSent v \<Longrightarrow> ch \<noteq> ChWaiting \<Longrightarrow>
   tickets M (p\<lparr>rt_chans := (rt_chans p)[i := ch]\<rparr>)"
  by (fastforce simp: tickets_def nth_list_update)

lemma tickets_cancel: "tickets M p \<Longrightarrow> tickets M (p\<lparr>rt_chans := (rt_chans p)[i := ChCanceled]\<rparr>)"
  by (cases "i < length (rt_chans p)") (fastforce simp: tickets_def nth_list_update)+

lemma queue_txs_simps [simp]:
  "queue_txs [] = {#}" "queue_txs ((k, q) # ws) = mset (map snd q) + queue_txs ws"
  by (simp_all add: queue_txs_def)

lemma queue_txs_wait:
  "queue_txs (AList.update k ((case map_of ws k of Some q \<Rightarrow> q | None \<Rightarrow> []) @ [(req, t)]) ws) = add_mset t (queue_txs ws)"
  by (induction ws) auto

lemma tickets_drop:
  "tickets (mset (map snd q) + M) p \<Longrightarrow> tickets (mset (map snd (dropWhile (\<lambda>(_, t). is_canceled p t) q)) + M) p"
  by (induction q) (auto dest: tickets_canceled)

lemma tickets_clean:
  "tickets (queue_txs ws + M) p \<Longrightarrow>
   tickets (queue_txs (filter (\<lambda>(_, q). q \<noteq> []) (map (\<lambda>(k, q). (k, dropWhile (\<lambda>(_, t). is_canceled p t) q)) ws)) + M) p"
proof (induction ws arbitrary: M)
  case (Cons w ws)
  obtain k q where [simp]: "w = (k, q)" by fastforce
  let ?q = "dropWhile (\<lambda>(_, t). is_canceled p t) q"
  from Cons.prems have "tickets (queue_txs ws + (mset (map snd ?q) + M)) p"
    using tickets_drop [of q "queue_txs ws + M" p] by (simp add: ac_simps)
  from Cons.IH [OF this] show ?case by (cases "?q = []") (simp_all add: ac_simps del: dropWhile_eq_Nil_conv)
qed simp

lemma tickets_cleanup:
  "tickets (queue_txs (po_waiters p) + M) p \<Longrightarrow> tickets (queue_txs (po_waiters (waiters_cleanup p)) + M) (waiters_cleanup p)"
  using tickets_clean [of "po_waiters p" M p] by (auto simp: waiters_cleanup_def Let_def intro: tickets_same)

lemma mset_map_remove1: "x \<in> set xs \<Longrightarrow> mset (map f xs) = add_mset (f x) (mset (map f (remove1 x xs)))"
  by (induction xs) auto

section \<open>Blocked hosts\<close>

text \<open>
  A waiter of a host is blocked while the limit is reached, or while an attempt for the host is under way
  and no connection to it is idle.
\<close>

definition blocked :: "conn_pool \<Rightarrow> pool_key \<Rightarrow> bool" where
  "blocked p k \<longleftrightarrow> cc_limit (po_cfg p) \<le> po_acquired p \<or> (k \<in> set (po_connecting p) \<and> idle p k = [])"

definition all_blocked :: "(pool_key \<times> (connect \<times> waiter) list) list \<Rightarrow> conn_pool \<Rightarrow> bool" where
  "all_blocked ws p \<longleftrightarrow> (\<forall>(k, q)\<in>set ws. q \<noteq> [] \<longrightarrow> blocked p k)"

definition tighter :: "conn_pool \<Rightarrow> conn_pool \<Rightarrow> bool" where
  "tighter p p' \<longleftrightarrow>
     po_cfg p' = po_cfg p \<and> po_stopped p' = po_stopped p \<and> rt_task p' = rt_task p \<and> po_waker p' = po_waker p \<and>
     po_waiters p' = po_waiters p \<and> po_acquired p \<le> po_acquired p' \<and> set (po_connecting p) \<subseteq> set (po_connecting p') \<and>
     (\<forall>k. idle p k = [] \<longrightarrow> idle p' k = [])"

lemma tighter_refl [simp]: "tighter p p"
  by (simp add: tighter_def)

lemma tighter_trans: "tighter p q \<Longrightarrow> tighter q r \<Longrightarrow> tighter p r"
  by (auto simp: tighter_def)

lemma tighter_blocked: "tighter p p' \<Longrightarrow> blocked p k \<Longrightarrow> blocked p' k"
  by (auto simp: tighter_def blocked_def)

lemma tighter_all_blocked: "tighter p p' \<Longrightarrow> all_blocked ws p \<Longrightarrow> all_blocked ws p'"
  by (auto simp: all_blocked_def dest: tighter_blocked)

lemma acquire_tighter: "acquire k p = (r, p') \<Longrightarrow> tighter p p'"
  using acquire_frame [of k p r p'] acquire_idle(1) [of k p r p'] by (simp add: only_idle_def tighter_def)

lemma acquire_distinct: "acquire k p = (r, p') \<Longrightarrow> distinct (map fst (po_available p)) \<Longrightarrow> distinct (map fst (po_available p'))"
  by (auto simp: acquire_def Let_def distinct_update split: if_splits option.splits prod.splits dest!: reuse_frame)

lemma acquire_blocked:
  assumes "acquire k p = (NotAvailable, p')" "0 < cc_limit (po_cfg p)"
  shows "blocked p' k"
  using acquire_frame [OF assms(1)] acquire_idle(2) [OF assms(1)] acquire_answer(2) [OF assms(1)] assms(2)
  by (auto simp: blocked_def only_idle_def)

lemma open_fields [simp]:
  "rt_chans (open_connection req k tx p) = rt_chans p" "po_available (open_connection req k tx p) = po_available p"
  "po_cfg (open_connection req k tx p) = po_cfg p"
  by (simp_all add: open_connection_def open_guard_new_def)

lemma open_tighter: "tighter p (open_connection req k tx p)"
  by (auto simp: tighter_def open_connection_def open_guard_new_def idle_def)

lemma open_txs_open: "open_txs (open_connection req k tx p) = add_mset tx (open_txs p)"
  by (simp add: open_txs_def open_connection_def open_guard_new_def)

lemma handed_over:
  assumes "chan_send tx v (snd (acquired_new k p)) = (taken, p')"
  shows "tighter p p'" "po_connecting p' = po_connecting p" "rt_opening p' = rt_opening p" "po_available p' = po_available p"
  using assms by (auto simp: chan_send_def acquired_new_def tighter_def idle_def split: if_splits)

section \<open>The pass over the waiters\<close>

text \<open>What holds between two turns of the pass: \<open>M\<close> are the tickets of the other queues.\<close>

definition pass_inv :: "waiter multiset \<Rightarrow> conn_pool \<Rightarrow> bool" where
  "pass_inv M p \<longleftrightarrow> attempts p \<and> tickets (open_txs p + M) p \<and> distinct (map fst (po_available p))"

lemma pass_acquire:
  assumes "acquire k p = (r, p')" "pass_inv M p"
  shows "pass_inv M p'"
  using assms acquire_frame [OF assms(1)] acquire_distinct [OF assms(1)]
  by (auto simp: pass_inv_def only_idle_def attempts_def open_txs_def tickets_def)

lemma pass_open:
  assumes "pass_inv (add_mset tx M) p" "k \<notin> set (po_connecting p)"
  shows "pass_inv M (open_connection req k tx p)"
  using assms attempts_open [of p k req tx] tickets_same [of _ p "open_connection req k tx p"]
  by (simp add: pass_inv_def open_txs_open)

lemma pass_send:
  assumes "pass_inv (add_mset tx M) p" "\<not> is_canceled p tx" "chan_send tx v (snd (acquired_new k p)) = (taken, p')"
  shows "taken \<and> pass_inv M p'"
proof -
  have "tickets (add_mset tx (open_txs p + M)) (snd (acquired_new k p))"
    using assms(1) by (simp add: pass_inv_def acquired_new_def tickets_def)
  from tickets_send [OF this assms(3)] this assms(2) handed_over [OF assms(3)] assms(1) show ?thesis
    by (auto simp: pass_inv_def is_canceled_def acquired_new_def tickets_def attempts_def open_txs_def)
qed

lemma pass_canceled:
  "pass_inv (add_mset tx M) p \<Longrightarrow> is_canceled p tx \<Longrightarrow> pass_inv M p"
  by (auto simp: pass_inv_def dest: tickets_canceled)

lemma serve_queue_pass:
  assumes "pass_inv (mset (map snd queue) + M) p"
  shows "\<exists>q cl' p'. serve_queue k queue cl p = Some (q, cl', p') \<and> pass_inv (mset (map snd q) + M) p' \<and> tighter p p' \<and>
    (q \<noteq> [] \<longrightarrow> 0 < cc_limit (po_cfg p) \<longrightarrow> blocked p' k)"
  using assms
proof (induction queue arbitrary: cl p)
  case (Cons w queue)
  obtain req tx where [simp]: "w = (req, tx)" by fastforce
  obtain r p1 where a: "acquire k p = (r, p1)" by fastforce
  note p1 = pass_acquire [OF a Cons.prems] and t1 = acquire_tighter [OF a]
  have goon: ?case if "pass_inv (mset (map snd queue) + M) p2" "tighter p p2" "serve_queue k (w # queue) cl p = serve_queue k queue True p2" for p2
    using Cons.IH [OF that(1), of True] that(2,3) tighter_trans [OF that(2)] by (auto simp: tighter_def)
  show ?case
  proof (cases "is_canceled p tx")
    case True
    with Cons.prems show ?thesis by (intro goon [of p]) (auto dest: pass_canceled)
  next
    case False
    show ?thesis
    proof (cases r)
      case NotAvailable
      with False a p1 t1 acquire_blocked show ?thesis by auto
    next
      case Available
      have "pass_inv (mset (map snd queue) + M) (open_connection req k tx p1)"
        using pass_open [of tx _ p1 k] p1 acquire_answer(1) [OF a Available] acquire_frame [OF a] by (simp add: only_idle_def)
      then show ?thesis using False a Available by (intro goon [of "open_connection req k tx p1"] tighter_trans [OF t1 open_tighter]) auto
    next
      case (Acquired io created)
      obtain taken p2 where c: "chan_send tx (Inr (connection_new io created (Some k))) (snd (acquired_new k p1)) = (taken, p2)"
        by fastforce
      have "\<not> is_canceled p1 tx" using False acquire_frame [OF a] by (simp add: is_canceled_def only_idle_def)
      with pass_send [OF _ this c] p1 have p2: "taken" "pass_inv (mset (map snd queue) + M) p2" by auto
      from False a Acquired c p2(1) have "serve_queue k (w # queue) cl p = serve_queue k queue True p2"
        by (simp add: acquired_new_def)
      with p2(2) show ?thesis by (intro goon [of p2] tighter_trans [OF t1 handed_over(1) [OF c]])
    qed
  qed
qed simp

lemma serve_waiters_pass:
  assumes "pass_inv (queue_txs ws + M) p"
  shows "\<exists>ws' cl' p'. serve_waiters ws cl p = Some (ws', cl', p') \<and> pass_inv (queue_txs ws' + M) p' \<and> tighter p p' \<and>
    (0 < cc_limit (po_cfg p) \<longrightarrow> all_blocked ws' p')"
  using assms
proof (induction ws arbitrary: M cl p)
  case (Cons w ws)
  obtain k queue where [simp]: "w = (k, queue)" by fastforce
  have "pass_inv (mset (map snd queue) + (queue_txs ws + M)) p" using Cons.prems by (simp add: ac_simps)
  from serve_queue_pass [OF this, of k cl] obtain q cl1 p1 where
    s: "serve_queue k queue cl p = Some (q, cl1, p1)" and p1: "pass_inv (mset (map snd q) + (queue_txs ws + M)) p1"
    and t: "tighter p p1" and b: "q \<noteq> [] \<longrightarrow> 0 < cc_limit (po_cfg p) \<longrightarrow> blocked p1 k" by (elim exE conjE) (rule that)
  have "pass_inv (queue_txs ws + (mset (map snd q) + M)) p1" using p1 by (simp add: ac_simps)
  from Cons.IH [OF this, of cl1] obtain ws2 cl2 p2 where
    r: "serve_waiters ws cl1 p1 = Some (ws2, cl2, p2)" and p2: "pass_inv (queue_txs ws2 + (mset (map snd q) + M)) p2"
    and t2: "tighter p1 p2" and b2: "0 < cc_limit (po_cfg p1) \<longrightarrow> all_blocked ws2 p2" by (elim exE conjE) (rule that)
  have "po_cfg p1 = po_cfg p" using t by (simp add: tighter_def)
  with b b2 tighter_blocked [OF t2, of k] have "0 < cc_limit (po_cfg p) \<longrightarrow> all_blocked ((k, q) # ws2) p2"
    by (simp add: all_blocked_def)
  moreover have "pass_inv (queue_txs ((k, q) # ws2) + M) p2" using p2 by (simp add: ac_simps)
  moreover have "serve_waiters (w # ws) cl p = Some ((k, q) # ws2, cl2, p2)" using s r by simp
  ultimately show ?case using tighter_trans [OF t t2] by (intro exI conjI)
qed (simp add: all_blocked_def)

section \<open>The invariant of a pool\<close>

definition awake :: "conn_pool \<Rightarrow> bool" where
  "awake p \<longleftrightarrow> (0 < cc_limit (po_cfg p) \<and> \<not> po_waker p \<and> \<not> po_stopped p \<longrightarrow> all_blocked (po_waiters p) p)"

definition pool_inv :: "conn_pool \<Rightarrow> bool" where
  "pool_inv p \<longleftrightarrow>
     counted 0 p \<and> pass_inv (queue_txs (po_waiters p)) p \<and> (\<not> po_stopped p \<longrightarrow> rt_task p) \<and> awake p"

lemma tighter_awake: "tighter p p' \<Longrightarrow> awake p \<Longrightarrow> awake p'"
  using tighter_all_blocked [of p p' "po_waiters p"] by (simp add: awake_def tighter_def)

text \<open>The parts of the invariant that hold before an operation checks for waiters that can be served.\<close>

definition pool_pre :: "nat \<Rightarrow> waiter multiset \<Rightarrow> conn_pool \<Rightarrow> bool" where
  "pool_pre n M p \<longleftrightarrow> counted n p \<and> pass_inv (queue_txs (po_waiters p) + M) p \<and> (\<not> po_stopped p \<longrightarrow> rt_task p)"

lemma pool_inv_pre: "pool_inv p \<Longrightarrow> pool_pre 0 {#} p"
  by (simp add: pool_inv_def pool_pre_def)

lemma pool_inv_new: "pool_inv (pool_new cfg now)"
  by (simp add: pool_inv_def awake_def pool_new_def counted_def pass_inv_def attempts_def tickets_def open_txs_def all_blocked_def)

lemma cleaned_blocked: "all_blocked (po_waiters p) p \<Longrightarrow> all_blocked (po_waiters (waiters_cleanup p)) p"
  by (fastforce simp: all_blocked_def waiters_cleanup_def Let_def)

lemma pass_cleanup: "pass_inv (queue_txs (po_waiters p) + M) p \<Longrightarrow> pass_inv (queue_txs (po_waiters (waiters_cleanup p)) + M) (waiters_cleanup p)"
  using tickets_cleanup [of p "open_txs p + M"] by (simp add: pass_inv_def attempts_def open_txs_def ac_simps)

lemma pass_same:
  "pass_inv M p \<Longrightarrow> rt_opening p' = rt_opening p \<Longrightarrow> po_connecting p' = po_connecting p \<Longrightarrow> rt_chans p' = rt_chans p \<Longrightarrow>
   distinct (map fst (po_available p')) \<Longrightarrow> pass_inv M p'"
  by (simp add: pass_inv_def attempts_def open_txs_def tickets_def)

lemma pass_fields [simp]:
  "pass_inv M (p\<lparr>po_waker := w\<rparr>) = pass_inv M p" "pass_inv M (p\<lparr>po_waiters := ws\<rparr>) = pass_inv M p"
  "pass_inv M (p\<lparr>po_stopped := b\<rparr>) = pass_inv M p" "pass_inv M (p\<lparr>rt_task := b\<rparr>) = pass_inv M p"
  "pass_inv M (p\<lparr>po_acquired := n\<rparr>) = pass_inv M p" "pass_inv M (p\<lparr>rt_held := h\<rparr>) = pass_inv M p"
  by (simp_all add: pass_inv_def attempts_def open_txs_def tickets_def)

lemma counted_fields [simp]:
  "counted n (p\<lparr>po_waker := w\<rparr>) = counted n p" "counted n (p\<lparr>po_waiters := ws\<rparr>) = counted n p"
  "counted n (p\<lparr>po_stopped := b\<rparr>) = counted n p" "counted n (p\<lparr>rt_task := b\<rparr>) = counted n p"
  "counted n (p\<lparr>rt_opening := l\<rparr>) = counted n p" "counted n (p\<lparr>po_connecting := c\<rparr>) = counted n p"
  by (simp_all add: counted_def)

lemma check_awake: "awake (check_availibility p)"
  by (auto simp: awake_def check_availibility_def all_blocked_def blocked_def Let_def split: if_splits)

lemma check_pre:
  assumes "pool_pre n M p"
  shows "pool_pre n M (check_availibility p)"
proof -
  have "pass_inv (queue_txs (po_waiters p) + M) p" using assms by (simp add: pool_pre_def)
  note clean = pass_cleanup [OF this]
  then have "distinct (map fst (po_available p))" by (simp add: pass_inv_def)
  with clean have "pass_inv (queue_txs (po_waiters (check_availibility p)) + M) (check_availibility p)"
    by (simp add: pass_same [of _ "waiters_cleanup p" "check_availibility p"])
  with assms counted_check [of n p] show ?thesis by (simp add: pool_pre_def)
qed

lemma pre_inv: "pool_pre 0 {#} p \<Longrightarrow> awake p \<Longrightarrow> pool_inv p"
  by (simp add: pool_pre_def pool_inv_def)

lemma check_inv: "pool_pre 0 {#} p \<Longrightarrow> pool_inv (check_availibility p)"
  by (intro pre_inv check_pre check_awake)

lemma release_form:
  assumes "pool_pre (Suc 0) {#} p" "whole c"
  shows "connection_release c close p = Some p' \<Longrightarrow> pool_inv p'" and "connection_drop c p = Some p' \<Longrightarrow> pool_inv p'"
proof -
  have cnt: "counted (Suc 0) p" using assms(1) by (simp add: pool_pre_def)
  obtain q where q: "dec_acquired p = Some q" "counted 0 q" "q = p\<lparr>po_acquired := po_acquired p - 1\<rparr>"
    using dec_counted [OF cnt] by blast
  obtain io k where c: "cx_io c = Some (H1 io)" "cx_pool c = Some k"
    using assms(2) by (auto simp: whole_def) (metis client_conn_type.exhaust)
  have pre: "pool_pre 0 {#} q'" if "po_acquired q' = po_acquired q" "rt_held q' = rt_held p" "rt_chans q' = rt_chans p"
    "rt_opening q' = rt_opening p" "po_connecting q' = po_connecting p" "po_waiters q' = po_waiters p"
    "po_stopped q' = po_stopped p" "rt_task q' = rt_task p" "distinct (map fst (po_available q'))" for q'
    using assms(1) that counted_same [OF q(2), of q'] pass_same [of _ p q'] q(3) by (auto simp: pool_pre_def)
  have d: "distinct (map fst (po_available p))" using assms(1) by (simp add: pool_pre_def pass_inv_def)
  show "pool_inv p'" if "connection_release c close p = Some p'"
    using that q(1) c check_inv [OF pre] d q(3)
    by (auto simp: connection_release_def acquired_release_def Let_def distinct_update split: if_splits)
  show "pool_inv p'" if "connection_drop c p = Some p'"
    using that q(1) c check_inv [OF pre] d q(3) by (auto simp: connection_drop_def acquired_drop_def)
qed

section \<open>Every step keeps the invariant\<close>

lemma wait_for_blocked:
  assumes "all_blocked ws p" "blocked p k"
  shows "all_blocked (AList.update k q ws) p"
proof -
  have "set (AList.update k q ws) \<subseteq> insert (k, q) (set ws)" by (induction ws) auto
  with assms show ?thesis by (fastforce simp: all_blocked_def)
qed

lemma pool_call_inv:
  assumes "pool_inv p" "pool_call uo req p = (r, p')"
  shows "pool_inv (hold r p')"
proof (cases "uo_authority uo (cn_uri req)")
  case None
  with assms show ?thesis by (auto simp: pool_call_def)
next
  case (Some auth)
  let ?k = "key_from auth"
  obtain res q where a: "acquire ?k p = (res, q)" by fastforce
  have inv: "counted 0 p" "pass_inv (queue_txs (po_waiters p)) p" "\<not> po_stopped p \<longrightarrow> rt_task p" "awake p"
    using assms(1) by (simp_all add: pool_inv_def)
  note q = pass_acquire [OF a inv(2)] and t = acquire_tighter [OF a]
  have w: "po_waiters q = po_waiters p" "po_cfg q = po_cfg p" "po_waker q = po_waker p" "po_stopped q = po_stopped p"
    and run: "\<not> po_stopped q \<longrightarrow> rt_task q" and aw: "awake q"
    using t inv(3) tighter_awake [OF t inv(4)] by (simp_all add: tighter_def)
  let ?tx = "length (rt_chans q)"
  let ?n = "q\<lparr>rt_chans := rt_chans q @ [ChWaiting]\<rparr>"
  have n: "pass_inv (add_mset ?tx (queue_txs (po_waiters q))) ?n"
    using q tickets_new [of _ q] w by (simp add: pass_inv_def attempts_def open_txs_def)
  have cnt: "counted 0 (hold r p')" by (rule pool_call_counted [OF inv(1) assms(2)])
  show ?thesis
  proof (cases res)
    case (Acquired io created)
    with assms(2) Some a have "r = CallDone (connection_new io created (Some ?k))" "p' = q\<lparr>po_acquired := po_acquired q + 1\<rparr>"
      by (auto simp: pool_call_def acquired_new_def)
    moreover from this have "tighter q (hold r p')" by (auto simp: tighter_def idle_def)
    ultimately show ?thesis using cnt q w run tighter_awake [OF _ aw] pass_same [OF q, of "hold r p'"]
      by (simp add: pool_inv_def pass_inv_def)
  next
    case Available
    with assms(2) Some a have p': "p' = open_connection req ?k ?tx ?n" "hold r p' = p'"
      by (auto simp: pool_call_def chan_new_def)
    have "?k \<notin> set (po_connecting ?n)" using acquire_answer(1) [OF a Available] acquire_frame [OF a] by (simp add: only_idle_def)
    from pass_open [OF n this, of req] p' have "pass_inv (queue_txs (po_waiters q)) p'" by simp
    moreover have "tighter q p'" unfolding p'(1) by (rule tighter_trans [OF _ open_tighter]) (simp add: tighter_def idle_def)
    ultimately show ?thesis using cnt p'(2) run tighter_awake [OF _ aw, of p'] by (simp add: pool_inv_def tighter_def)
  next
    case NotAvailable
    with assms(2) Some a obtain v where p': "hold r p' = ?n\<lparr>po_waiters := AList.update ?k v (po_waiters q)\<rparr>"
      and v: "v = (case map_of (po_waiters q) ?k of Some l \<Rightarrow> l | None \<Rightarrow> []) @ [(req, ?tx)]"
      by (auto simp: pool_call_def wait_for_def chan_new_def Let_def)
    have "pass_inv (queue_txs (AList.update ?k v (po_waiters q))) ?n" using n unfolding v queue_txs_wait .
    then have "pass_inv (queue_txs (po_waiters (hold r p'))) (hold r p')"
      by (simp add: p' pass_inv_def attempts_def open_txs_def tickets_def)
    moreover have "awake (hold r p')"
      using aw wait_for_blocked [of "po_waiters q" q ?k v] acquire_blocked [OF a [unfolded NotAvailable]] w
      by (auto simp: awake_def p' all_blocked_def blocked_def idle_def)
    ultimately show ?thesis using cnt run by (simp add: pool_inv_def p')
  qed
qed

lemma inv_tighter:
  "pool_inv p \<Longrightarrow> tighter p p' \<Longrightarrow> counted 0 p' \<Longrightarrow> pass_inv (queue_txs (po_waiters p)) p' \<Longrightarrow> pool_inv p'"
  using tighter_awake [of p p'] by (simp add: pool_inv_def tighter_def)

lemma tighter_runtime [simp]:
  "tighter p (p\<lparr>rt_chans := cs\<rparr>)" "tighter p (p\<lparr>rt_held := h\<rparr>)" "tighter p (p\<lparr>rt_chans := cs, rt_held := h\<rparr>)"
  by (simp_all add: tighter_def idle_def)

lemma pass_chans: "pass_inv M p \<Longrightarrow> tickets (open_txs p + M) (p\<lparr>rt_chans := cs\<rparr>) \<Longrightarrow> pass_inv M (p\<lparr>rt_chans := cs\<rparr>)"
  by (simp add: pass_inv_def attempts_def open_txs_def)

lemma pass_tickets: "pass_inv M p \<Longrightarrow> tickets (open_txs p + M) p"
  by (simp add: pass_inv_def)

lemma resume_inv:
  assumes "pool_inv p" "call_resume rx p = Some (r, p')"
  shows "pool_inv (hold_result r p')"
proof -
  have cnt: "counted 0 (hold_result r p')" using assms(1) resume_counted [OF _ assms(2)] by (simp add: pool_inv_def)
  have inv: "pass_inv (queue_txs (po_waiters p)) p" using assms(1) by (simp add: pool_inv_def)
  note spent = pass_chans [OF inv tickets_spent [OF pass_tickets [OF inv]]]
  from assms(2) consider
    "rx < length (rt_chans p)" "rt_chans p ! rx = ChSent r" "p' = p\<lparr>rt_chans := (rt_chans p)[rx := ChClosed]\<rparr>"
    | "p' = p" "hold_result r p' = p" by (auto simp: call_resume_def split: if_splits waiter_chan.splits)
  then show ?thesis
  proof cases
    case 1
    with spent [OF 1(1,2), of ChClosed] have "pass_inv (queue_txs (po_waiters p)) (hold_result r p')" "tighter p (hold_result r p')"
      by (cases r; simp)+
    with inv_tighter [OF assms(1)] cnt show ?thesis by blast
  qed (use assms(1) in simp)
qed

lemma cancel_inv:
  assumes "pool_inv p" "call_cancel rx p = Some p'"
  shows "pool_inv p'"
proof -
  let ?q = "p\<lparr>rt_chans := (rt_chans p)[rx := ChCanceled]\<rparr>"
  have inv: "counted 0 p" "pass_inv (queue_txs (po_waiters p)) p" "\<not> po_stopped p \<longrightarrow> rt_task p"
    using assms(1) by (simp_all add: pool_inv_def)
  have q: "pass_inv (queue_txs (po_waiters p)) ?q" by (rule pass_chans [OF inv(2) tickets_cancel [OF pass_tickets [OF inv(2)]]])
  show ?thesis
  proof (cases "\<exists>c. rx < length (rt_chans p) \<and> rt_chans p ! rx = ChSent (Inr c)")
    case True
    then obtain c where c: "rx < length (rt_chans p)" "rt_chans p ! rx = ChSent (Inr c)" by blast
    with inv(1) length_filter_update [of rx "rt_chans p" sent_conn ChCanceled] set_update_subset_insert [of "rt_chans p" rx ChCanceled]
    have "counted (Suc 0) ?q" "whole c" by (fastforce simp: counted_def dest: nth_mem [of rx "rt_chans p"])+
    with q inv(3) release_form(2) [of ?q c p'] assms(2) c show ?thesis by (simp add: pool_pre_def call_cancel_def)
  next
    case False
    with assms(2) have "p' = ?q \<or> p' = p" by (auto simp: call_cancel_def Let_def split: if_splits waiter_chan.splits sum.splits)
    with cancel_counted [OF inv(1), of rx] assms(2) inv_tighter [OF assms(1), of ?q] q assms(1) show ?thesis by auto
  qed
qed

definition open_at :: "waiter_chan list \<Rightarrow> waiter \<Rightarrow> bool" where
  "open_at cs tx \<longleftrightarrow> tx < length cs \<and> cs ! tx = ChWaiting"

lemma chan_alt:
  "chan_send tx v p =
     (open_at (rt_chans p) tx, p\<lparr>rt_chans := (if open_at (rt_chans p) tx then (rt_chans p)[tx := ChSent v] else rt_chans p)\<rparr>)"
  "chan_close tx p = p\<lparr>rt_chans := (if open_at (rt_chans p) tx then (rt_chans p)[tx := ChClosed] else rt_chans p)\<rparr>"
  by (simp_all add: chan_send_def chan_close_def open_at_def)

lemma pre_settle:
  assumes "pool_pre n (add_mset tx M) p" "ch \<noteq> ChWaiting" "\<not> sent_conn ch"
  shows "pool_pre n M (p\<lparr>rt_chans := (if open_at (rt_chans p) tx then (rt_chans p)[tx := ch] else rt_chans p)\<rparr>)"
proof -
  have t: "tickets (add_mset tx (open_txs p + (queue_txs (po_waiters p) + M))) p"
    using assms(1) by (simp add: pool_pre_def pass_inv_def ac_simps)
  show ?thesis
    using assms tickets_settle [OF t assms(2)] counted_chan(1) [of n p tx ch]
    by (auto simp: pool_pre_def pass_inv_def attempts_def open_txs_def open_at_def ac_simps)
qed

lemma opened_inv:
  assumes "pool_inv p" "(k, req, tx) \<in> set (rt_opening p)"
    and "opened k tx res (p\<lparr>rt_opening := remove1 (k, req, tx) (rt_opening p)\<rparr>) = Some p'"
  shows "pool_inv p'"
proof -
  let ?p = "p\<lparr>rt_opening := remove1 (k, req, tx) (rt_opening p)\<rparr>"
  let ?q = "?p\<lparr>po_connecting := removeAll k (po_connecting p)\<rparr>"
  have inv: "counted 0 p" "pass_inv (queue_txs (po_waiters p)) p" "\<not> po_stopped p \<longrightarrow> rt_task p"
    using assms(1) by (simp_all add: pool_inv_def)
  have "open_txs p = add_mset tx (open_txs ?q)"
    unfolding open_txs_def using mset_map_remove1 [OF assms(2), of "snd \<circ> snd"] by simp
  then have q: "pass_inv (add_mset tx (queue_txs (po_waiters p))) ?q"
    using inv(2) attempts_end [OF _ assms(2)] by (simp add: pass_inv_def attempts_def tickets_def)
  show ?thesis
  proof (cases res)
    case (Inl e)
    have "pool_pre 0 {#tx#} ?q" using q inv by (simp add: pool_pre_def counted_def)
    note inv' = check_inv [OF pre_settle [OF this, of "ChSent (Inl e)"]]
    let ?cs = "if open_at (rt_chans p) tx then (rt_chans p)[tx := ChSent (Inl e)] else rt_chans p"
    have "p' = check_availibility (?q\<lparr>rt_chans := ?cs\<rparr>)"
      using Inl assms(3) by (auto simp: opened_def chan_alt open_guard_drop_def intro!: arg_cong [of _ _ check_availibility])
    with inv' show ?thesis by (cases "open_at (rt_chans p) tx") simp_all
  next
    case (Inr io)
    show ?thesis
    proof (cases "po_stopped p")
      case True
      have "pool_pre 0 {#tx#} ?q" using q inv by (simp add: pool_pre_def counted_def)
      note pre_settle [OF check_pre [OF this], of ChClosed]
      moreover have "awake (chan_close tx (check_availibility ?q))" using True by (simp add: awake_def chan_alt)
      ultimately show ?thesis
        using Inr True assms(3) pre_inv [of "chan_close tx (check_availibility ?q)"]
        by (simp add: opened_def open_guard_drop_def chan_alt)
    next
      case False
      let ?c = "connection_new (H1 io) (rt_now p) (Some k)"
      let ?g = "?q\<lparr>po_acquired := Suc (po_acquired p)\<rparr>"
      have g: "counted (Suc 0) ?g" "pass_inv (add_mset tx (queue_txs (po_waiters p))) ?g"
        using q inv(1) by (simp_all add: counted_def pass_inv_def attempts_def open_txs_def tickets_def)
      have settled: "pass_inv (queue_txs (po_waiters p)) (snd (chan_send tx (Inr ?c) ?g))"
        using g(2) tickets_settle [of tx "open_txs ?g + queue_txs (po_waiters p)" ?g "ChSent (Inr ?c)"]
        by (simp add: pass_inv_def attempts_def open_txs_def chan_alt open_at_def)
      show ?thesis
      proof (cases "open_at (rt_chans p) tx")
        case True
        have "pool_pre 0 {#} (snd (chan_send tx (Inr ?c) ?g))"
          using settled inv(3) counted_send [of tx ?c ?g True _ 0] g(1) True by (simp add: pool_pre_def chan_alt)
        from check_inv [OF this] Inr False True assms(3) show ?thesis
          by (simp add: opened_def open_guard_consume_def acquired_new_def Let_def chan_alt)
      next
        case False2: False
        then have "pool_pre (Suc 0) {#} ?g" using settled g(1) inv(3) by (simp add: pool_pre_def chan_alt)
        note rel = release_form(1) [OF this, of ?c False]
        from Inr False False2 assms(3) obtain p1 where "connection_release ?c False ?g = Some p1" "p' = check_availibility p1"
          by (auto simp: opened_def open_guard_consume_def acquired_new_def Let_def chan_alt bind_eq_Some_conv)
        with rel check_inv [OF pool_inv_pre] show ?thesis by simp
      qed
    qed
  qed
qed

lemma pass_wake_inv:
  assumes "pool_inv p" "pool_wake stopping p = Some p'" "stopping \<longrightarrow> po_stopped p"
  shows "pool_inv p'"
proof (cases "po_stopped p")
  case True
  with assms(2) have p': "p' = p\<lparr>po_waker := False, rt_task := False\<rparr>" by (simp add: pool_wake_def)
  with True assms(1) show ?thesis by (simp add: pool_inv_def awake_def p')
next
  case False
  let ?q = "p\<lparr>po_waker := False\<rparr>"
  have inv: "counted 0 ?q" "pass_inv (queue_txs (po_waiters p) + {#}) ?q" "rt_task p"
    using assms(1) False by (simp_all add: pool_inv_def)
  from serve_waiters_pass [OF inv(2), of False] obtain ws cl p1 where
    s: "serve_waiters (po_waiters p) False ?q = Some (ws, cl, p1)" and p1: "pass_inv (queue_txs ws + {#}) p1"
    and t: "tighter ?q p1" and b: "0 < cc_limit (po_cfg ?q) \<longrightarrow> all_blocked ws p1" by (elim exE conjE) (rule that)
  let ?r = "p1\<lparr>po_waiters := ws\<rparr>"
  have r: "pool_pre 0 {#} ?r"
    using serve_waiters_counted [OF s inv(1)] p1 t inv(3) by (simp add: pool_pre_def tighter_def)
  have "awake ?r" using b t by (simp add: awake_def all_blocked_def blocked_def idle_def tighter_def)
  moreover have "pool_pre 0 {#} (waiters_cleanup ?r)"
    using r pass_cleanup [of ?r "{#}"] counted_cleanup [of 0 ?r] by (simp add: pool_pre_def)
  moreover have "awake (waiters_cleanup ?r)"
    using \<open>awake ?r\<close> cleaned_blocked [of ?r] by (simp add: awake_def all_blocked_def blocked_def idle_def)
  ultimately show ?thesis using r s assms(2,3) False pre_inv
    by (auto simp: pool_wake_def pool_pass_def Let_def split: if_splits)
qed


lemma queue_txs_perm: "mset ws = mset ws' \<Longrightarrow> queue_txs ws = queue_txs ws'"
proof -
  have "queue_txs ws = \<Sum>\<^sub># (image_mset (\<lambda>w. mset (map snd (snd w))) (mset ws))" for ws
    by (induction ws) auto
  then show "mset ws = mset ws' \<Longrightarrow> ?thesis" by simp
qed

lemma world_inv:
  assumes "pool_inv p" "mset ws = mset (po_waiters p)" "mset av = mset (po_available p)"
  shows "pool_inv (p\<lparr>rt_now := now, rt_closed := closed, rt_rbuf := rbuf, po_waiters := ws, po_available := av\<rparr>)"
    (is "pool_inv ?p")
proof -
  have inv: "pass_inv (queue_txs (po_waiters p)) p" using assms(1) by (simp add: pool_inv_def)
  then have d: "distinct (map fst (po_available p))" by (simp add: pass_inv_def)
  have "mset (map fst av) = mset (map fst (po_available p))" using assms(3) by simp
  with d have dav: "distinct (map fst av)" by (metis mset_eq_imp_distinct_iff)
  have "set av = set (po_available p)" "set ws = set (po_waiters p)" using assms(2,3) by (metis set_mset_mset)+
  with d dav have "map_of av = map_of (po_available p)" by (simp add: map_of_inject_set)
  then have "blocked ?p k = blocked p k" for k by (simp add: blocked_def idle_def)
  moreover have "pass_inv (queue_txs ws) ?p"
    by (rule pass_same [of _ p]) (use inv dav queue_txs_perm [OF assms(2)] in simp_all)
  ultimately show ?thesis
    using assms(1) \<open>set ws = _\<close> by (simp add: pool_inv_def counted_def awake_def all_blocked_def)
qed

lemma close_all_waiters: "(fold chan_close ts p)\<lparr>po_waiters := ws\<rparr> = fold chan_close ts (p\<lparr>po_waiters := ws\<rparr>)"
proof (induction ts arbitrary: p)
  case (Cons t ts)
  have "(chan_close t p)\<lparr>po_waiters := ws\<rparr> = chan_close t (p\<lparr>po_waiters := ws\<rparr>)" by (simp add: chan_close_def)
  with Cons show ?case by simp
qed simp

lemma close_all_pre: "pool_pre n (mset ts) p \<Longrightarrow> pool_pre n {#} (fold chan_close ts p)"
proof (induction ts arbitrary: p)
  case (Cons t ts)
  then have "pool_pre n (mset ts) (chan_close t p)" using pre_settle [of n t "mset ts" p ChClosed] by (simp add: chan_alt)
  with Cons.IH show ?case by simp
qed simp

lemma pool_drop_inv:
  assumes "pool_inv p"
  shows "pool_inv (pool_drop p)"
proof -
  let ?ts = "map snd (concat (map snd (po_waiters p)))"
  have "pool_pre 0 (mset ?ts) (p\<lparr>po_waiters := []\<rparr>)" using assms by (simp add: pool_inv_def pool_pre_def queue_txs_def)
  from close_all_pre [OF this] have "pool_pre 0 {#} ((fold chan_close ?ts p)\<lparr>po_waiters := []\<rparr>)"
    unfolding close_all_waiters .
  then show ?thesis by (simp add: pool_drop_def Let_def pool_inv_def pool_pre_def awake_def)
qed

lemma held_pre:
  assumes "pool_inv p" "c \<in> set (rt_held p)"
  shows "pool_pre (Suc 0) {#} (p\<lparr>rt_held := remove1 c (rt_held p)\<rparr>)" "whole c"
proof -
  have "list_all whole (rt_held p)" using assms(1) by (simp add: pool_inv_def counted_def)
  then show "whole c" using assms(2) by (simp add: list_all_iff)
  have "length (rt_held p) = Suc (length (remove1 c (rt_held p)))"
    using length_pos_if_in_set [OF assms(2)] assms(2) by (simp add: length_remove1)
  moreover have "list_all whole (remove1 c (rt_held p))"
    using \<open>list_all whole (rt_held p)\<close> by (meson list_all_iff notin_set_remove1)
  ultimately show "pool_pre (Suc 0) {#} (p\<lparr>rt_held := remove1 c (rt_held p)\<rparr>)"
    using assms(1) by (simp add: pool_inv_def pool_pre_def counted_def)
qed

lemma pool_step_inv: "pool_step uo p p' \<Longrightarrow> pool_inv p \<Longrightarrow> pool_inv p'"
proof (induction rule: pool_step.induct)
  case (ps_release c p close p')
  with release_form(1) [OF held_pre] show ?case by blast
next
  case (ps_drop c p p')
  with release_form(2) [OF held_pre] show ?case by blast
next
  case (ps_shutdown p)
  then show ?case by (simp add: pool_shutdown_def pool_inv_def awake_def)
qed (auto intro: pool_call_inv resume_inv cancel_inv opened_inv pass_wake_inv pool_drop_inv world_inv)

lemma pool_steps_inv: "pool_steps uo p p' \<Longrightarrow> pool_inv p \<Longrightarrow> pool_inv p'"
  by (induction rule: rtranclp_induct) (auto intro: pool_step_inv)

lemma pool_reachable: "pool_steps uo (pool_new cfg now) p \<Longrightarrow> pool_inv p"
  by (rule pool_steps_inv [OF _ pool_inv_new])

end
