(* ===== verification/Pool_Safety.thy ===== *)
theory Pool_Safety
  imports Pool_Runs
begin

text \<open>
  The properties of the connection pool of the client: what a connection handed out again is like, that
  no operation panics and no waiting call is forgotten, and what goes wrong without a limit.
\<close>

section \<open>Connections handed out again\<close>

lemma reuse_found:
  assumes "reuse p conns = (Some (io, created), left, p')"
  shows "\<exists>dead c n. conns = dead @ c # left \<and> av_io c = io \<and> av_created c = created \<and> io = H1 n \<and>
    rt_now p - av_used c \<le> cc_conn_keep_alive (po_cfg p) \<and> rt_now p - av_created c \<le> cc_conn_lifetime (po_cfg p) \<and>
    n \<notin> set (rt_closed p) \<and> (rt_rbuf p n = [] \<or> rt_rbuf p n = CRLF) \<and> rt_rbuf p' n = []"
  using assms
proof (induction p conns rule: reuse.induct)
  case (2 p conn conns)
  obtain n where n: "av_io conn = H1 n" by (cases "av_io conn")
  let ?old = "rt_now p - av_used conn > cc_conn_keep_alive (po_cfg p) \<or> rt_now p - av_created conn > cc_conn_lifetime (po_cfg p)"
  let ?good = "\<not> ?old \<and> n \<notin> set (rt_closed p) \<and> (rt_rbuf p n = [] \<or> rt_rbuf p n = CRLF)"
  show ?case
  proof (cases ?good)
    case True
    with "2.prems" n show ?thesis by (intro exI [of _ "[]"]) (auto split: if_splits)
  next
    case False
    define q where "q = (if ?old then p\<lparr>rt_shutdown := n # rt_shutdown p\<rparr> else p)"
    from False "2.prems" n have r: "reuse q conns = (Some (io, created), left, p')"
      by (auto simp: q_def split: if_splits)
    have q: "rt_now q = rt_now p" "po_cfg q = po_cfg p" "rt_closed q = rt_closed p" "rt_rbuf q = rt_rbuf p"
      by (simp_all add: q_def)
    have "\<exists>dead c n. conns = dead @ c # left \<and> av_io c = io \<and> av_created c = created \<and> io = H1 n \<and>
      rt_now q - av_used c \<le> cc_conn_keep_alive (po_cfg q) \<and> rt_now q - av_created c \<le> cc_conn_lifetime (po_cfg q) \<and>
      n \<notin> set (rt_closed q) \<and> (rt_rbuf q n = [] \<or> rt_rbuf q n = CRLF) \<and> rt_rbuf p' n = []"
      using 2 n False r by (cases ?old) (auto simp: q_def)
    then obtain dead where "\<exists>c n. conns = dead @ c # left \<and> av_io c = io \<and> av_created c = created \<and> io = H1 n \<and>
      rt_now p - av_used c \<le> cc_conn_keep_alive (po_cfg p) \<and> rt_now p - av_created c \<le> cc_conn_lifetime (po_cfg p) \<and>
      n \<notin> set (rt_closed p) \<and> (rt_rbuf p n = [] \<or> rt_rbuf p n = CRLF) \<and> rt_rbuf p' n = []"
      unfolding q by blast
    then show ?thesis by (intro exI [of _ "conn # dead"]) simp
  qed
qed simp

text \<open>
  C8: A connection that the pool hands out again is fit for use: it was idle for no longer than the
  keep-alive period, is not older than the lifetime, its stream is open, and nothing but an empty line
  was left unread, which is removed. It leaves the idle connections of its host, the latest used first.
\<close>

theorem reused_connection_usable:
  assumes "acquire k p = (Acquired io created, p')"
  shows "\<exists>c n dead. idle p k = idle p' k @ c # dead \<and> av_io c = io \<and> av_created c = created \<and> io = H1 n \<and>
    rt_now p - av_used c \<le> cc_conn_keep_alive (po_cfg p) \<and> rt_now p - created \<le> cc_conn_lifetime (po_cfg p) \<and>
    n \<notin> set (rt_closed p) \<and> (rt_rbuf p n = [] \<or> rt_rbuf p n = CRLF) \<and> rt_rbuf p' n = []"
proof -
  from assms obtain conns left q where m: "map_of (po_available p) k = Some conns"
    and r: "reuse p (rev conns) = (Some (io, created), left, q)" and p': "p' = q\<lparr>po_available := AList.update k (rev left) (po_available q)\<rparr>"
    by (auto simp: acquire_def Let_def split: if_splits option.splits prod.splits)
  from reuse_found [OF r] obtain dead c n where d: "rev conns = dead @ c # left" "av_io c = io" "av_created c = created" "io = H1 n"
    "rt_now p - av_used c \<le> cc_conn_keep_alive (po_cfg p)" "rt_now p - av_created c \<le> cc_conn_lifetime (po_cfg p)"
    "n \<notin> set (rt_closed p)" "rt_rbuf p n = [] \<or> rt_rbuf p n = CRLF" "rt_rbuf q n = []" by (elim exE conjE) (rule that)
  from arg_cong [OF d(1), of rev] have "conns = rev left @ c # rev dead" by simp
  with m p' have "idle p k = idle p' k @ c # rev dead" by (simp add: idle_def update_conv')
  with d p' show ?thesis by (intro exI [of _ c] exI [of _ n] exI [of _ "rev dead"]) simp
qed

section \<open>No panic, no forgotten call\<close>

lemma wake_returns:
  assumes "pool_inv p"
  shows "\<exists>p'. pool_wake stopping p = Some p'"
proof -
  have "pass_inv (queue_txs (po_waiters p) + {#}) (p\<lparr>po_waker := False\<rparr>)" using assms by (simp add: pool_inv_def)
  from serve_waiters_pass [OF this, of False] obtain ws cl p1 where
    "serve_waiters (po_waiters p) False (p\<lparr>po_waker := False\<rparr>) = Some (ws, cl, p1)" by (elim exE conjE) (rule that)
  then show ?thesis by (simp add: pool_wake_def pool_pass_def Let_def)
qed

text \<open>
  C6: The operations of a pool do not panic, in whatever order they come. The number of acquired
  connections never falls below zero, no connection is released without its stream, and the support task
  never borrows the waiters twice, so a release, a drop, a cancelled call, the end of an attempt and a
  turn of the support task always succeed.
\<close>

theorem pool_never_panics:
  assumes "pool_steps uo (pool_new cfg now) p"
  shows "(\<forall>c\<in>set (rt_held p). \<forall>close. \<exists>p'. connection_release c close (p\<lparr>rt_held := remove1 c (rt_held p)\<rparr>) = Some p') \<and>
    (\<forall>c\<in>set (rt_held p). \<exists>p'. connection_drop c (p\<lparr>rt_held := remove1 c (rt_held p)\<rparr>) = Some p') \<and>
    (\<forall>rx. \<exists>p'. call_cancel rx p = Some p') \<and>
    (\<forall>k tx res. \<exists>p'. opened k tx res p = Some p') \<and>
    (\<forall>stopping. \<exists>p'. pool_wake stopping p = Some p')"
proof -
  have inv: "pool_inv p" by (rule pool_reachable [OF assms])
  then have cnt: "counted 0 p" by (simp add: pool_inv_def)
  have "counted (Suc 0) (p\<lparr>rt_held := remove1 c (rt_held p)\<rparr>)" "whole c" if "c \<in> set (rt_held p)" for c
    using held_pre [OF inv that] by (simp_all add: pool_pre_def)
  with release_counted opened_counted [OF cnt] cancel_counted [OF cnt] wake_returns [OF inv] show ?thesis by meson
qed

text \<open>
  C9: The counters of a pool are exact. The number of acquired connections is that of the connections in
  the hands of the client and in the channels of calls that have not taken theirs yet, and the hosts that
  are being connected to are those of the attempts under way, one for each host.
\<close>

theorem pool_accounting:
  assumes "pool_steps uo (pool_new cfg now) p"
  shows "po_acquired p = length (rt_held p) + length (filter sent_conn (rt_chans p)) \<and>
    set (po_connecting p) = fst ` set (rt_opening p) \<and> distinct (map fst (rt_opening p))"
  using pool_reachable [OF assms] by (simp add: pool_inv_def counted_def pass_inv_def attempts_def)

text \<open>
  C5: No waiting call is forgotten by a pool with a limit. As long as the pool is not stopped its support
  task runs, and a call that waits for a connection either has an attempt of its own under way or stands
  in the queue of its host; in the queue it is not stranded: the support task has been signalled, or there
  is an attempt whose end, or a connection whose release, will signal it.
\<close>

theorem waiting_call_not_forgotten:
  assumes "pool_steps uo (pool_new cfg now) p" "0 < cc_limit (po_cfg p)" "\<not> po_stopped p"
    and "rx < length (rt_chans p)" "rt_chans p ! rx = ChWaiting"
  shows "rt_task p \<and>
    ((\<exists>k req. (k, req, rx) \<in> set (rt_opening p)) \<or>
     (\<exists>k q. (k, q) \<in> set (po_waiters p) \<and> rx \<in> snd ` set q \<and>
        (po_waker p \<or> rt_opening p \<noteq> [] \<or> (\<exists>c. c \<in> set (rt_held p) \<or> ChSent (Inr c) \<in> set (rt_chans p)))))"
proof -
  have inv: "pool_inv p" by (rule pool_reachable [OF assms(1)])
  then have t: "tickets (open_txs p + queue_txs (po_waiters p)) p" and task: "rt_task p"
    using assms(3) by (simp_all add: pool_inv_def pass_inv_def)
  from t assms(4,5) have "rx \<in># open_txs p + queue_txs (po_waiters p)" by (simp add: tickets_def)
  then consider k req where "(k, req, rx) \<in> set (rt_opening p)" | k q where "(k, q) \<in> set (po_waiters p)" "rx \<in> snd ` set q"
    by (fastforce simp: open_txs_def queue_txs_def)
  then show ?thesis
  proof cases
    case (2 k q)
    have "rt_opening p \<noteq> [] \<or> (\<exists>c. c \<in> set (rt_held p) \<or> ChSent (Inr c) \<in> set (rt_chans p))" if "\<not> po_waker p"
    proof -
      have "blocked p k" using inv that 2 assms(2,3) by (fastforce simp: pool_inv_def awake_def all_blocked_def)
      then consider "0 < po_acquired p" | "k \<in> set (po_connecting p)" using assms(2) by (auto simp: blocked_def)
      then show ?thesis
      proof cases
        case 1
        then have "rt_held p \<noteq> [] \<or> filter sent_conn (rt_chans p) \<noteq> []" using inv by (auto simp: pool_inv_def counted_def)
        then consider c where "c \<in> set (rt_held p)" | ch where "ch \<in> set (rt_chans p)" "sent_conn ch"
          by (fastforce simp: filter_empty_conv neq_Nil_conv)
        then show ?thesis by cases (auto elim: sent_conn.elims)
      next
        case 2
        then show ?thesis using inv by (auto simp: pool_inv_def pass_inv_def attempts_def)
      qed
    qed
    with 2 task show ?thesis by blast
  qed (use task in blast)
qed

section \<open>Without a limit\<close>

text \<open>The calls \<open>W\<close> are not heard: nothing signals the support task, and no attempt will answer them.\<close>

definition unheard :: "waiter set \<Rightarrow> conn_pool \<Rightarrow> bool" where
  "unheard W p \<longleftrightarrow>
     cc_limit (po_cfg p) = 0 \<and> \<not> po_waker p \<and>
     (\<forall>w\<in>W. w < length (rt_chans p) \<and> (rt_chans p ! w = ChWaiting \<or> rt_chans p ! w = ChCanceled) \<and> w \<notin># open_txs p)"

lemma unheard_same:
  "unheard W p \<Longrightarrow> po_cfg p' = po_cfg p \<Longrightarrow> po_waker p' = po_waker p \<Longrightarrow> rt_chans p' = rt_chans p \<Longrightarrow>
   rt_opening p' = rt_opening p \<Longrightarrow> unheard W p'"
  by (simp add: unheard_def open_txs_def)

lemma unheard_check: "unheard W p \<Longrightarrow> unheard W (check_availibility p)"
  by (rule unheard_same) (auto simp: check_availibility_def Let_def unheard_def)

lemma unheard_chan:
  "unheard W p \<Longrightarrow> i \<notin> W \<or> ch = ChCanceled \<Longrightarrow> unheard W (p\<lparr>rt_chans := (rt_chans p)[i := ch]\<rparr>)"
  by (cases "i < length (rt_chans p)") (auto simp: unheard_def open_txs_def nth_list_update)

lemma unheard_settle: "unheard W p \<Longrightarrow> tx \<notin> W \<Longrightarrow> unheard W (snd (chan_send tx v p)) \<and> unheard W (chan_close tx p)"
  using unheard_chan [of W p tx] by (simp add: chan_send_def chan_close_def)

lemma unheard_release:
  assumes "unheard W p"
  shows "connection_release c close p = Some p' \<Longrightarrow> unheard W p'" "connection_drop c p = Some p' \<Longrightarrow> unheard W p'"
  using assms unheard_check [OF unheard_same [OF assms]]
  by (auto simp: connection_release_def acquired_release_def connection_drop_def acquired_drop_def dec_acquired_def Let_def
      split: option.splits client_conn_type.splits if_splits)

lemma unheard_opened:
  assumes "unheard W p" "tx \<notin> W" "opened k tx res p = Some p'"
  shows "unheard W p'"
proof (cases res)
  case (Inl e)
  have "unheard W (snd (chan_send tx (Inl e) p))" using unheard_settle [OF assms(1,2)] by blast
  with Inl assms(3) unheard_check [OF unheard_same [OF this]] show ?thesis
    by (auto simp: opened_def open_guard_drop_def split: prod.splits)
next
  case (Inr io)
  let ?q = "p\<lparr>po_connecting := removeAll k (po_connecting p)\<rparr>"
  let ?g = "?q\<lparr>po_acquired := Suc (po_acquired p)\<rparr>"
  let ?c = "connection_new (H1 io) (rt_now p) (Some k)"
  have u: "unheard W ?q" "unheard W ?g" using assms(1) by (simp_all add: unheard_def open_txs_def)
  show ?thesis
  proof (cases "po_stopped p")
    case True
    with Inr assms(2,3) unheard_settle [OF unheard_check [OF u(1)]] show ?thesis by (auto simp: opened_def open_guard_drop_def)
  next
    case False
    obtain taken s where s: "chan_send tx (Inr ?c) ?g = (taken, s)" by fastforce
    then have us: "unheard W s" using unheard_settle [OF u(2) assms(2), of "Inr ?c"] by simp
    from Inr False assms(3) s obtain r where "(if taken then Some s else connection_release ?c False s) = Some r" "p' = check_availibility r"
      by (auto simp: opened_def open_guard_consume_def acquired_new_def bind_eq_Some_conv)
    with us unheard_release(1) [OF us] unheard_check show ?thesis by (auto split: if_splits)
  qed
qed

lemma unheard_call:
  assumes "unheard W p" "pool_call uo req p = (r, p')"
  shows "unheard W (hold r p')"
proof (cases "uo_authority uo (cn_uri req)")
  case None
  with assms show ?thesis by (auto simp: pool_call_def)
next
  case (Some auth)
  obtain res q where a: "acquire (key_from auth) p = (res, q)" by fastforce
  have q: "unheard W q" using acquire_frame [OF a] by (intro unheard_same [OF assms(1)]) (simp_all add: only_idle_def)
  have n: "unheard W (q\<lparr>rt_chans := rt_chans q @ [ChWaiting]\<rparr>)"
    using q by (fastforce simp: unheard_def open_txs_def nth_append)
  have "length (rt_chans q) \<notin> W" using q by (auto simp: unheard_def)
  with n have o: "unheard W (open_connection req (key_from auth) (length (rt_chans q)) (q\<lparr>rt_chans := rt_chans q @ [ChWaiting]\<rparr>))"
    by (auto simp: unheard_def open_txs_open open_txs_def) (auto simp: open_connection_def open_guard_new_def)
  show ?thesis
    using assms(2) Some a q o unheard_same [OF n] unheard_same [OF q]
    by (cases res) (auto simp: pool_call_def acquired_new_def chan_new_def wait_for_def Let_def)
qed

lemma unheard_step:
  assumes "pool_step uo p p'" "unheard W p" "\<not> po_stopped p"
  shows "po_stopped p' \<or> unheard W p'"
  using assms
proof (cases rule: pool_step.cases)
  case (ps_call req r q)
  then show ?thesis using unheard_call assms(2) by blast
next
  case (ps_resume rx r q)
  then have "q = p \<or> (rx \<notin> W \<and> q = p\<lparr>rt_chans := (rt_chans p)[rx := ChClosed]\<rparr>)" using assms(2)
    by (auto simp: call_resume_def unheard_def split: if_splits waiter_chan.splits)
  then have "unheard W q" using assms(2) unheard_chan [OF assms(2), of rx ChClosed] by auto
  then have "unheard W (hold_result r q)" by (cases r) (auto elim: unheard_same)
  then show ?thesis using ps_resume(1) by simp
next
  case (ps_cancel rx)
  then show ?thesis
    using unheard_chan [OF assms(2), of rx ChCanceled] unheard_release(2) assms(2)
    by (auto simp: call_cancel_def Let_def split: if_splits waiter_chan.splits sum.splits)
next
  case (ps_opened k req tx res)
  let ?p = "p\<lparr>rt_opening := remove1 (k, req, tx) (rt_opening p)\<rparr>"
  have "tx \<in># open_txs p" using ps_opened(1) by (force simp: open_txs_def)
  then have "tx \<notin> W" using assms(2) by (auto simp: unheard_def)
  moreover have "set_mset (open_txs ?p) \<subseteq> set_mset (open_txs p)"
    using mset_map_remove1 [OF ps_opened(1), of "snd \<circ> snd"] by (auto simp: open_txs_def)
  then have "unheard W ?p" using assms(2) by (auto simp: unheard_def)
  ultimately show ?thesis using ps_opened(2) unheard_opened by blast
next
  case (ps_release c close)
  moreover have "unheard W (p\<lparr>rt_held := remove1 c (rt_held p)\<rparr>)" by (rule unheard_same [OF assms(2)]) simp_all
  ultimately show ?thesis using unheard_release(1) by blast
next
  case (ps_drop c)
  moreover have "unheard W (p\<lparr>rt_held := remove1 c (rt_held p)\<rparr>)" by (rule unheard_same [OF assms(2)]) simp_all
  ultimately show ?thesis using unheard_release(2) by blast
next
  case (ps_world now ws av closed rbuf)
  then show ?thesis using unheard_same [OF assms(2)] by simp
qed (auto simp: unheard_def pool_shutdown_def pool_drop_def Let_def)

lemma release_stopped:
  "connection_release c close p = Some p' \<Longrightarrow> po_stopped p' = po_stopped p"
  "connection_drop c p = Some p' \<Longrightarrow> po_stopped p' = po_stopped p"
  by (auto simp: connection_release_def acquired_release_def connection_drop_def acquired_drop_def dec_acquired_def Let_def
      split: option.splits client_conn_type.splits if_splits)

lemma pool_call_stopped: "pool_call uo req p = (r, p') \<Longrightarrow> po_stopped (hold r p') = po_stopped p"
  by (cases r) (auto simp: pool_call_def acquired_new_def chan_new_def wait_for_def open_connection_def open_guard_new_def
      only_idle_def Let_def split: option.splits prod.splits acquire_result.splits dest!: acquire_frame)

lemma stopped_step:
  assumes "pool_step uo p p'" "po_stopped p"
  shows "po_stopped p'"
  using assms
proof (cases rule: pool_step.cases)
  case (ps_call req r q)
  with pool_call_stopped assms(2) show ?thesis by simp
next
  case (ps_resume rx r q)
  with assms(2) show ?thesis by (cases r) (auto simp: call_resume_def split: if_splits waiter_chan.splits)
next
  case (ps_cancel rx)
  with assms(2) release_stopped(2) show ?thesis
    by (fastforce simp: call_cancel_def Let_def split: if_splits waiter_chan.splits sum.splits)
next
  case (ps_opened k req tx res)
  with assms(2) show ?thesis
    by (auto simp: opened_def open_guard_drop_def chan_alt split: sum.splits)
next
  case (ps_release c close)
  with assms(2) release_stopped(1) show ?thesis by fastforce
next
  case (ps_drop c)
  with assms(2) release_stopped(2) show ?thesis by fastforce
qed (auto simp: pool_wake_def pool_shutdown_def pool_drop_def Let_def)

lemma unheard_steps:
  "pool_steps uo p p' \<Longrightarrow> po_stopped p \<or> unheard W p \<Longrightarrow> po_stopped p' \<or> unheard W p'"
proof (induction rule: rtranclp_induct)
  case (step q r)
  then show ?case
    using unheard_step [OF step(2)] stopped_step [OF step(2)] by blast
qed

text \<open>
  C7: Without a limit, which a limit of 0 stands for, a call that has to wait for another attempt to its
  host is stranded. \<^verbatim>\<open>check_availibility\<close> compares the number of acquired connections with the limit itself,
  so the support task is never signalled, and the call is not answered until the pool is stopped, whatever
  connections are established, released and idle.
\<close>

theorem unlimited_pool_strands_waiters:
  assumes "pool_steps uo (pool_new cfg now) p" "cc_limit cfg = 0"
    and "(k, q) \<in> set (po_waiters p)" "(req, w) \<in> set q"
    and "pool_steps uo p p'" "\<not> po_stopped p'"
  shows "rt_chans p' ! w = ChWaiting \<or> rt_chans p' ! w = ChCanceled"
proof -
  have "unheard {} (pool_new cfg now)" using assms(2) by (simp add: unheard_def pool_new_def)
  with unheard_steps [OF assms(1)] have "po_stopped p \<or> unheard {} p" by blast
  have "w \<in># queue_txs (po_waiters p)" using assms(3,4) by (force simp: queue_txs_def)
  have t: "tickets (open_txs p + queue_txs (po_waiters p)) p"
    using pool_reachable [OF assms(1)] by (simp add: pool_inv_def pass_inv_def)
  then have "count (open_txs p) w + count (queue_txs (po_waiters p)) w \<le> 1" by (simp add: tickets_def)
  moreover have "1 \<le> count (queue_txs (po_waiters p)) w" using \<open>w \<in># queue_txs _\<close> by (simp only: count_greater_eq_one_iff)
  ultimately have "count (open_txs p) w = 0" by linarith
  then have "w \<notin># open_txs p" by (simp only: not_in_iff)
  with \<open>po_stopped p \<or> unheard {} p\<close> have "po_stopped p \<or> unheard {w} p" using t \<open>w \<in># queue_txs _\<close> by (auto simp: unheard_def tickets_def)
  from unheard_steps [OF assms(5) this] assms(6) show ?thesis by (simp add: unheard_def)
qed

section \<open>Instances\<close>

text \<open>Two calls to one host, and the end of the attempt that the first one has started.\<close>

definition any_host :: uri_ops where
  "any_host = \<lparr>uo_parse = Some, uo_scheme = (\<lambda>_. None), uo_authority = Some, uo_host = id, uo_port = (\<lambda>_. None)\<rparr>"

definition to_host :: "string \<Rightarrow> connect" where
  "to_host h = \<lparr>cn_uri = h, cn_addr = None\<rparr>"

definition limited :: "nat \<Rightarrow> conn_pool" where
  "limited n = pool_new (cc_set_limit n cc_new) 0"

definition one_call :: "string \<Rightarrow> conn_pool \<Rightarrow> conn_pool" where
  "one_call h p = hold (fst (pool_call any_host (to_host h) p)) (snd (pool_call any_host (to_host h) p))"

lemma one_call_step: "pool_step any_host p (one_call h p)"
  unfolding one_call_def by (rule ps_call [of _ "to_host h"]) simp

definition two_calls :: "nat \<Rightarrow> conn_pool" where
  "two_calls n = one_call ''a'' (one_call ''a'' (limited n))"

lemma two_calls_run: "pool_steps any_host (pool_new (cc_set_limit n cc_new) 0) (two_calls n)"
  unfolding two_calls_def limited_def by (meson one_call_step r_into_rtranclp rtranclp_trans)

lemmas pool_eval = one_call_def limited_def pool_call_def any_host_def to_host_def acquire_def pool_new_def
  cc_set_limit_def cc_new_def chan_new_def wait_for_def open_connection_def open_guard_new_def key_from_def Let_def

lemma two_calls_state:
  "two_calls n = (limited n)\<lparr>po_connecting := [Key ''a''], po_waiters := [(Key ''a'', [(to_host ''a'', 1)])],
     rt_chans := [ChWaiting, ChWaiting], rt_opening := [(Key ''a'', to_host ''a'', 0)]\<rparr>"
  by (cases "n = 0") (simp_all add: two_calls_def pool_eval)

definition connected :: "nat \<Rightarrow> conn_pool \<Rightarrow> conn_pool" where
  "connected io p =
     (case rt_opening p of
        [] \<Rightarrow> p
      | (k, req, tx) # _ \<Rightarrow> the (opened k tx (Inr io) (p\<lparr>rt_opening := tl (rt_opening p)\<rparr>)))"

lemma connected_step:
  assumes "pool_inv p" "rt_opening p \<noteq> []"
  shows "pool_step any_host p (connected io p)"
proof -
  obtain k req tx l where o: "rt_opening p = (k, req, tx) # l" using assms(2) by (metis list.exhaust prod_cases3)
  have "counted 0 (p\<lparr>rt_opening := l\<rparr>)" using assms(1) by (simp add: pool_inv_def)
  from opened_counted [OF this, of k tx "Inr io"] o show ?thesis
    using ps_opened [of k req tx p "Inr io"] by (auto simp: connected_def)
qed

theorem waiting_call_not_forgotten_witness:
  "rt_chans (two_calls 1) ! 1 = ChWaiting \<and> rt_task (two_calls 1) \<and>
   (\<exists>k q. (k, q) \<in> set (po_waiters (two_calls 1)) \<and> 1 \<in> snd ` set q)"
proof -
  have "0 < cc_limit (po_cfg (two_calls 1))" "\<not> po_stopped (two_calls 1)" "1 < length (rt_chans (two_calls 1))"
    "rt_chans (two_calls 1) ! 1 = ChWaiting"
    by (simp_all add: two_calls_state pool_eval)
  from waiting_call_not_forgotten [OF two_calls_run this] this(4) show ?thesis by (auto simp: two_calls_state)
qed

theorem pool_accounting_witness:
  "po_acquired (connected 7 (two_calls 8)) = 1 \<and> filter sent_conn (rt_chans (connected 7 (two_calls 8))) \<noteq> []"
proof -
  let ?p = "connected 7 (two_calls 8)"
  have "rt_opening (two_calls 8) \<noteq> []" by (simp add: two_calls_state)
  from connected_step [OF pool_reachable [OF two_calls_run] this, of 7]
  have "pool_steps any_host (pool_new (cc_set_limit 8 cc_new) 0) ?p" using two_calls_run [of 8] by (auto intro: rtranclp.rtrancl_into_rtrancl)
  from pool_accounting [OF this] have "po_acquired ?p = length (rt_held ?p) + length (filter sent_conn (rt_chans ?p))" by blast
  moreover have "po_acquired ?p = 1" "rt_held ?p = []"
    by (simp_all add: two_calls_state connected_def opened_def open_guard_consume_def acquired_new_def chan_send_def pool_eval)
  ultimately show ?thesis by auto
qed

theorem pool_never_panics_witness:
  "rt_opening (two_calls 1) \<noteq> [] \<and> (\<exists>p'. opened (Key ''a'') 0 (Inr 7) (two_calls 1) = Some p') \<and>
   (\<exists>p'. call_cancel 1 (two_calls 1) = Some p')"
  using pool_never_panics [OF two_calls_run [of 1]] by (simp add: two_calls_state)

theorem reused_connection_usable_witness:
  "\<exists>p' c n dead. acquire (Key ''a'') ((limited 8)\<lparr>po_available := [(Key ''a'', [\<lparr>av_io = H1 3, av_used = 0, av_created = 0\<rparr>])]\<rparr>) =
       (Acquired (H1 3) 0, p') \<and>
     idle ((limited 8)\<lparr>po_available := [(Key ''a'', [\<lparr>av_io = H1 3, av_used = 0, av_created = 0\<rparr>])]\<rparr>) (Key ''a'') =
       idle p' (Key ''a'') @ c # dead \<and> rt_rbuf p' n = []"
proof -
  let ?p = "(limited 8)\<lparr>po_available := [(Key ''a'', [\<lparr>av_io = H1 3, av_used = 0, av_created = 0\<rparr>])]\<rparr>"
  obtain p' where a: "acquire (Key ''a'') ?p = (Acquired (H1 3) 0, p')" by (simp add: pool_eval)
  from reused_connection_usable [OF this] a show ?thesis by blast
qed

theorem unlimited_pool_strands_waiters_witness:
  "\<not> po_stopped (connected 7 (two_calls 0)) \<and>
   (rt_chans (connected 7 (two_calls 0)) ! 1 = ChWaiting \<or> rt_chans (connected 7 (two_calls 0)) ! 1 = ChCanceled)"
proof -
  let ?p = "connected 7 (two_calls 0)"
  have "rt_opening (two_calls 0) \<noteq> []" by (simp add: two_calls_state)
  then have run: "pool_steps any_host (two_calls 0) ?p"
    by (intro r_into_rtranclp connected_step [OF pool_reachable [OF two_calls_run]])
  have w: "(Key ''a'', [(to_host ''a'', 1)]) \<in> set (po_waiters (two_calls 0))" "(to_host ''a'', 1) \<in> set [(to_host ''a'', 1)]"
    by (simp_all add: two_calls_state)
  have "\<not> po_stopped ?p"
    by (simp add: two_calls_state connected_def opened_def open_guard_consume_def acquired_new_def chan_send_def pool_eval)
  with unlimited_pool_strands_waiters [OF two_calls_run _ w run] show ?thesis by (simp add: cc_set_limit_def)
qed

text \<open>
  The limit counts connections that are established, not those under way: attempts to different hosts
  may start below the limit and end above it.
\<close>

lemma limit_exceeded:
  "\<exists>p. pool_steps any_host (pool_new (cc_set_limit 1 cc_new) 0) p \<and> po_acquired p = 2"
proof -
  let ?p = "one_call ''b'' (one_call ''a'' (limited 1))"
  let ?q = "connected 7 ?p"
  have run: "pool_steps any_host (pool_new (cc_set_limit 1 cc_new) 0) ?p"
    unfolding limited_def by (meson one_call_step r_into_rtranclp rtranclp_trans)
  have "rt_opening ?p \<noteq> []" by (simp add: pool_eval)
  from connected_step [OF pool_reachable [OF run] this, of 7] run
  have run2: "pool_steps any_host (pool_new (cc_set_limit 1 cc_new) 0) ?q" by (auto intro: rtranclp.rtrancl_into_rtrancl)
  have o: "rt_opening ?q \<noteq> []"
    by (simp add: connected_def opened_def open_guard_consume_def acquired_new_def chan_send_def pool_eval)
  from connected_step [OF pool_reachable [OF run2] this, of 8] run2
  have "pool_steps any_host (pool_new (cc_set_limit 1 cc_new) 0) (connected 8 ?q)" by (auto intro: rtranclp.rtrancl_into_rtrancl)
  moreover have "po_acquired (connected 8 ?q) = 2"
    by (simp add: connected_def opened_def open_guard_consume_def acquired_new_def chan_send_def check_availibility_def waiters_cleanup_def pool_eval)
  ultimately show ?thesis by blast
qed

end
