(* ===== verification/Client_Codec.thy ===== *)
theory Client_Codec
  imports H1_Codec Client_Types
begin

text \<open>
  The codec of the HTTP client (\<^verbatim>\<open>geario-http/src/client/codec.rs\<close>, \<^verbatim>\<open>ClientRawRequest\<close> of \<^verbatim>\<open>client/mod.rs\<close>,
  \<^verbatim>\<open>MessageType\<close> of \<^verbatim>\<open>h1/mod.rs\<close>): it writes requests with the encoder and reads responses with the decoder that
  the server uses for the other direction. \<open>dbg\<close> says whether the build checks \<^verbatim>\<open>debug_assert\<close>; \<^const>\<open>None\<close> is a
  panic.
\<close>

section \<open>Definitions\<close>

abbreviation CF_HEAD :: u8 where "CF_HEAD \<equiv> 0x01"
abbreviation CF_KEEPALIVE_ENABLED :: u8 where "CF_KEEPALIVE_ENABLED \<equiv> 0x08"
abbreviation CF_STREAM :: u8 where "CF_STREAM \<equiv> 0x10"

datatype msg_kind = MkNone | MkPayload | MkStream

record client_raw_request =
  cr_head :: request_head
  cr_headers :: "header_map option"
  cr_size :: body_size

record 's client_codec =
  cl_decoder :: "(response_head, 's) message_decoder"
  cl_payload :: "payload_decoder option"
  cl_version :: version
  cl_ctype :: connection_type
  cl_flags :: u8
  cl_encoder :: message_encoder

definition clc_new :: "'s parse_env \<Rightarrow> bool \<Rightarrow> http_service_config \<Rightarrow> 's client_codec" where
  "clc_new env keep_alive cfg =
     \<lparr>cl_decoder = md_new env cfg, cl_payload = None, cl_version = HTTP_11, cl_ctype = Close,
      cl_flags = (if keep_alive then CF_KEEPALIVE_ENABLED else 0), cl_encoder = me_default\<rparr>"

definition clc_keepalive :: "'s client_codec \<Rightarrow> bool" where
  "clc_keepalive c = (cl_ctype c = KeepAlive)"

definition clc_message_type :: "'s client_codec \<Rightarrow> msg_kind" where
  "clc_message_type c =
     (if fl_contains (cl_flags c) CF_STREAM then MkStream
      else if cl_payload c = None then MkNone
      else MkPayload)"

text \<open>What \<^verbatim>\<open>decode\<close> does with a complete response.\<close>

definition clc_response :: "'s client_codec \<Rightarrow> response_head \<Rightarrow> payload_type \<Rightarrow> 's client_codec" where
  "clc_response c res payload =
     (let c = (case rs_ctype res of
                 Some ct \<Rightarrow> if ct \<noteq> KeepAlive then c\<lparr>cl_ctype := ct\<rparr> else c
               | None \<Rightarrow> c)
      in if fl_contains (cl_flags c) CF_HEAD then c\<lparr>cl_payload := None\<rparr>
         else (case payload of
                 PNone \<Rightarrow> c\<lparr>cl_payload := None\<rparr>
               | PPayload pl \<Rightarrow> c\<lparr>cl_payload := Some pl\<rparr>
               | PStream pl \<Rightarrow> c\<lparr>cl_payload := Some pl, cl_flags := fl_insert (cl_flags c) CF_STREAM\<rparr>))"

definition clc_decode ::
  "bool \<Rightarrow> 's parse_env \<Rightarrow> 's client_codec \<Rightarrow> bytes \<Rightarrow>
   ((decode_error + response_head option) \<times> 's client_codec \<times> bytes) option" where
  "clc_decode dbg env c src =
     (if dbg \<and> cl_payload c \<noteq> None then None
      else
        (case md_decode env (response_type (rs_decode env)) (cl_decoder c) src of
           None \<Rightarrow> None
         | Some (Err e, d, src') \<Rightarrow> Some (Err e, c\<lparr>cl_decoder := d\<rparr>, src')
         | Some (Ok None, d, src') \<Rightarrow> Some (Ok None, c\<lparr>cl_decoder := d\<rparr>, src')
         | Some (Ok (Some (res, payload)), d, src') \<Rightarrow>
             Some (Ok (Some res), clc_response (c\<lparr>cl_decoder := d\<rparr>) res payload, src')))"

text \<open>The payload codec is the same state with another decoder: an item is a chunk or the end.\<close>

definition clp_decode ::
  "chunk_size_fun \<Rightarrow> 's client_codec \<Rightarrow> bytes \<Rightarrow>
   ((payload_error + bytes option option) \<times> 's client_codec \<times> bytes) option" where
  "clp_decode pcs c src =
     (case cl_payload c of
        None \<Rightarrow> None
      | Some pd \<Rightarrow>
          (case pd_decode pcs pd src of
             None \<Rightarrow> None
           | Some (Err e, pd', src') \<Rightarrow> Some (Err (PeDecode e), c\<lparr>cl_payload := Some pd'\<rparr>, src')
           | Some (Ok (Some (Chunk chunk)), pd', src') \<Rightarrow> Some (Ok (Some (Some chunk)), c\<lparr>cl_payload := Some pd'\<rparr>, src')
           | Some (Ok (Some Eof), pd', src') \<Rightarrow> Some (Ok (Some None), c\<lparr>cl_payload := None\<rparr>, src')
           | Some (Ok None, pd', src') \<Rightarrow> Some (Ok None, c\<lparr>cl_payload := Some pd'\<rparr>, src')))"

text \<open>What \<^verbatim>\<open>encodev\<close> records of a request before it writes it.\<close>

definition clc_request :: "'s client_codec \<Rightarrow> request_head \<Rightarrow> 's client_codec" where
  "clc_request c head =
     (let flags = fl_set (cl_flags c) CF_HEAD (rq_method head = ''HEAD'')
      in c\<lparr>cl_version := rq_version head, cl_flags := flags,
           cl_ctype := (case rq_connection_type head of
                          KeepAlive \<Rightarrow> if fl_contains flags CF_KEEPALIVE_ENABLED then KeepAlive else Close
                        | Upgrade \<Rightarrow> Upgrade
                        | Close \<Rightarrow> Close)\<rparr>)"

definition clc_encodev ::
  "(uri \<Rightarrow> string option) \<Rightarrow> enc_env \<Rightarrow> date_service \<Rightarrow> 's client_codec \<Rightarrow> client_raw_request h1_message \<Rightarrow> bytes \<Rightarrow>
   ((encode_error + unit) \<times> 's client_codec \<times> bytes \<times> date_service) option" where
  "clc_encodev pq ee ds c item dst =
     (case item of
        MItem req \<Rightarrow>
          (let c = clc_request c (cr_head req)
           in map_option (\<lambda>(me, dst, ds). (Ok (), c\<lparr>cl_encoder := me\<rparr>, dst, ds))
                (me_encode (cl_encoder c) (enc_request pq) (cr_head req) (ee_junk ee) (ee_httpdate ee) ds dst
                   False False (cl_version c) (cr_size req) (cl_ctype c) (cr_headers req)))
      | MChunk (Some bytes) \<Rightarrow>
          (case me_encode_chunk (cl_encoder c) bytes dst of
             (Err e, me, dst') \<Rightarrow> Some (Err e, c\<lparr>cl_encoder := me\<rparr>, dst', ds)
           | (Ok _, me, dst') \<Rightarrow> Some (Ok (), c\<lparr>cl_encoder := me\<rparr>, dst', ds))
      | MChunk None \<Rightarrow>
          (case me_encode_eof (cl_encoder c) dst of
             (r, me, dst') \<Rightarrow> Some (r, c\<lparr>cl_encoder := me\<rparr>, dst', ds)))"

section \<open>Facts\<close>

lemma clc_response_ctype:
  "cl_ctype (clc_response c res pl) = (case rs_ctype res of Some ct \<Rightarrow> if ct \<noteq> KeepAlive then ct else cl_ctype c | None \<Rightarrow> cl_ctype c)"
  by (auto simp: clc_response_def Let_def split: option.splits payload_type.splits)

lemma clc_request_ctype:
  "cl_ctype (clc_request c head) = KeepAlive \<longleftrightarrow> rq_connection_type head = KeepAlive \<and> fl_contains (cl_flags c) CF_KEEPALIVE_ENABLED"
  by (auto simp: clc_request_def Let_def flag_simps split: connection_type.splits)

lemma clc_encodev_ctype:
  assumes "clc_encodev pq ee ds c item dst = Some (r, c', out, ds')"
  shows "cl_ctype c' = (case item of MItem req \<Rightarrow> cl_ctype (clc_request c (cr_head req)) | _ \<Rightarrow> cl_ctype c)"
  using assms by (auto simp: clc_encodev_def Let_def split: h1_message.splits option.splits prod.splits sum.splits)

lemma clc_decode_ctype:
  assumes "clc_decode dbg env c src = Some (r, c', src')"
  shows "cl_ctype c' =
    (case r of
       Ok (Some res) \<Rightarrow> (case rs_ctype res of Some ct \<Rightarrow> if ct \<noteq> KeepAlive then ct else cl_ctype c | None \<Rightarrow> cl_ctype c)
     | _ \<Rightarrow> cl_ctype c)"
  using assms by (auto simp: clc_decode_def clc_response_ctype split: if_splits option.splits sum.splits)

lemma clp_decode_ctype: "clp_decode pcs c src = Some (r, c', src') \<Longrightarrow> cl_ctype c' = cl_ctype c"
  by (auto simp: clp_decode_def simp del: pd_decode.simps split: option.splits sum.splits payload_item.splits)

text \<open>
  A response of HTTP/1.1 whose headers give neither a length nor chunks, and that is no switch of protocols,
  is taken to have no body, although without framing its body extends to the end of the connection.
\<close>

lemma unframed_response_bodyless:
  assumes "rs_set_payload_length h st PLNone = (Ok pl, h')" "rs_version h = HTTP_11" "rs_status h \<noteq> 101"
  shows "pl = PNone \<and> cl_payload (clc_response c h' pl) = None"
proof -
  have "rs_version (case st_ka st of None \<Rightarrow> h | Some ka \<Rightarrow> rs_set_connection_type ka h) = HTTP_11"
    "rs_status (case st_ka st of None \<Rightarrow> h | Some ka \<Rightarrow> rs_set_connection_type ka h) \<noteq> 101"
    using assms(2,3) by (simp_all split: option.split)
  with assms(1) have "pl = PNone"
    by (auto simp: rs_set_payload_length_def Let_def pl_is_zero_def)
  then show ?thesis by (simp add: clc_response_def Let_def split: option.split)
qed

text \<open>
  A response of HTTP/1.0 without a connection header does not end the connection: the codec only asks for an
  explicit connection type, while the default of the version is to close.
\<close>

lemma http10_response_kept:
  assumes "rs_ctype res = None" "rs_version res = HTTP_10" "clc_keepalive c"
  shows "clc_keepalive (clc_response c res pl)" "rs_connection_type res = Close"
  using assms
  by (auto simp: clc_keepalive_def clc_response_ctype rs_ctype_def rs_connection_type_def less_version_def split: if_splits)

end
