(* ===== verification/Client_H1.thy ===== *)
theory Client_H1
  imports Client_Codec H1_Dispatcher Pool_Runs
begin

text \<open>
  One exchange over a connection of the client (\<^verbatim>\<open>geario-http/src/client/h1proto.rs\<close> and
  \<^verbatim>\<open>Connection::send_request\<close> of \<^verbatim>\<open>client/connection.rs\<close>): the request is written, its body sent, the head of the
  response read, and the body of the response is a stream that gives the connection back to the pool at its
  end.

  The IO object is that of the dispatcher: a read buffer, an output, a list of the events still to come and
  one of the answers to flushes. Reading runs the decoder on the buffer and takes the next event when the decoder
  needs more; without an event it waits. What else belongs to other crates is the record \<open>client_env\<close>. \<^const>\<open>None\<close>
  is a panic; the number of a stream stands for the IO object in the pool.
\<close>

section \<open>Reading and flushing\<close>

record 's client_env =
  cv_parse :: "'s parse_env"
  cv_pcs :: chunk_size_fun
  cv_uri :: uri_ops
  cv_path :: "uri \<Rightarrow> string option"
  cv_parse_name :: "string \<Rightarrow> header_name option"
  cv_enc :: enc_env
  cv_cfg :: http_service_config
  cv_debug :: bool
  cv_backpressure :: "bytes \<Rightarrow> bool"
  cv_ka_error :: io_error

datatype 'e rcv_error =
    RcvBackpressure
  | RcvKeepAlive
  | RcvPeerGone "io_error option"
  | RcvDecoder 'e

fun poll_recv_on ::
  "('d \<Rightarrow> bytes \<Rightarrow> (('e + 'i option) \<times> 'd \<times> bytes) option) \<Rightarrow> io_event list \<Rightarrow> 'd \<Rightarrow> conn_io \<Rightarrow>
   (('e rcv_error + 'i) poll \<times> 'd \<times> conn_io) option" where
  "poll_recv_on decode evs d io =
     (case decode d (ci_rbuf io) of
        None \<Rightarrow> None
      | Some (Err e, d, buf) \<Rightarrow> Some (Ready (Err (RcvDecoder e)), d, io\<lparr>ci_rbuf := buf, ci_events := evs\<rparr>)
      | Some (Ok (Some i), d, buf) \<Rightarrow> Some (Ready (Ok i), d, io\<lparr>ci_rbuf := buf, ci_events := evs\<rparr>)
      | Some (Ok None, d, buf) \<Rightarrow>
          (case evs of
             [] \<Rightarrow> Some (Pending, d, io\<lparr>ci_rbuf := buf, ci_events := []\<rparr>)
           | EvRead new # evs \<Rightarrow> poll_recv_on decode evs d (io\<lparr>ci_rbuf := buf @ new\<rparr>)
           | EvBackpressure # evs \<Rightarrow> Some (Ready (Err RcvBackpressure), d, io\<lparr>ci_rbuf := buf, ci_events := evs\<rparr>)
           | EvKeepAlive # evs \<Rightarrow> Some (Ready (Err RcvKeepAlive), d, io\<lparr>ci_rbuf := buf, ci_events := evs\<rparr>)
           | EvPeerGone e # evs \<Rightarrow>
               Some (Ready (Err (RcvPeerGone e)), d, io\<lparr>ci_rbuf := buf, ci_events := evs, ci_closed := True\<rparr>)))"

declare poll_recv_on.simps [simp del]

definition poll_recv ::
  "('d \<Rightarrow> bytes \<Rightarrow> (('e + 'i option) \<times> 'd \<times> bytes) option) \<Rightarrow> 'd \<Rightarrow> conn_io \<Rightarrow>
   (('e rcv_error + 'i) poll \<times> 'd \<times> conn_io) option" where
  "poll_recv decode d io = poll_recv_on decode (ci_events io) d io"

lemma poll_recv_on_events:
  "poll_recv_on decode evs d io = Some (r, d', io') \<Longrightarrow>
   length (ci_events io') \<le> length evs \<and>
   (r \<in> {Ready (Err RcvBackpressure), Ready (Err RcvKeepAlive)} \<or> (\<exists>e. r = Ready (Err (RcvPeerGone e))) \<longrightarrow>
      length (ci_events io') < length evs) \<and>
   ci_flush io' = ci_flush io"
proof (induction evs arbitrary: d io r)
  case Nil
  then show ?case
    by (subst (asm) poll_recv_on.simps) (auto split: option.splits sum.splits)
next
  case (Cons ev evs)
  from Cons.prems show ?case
    by (subst (asm) poll_recv_on.simps)
      (auto split: option.splits sum.splits io_event.splits dest!: Cons.IH)
qed

text \<open>Waiting for a flush: the answers that it is pending are passed over.\<close>

definition flush_await :: "conn_io \<Rightarrow> (io_error + unit) \<times> conn_io" where
  "flush_await io =
     (case dropWhile (\<lambda>a. a = Pending) (ci_flush io) of
        Ready r # as \<Rightarrow> (r, io\<lparr>ci_flush := as\<rparr>)
      | _ \<Rightarrow> (Ok (), io\<lparr>ci_flush := []\<rparr>))"

lemma flush_await_events: "flush_await io = (r, io') \<Longrightarrow> ci_events io' = ci_events io"
  by (auto simp: flush_await_def split: list.splits poll.splits)

text \<open>Waiting for an item; \<^const>\<open>Pending\<close> if the events end before.\<close>

function recv_await ::
  "io_error \<Rightarrow> ('d \<Rightarrow> bytes \<Rightarrow> (('e + 'i option) \<times> 'd \<times> bytes) option) \<Rightarrow> 'd \<Rightarrow> conn_io \<Rightarrow>
   ((('e + io_error) + 'i option) poll \<times> 'd \<times> conn_io) option" where
  "recv_await ka decode d io =
     (case poll_recv decode d io of
        None \<Rightarrow> None
      | Some (Pending, d, io) \<Rightarrow> Some (Pending, d, io)
      | Some (Ready (Ok i), d, io) \<Rightarrow> Some (Ready (Ok (Some i)), d, io)
      | Some (Ready (Err RcvKeepAlive), d, io) \<Rightarrow> Some (Ready (Err (Inr ka)), d, io)
      | Some (Ready (Err (RcvDecoder e)), d, io) \<Rightarrow> Some (Ready (Err (Inl e)), d, io)
      | Some (Ready (Err (RcvPeerGone (Some e))), d, io) \<Rightarrow> Some (Ready (Err (Inr e)), d, io)
      | Some (Ready (Err (RcvPeerGone None)), d, io) \<Rightarrow> Some (Ready (Ok None), d, io)
      | Some (Ready (Err RcvBackpressure), d, io) \<Rightarrow>
          (case flush_await io of
             (Err e, io) \<Rightarrow> Some (Ready (Err (Inr e)), d, io)
           | (Ok _, io) \<Rightarrow> recv_await ka decode d io))"
  by pat_completeness auto
termination
  by (relation "measure (\<lambda>(ka, decode, d, io). length (ci_events io))")
    (auto simp: poll_recv_def dest!: poll_recv_on_events dest: flush_await_events [OF sym])

declare recv_await.simps [simp del]

section \<open>The request\<close>

definition host_text :: "uri_ops \<Rightarrow> uri \<Rightarrow> string option" where
  "host_text uo u =
     (case uri_host uo u of
        None \<Rightarrow> None
      | Some host \<Rightarrow>
          Some (case uri_port uo u of
                  None \<Rightarrow> host
                | Some port \<Rightarrow> if port = 80 \<or> port = 443 then host else host @ '':'' @ dec port))"

definition set_request_host :: "'s client_env \<Rightarrow> client_raw_request \<Rightarrow> client_raw_request" where
  "set_request_host env req =
     (let head = cr_head req
      in if \<not> hm_contains_key (cv_parse_name env) (rq_headers head) (Left H_HOST) then
           (case host_text (cv_uri env) (rq_uri head) of
              None \<Rightarrow> req
            | Some txt \<Rightarrow>
                (case hv_from_shared txt of
                   Ok value \<Rightarrow> req\<lparr>cr_head := head\<lparr>rq_headers := hm_insert (rq_headers head) H_HOST value\<rparr>\<rparr>
                 | Err _ \<Rightarrow> req))
         else req)"

text \<open>\<^verbatim>\<open>io.send\<close>: the item is encoded and flushed.\<close>

definition send_item ::
  "'s client_env \<Rightarrow> date_service \<Rightarrow> client_raw_request \<Rightarrow> 's client_codec \<Rightarrow> conn_io \<Rightarrow>
   ((client_error + unit) \<times> 's client_codec \<times> conn_io \<times> date_service) option" where
  "send_item env ds req c io =
     (case clc_encodev (cv_path env) (cv_enc env) ds c (MItem req) (ci_out io) of
        None \<Rightarrow> None
      | Some (Err e, c, out, ds) \<Rightarrow> Some (Err (cl_from_encode (Inl e)), c, io\<lparr>ci_out := out\<rparr>, ds)
      | Some (Ok _, c, out, ds) \<Rightarrow>
          (case flush_await (io\<lparr>ci_out := out\<rparr>) of
             (Err e, io) \<Rightarrow> Some (Err (cl_from_encode (Inr e)), c, io, ds)
           | (Ok _, io) \<Rightarrow> Some (Ok (), c, io, ds)))"

text \<open>The loop of \<^verbatim>\<open>send_body\<close> over the chunks the body yields, and its end.\<close>

definition send_chunk ::
  "'s client_env \<Rightarrow> date_service \<Rightarrow> bytes \<Rightarrow> 's client_codec \<Rightarrow> conn_io \<Rightarrow> ((client_error + unit) \<times> 's client_codec \<times> conn_io) option" where
  "send_chunk env ds chunk c io =
     (case clc_encodev (cv_path env) (cv_enc env) ds c (MChunk (Some chunk)) (ci_out io) of
        None \<Rightarrow> None
      | Some (Err e, c, out, _) \<Rightarrow> Some (Err (ClRequest e), c, io\<lparr>ci_out := out\<rparr>)
      | Some (Ok _, c, out, _) \<Rightarrow>
          (let io = io\<lparr>ci_out := out\<rparr>
           in if cv_backpressure env out then
                (case flush_await io of
                   (Err e, io) \<Rightarrow> Some (Err (ClSend e), c, io)
                 | (Ok _, io) \<Rightarrow> Some (Ok (), c, io))
              else Some (Ok (), c, io)))"

fun send_chunks ::
  "'s client_env \<Rightarrow> date_service \<Rightarrow> bytes list \<Rightarrow> 's client_codec \<Rightarrow> conn_io \<Rightarrow> ((client_error + unit) \<times> 's client_codec \<times> conn_io) option" where
  "send_chunks env ds [] c io = Some (Ok (), c, io)"
| "send_chunks env ds (chunk # chunks) c io =
     (case send_chunk env ds chunk c io of
        None \<Rightarrow> None
      | Some (Err e, c, io) \<Rightarrow> Some (Err e, c, io)
      | Some (Ok _, c, io) \<Rightarrow> send_chunks env ds chunks c io)"

definition send_eof ::
  "'s client_env \<Rightarrow> date_service \<Rightarrow> 's client_codec \<Rightarrow> conn_io \<Rightarrow> ((client_error + unit) \<times> 's client_codec \<times> conn_io) option" where
  "send_eof env ds c io =
     (case clc_encodev (cv_path env) (cv_enc env) ds c (MChunk None) (ci_out io) of
        None \<Rightarrow> None
      | Some (Err e, c, out, _) \<Rightarrow> Some (Err (ClRequest e), c, io\<lparr>ci_out := out\<rparr>)
      | Some (Ok _, c, out, _) \<Rightarrow>
          (case flush_await (io\<lparr>ci_out := out\<rparr>) of
             (Err e, io) \<Rightarrow> Some (Err (ClSend e), c, io)
           | (Ok _, io) \<Rightarrow> Some (Ok (), c, io)))"

definition send_body ::
  "'s client_env \<Rightarrow> date_service \<Rightarrow> body \<Rightarrow> 's client_codec \<Rightarrow> conn_io \<Rightarrow> ((client_error + unit) \<times> 's client_codec \<times> conn_io) option" where
  "send_body env ds body c io =
     (let (chunks, err) = collect (RBOther body)
      in case send_chunks env ds chunks c io of
           None \<Rightarrow> None
         | Some (Err e, c, io) \<Rightarrow> Some (Err e, c, io)
         | Some (Ok _, c, io) \<Rightarrow>
             (case err of
                Some e \<Rightarrow> Some (Err (ClError e), c, io)
              | None \<Rightarrow> send_eof env ds c io))"

section \<open>The response\<close>

text \<open>\<^verbatim>\<open>release_connection\<close>; without a guard the stream is just dropped.\<close>

definition release_connection :: "nat \<Rightarrow> conn_io \<Rightarrow> bool \<Rightarrow> nat \<Rightarrow> pool_key option \<Rightarrow> conn_pool \<Rightarrow> conn_pool option" where
  "release_connection n io force_close created guard p =
     (case guard of
        None \<Rightarrow> Some p
      | Some key \<Rightarrow>
          acquired_release key (connection_new (H1 n) created None)
            (force_close \<or> ci_closed io \<or> ci_rbuf io \<noteq> []) p)"

record 's pl_stream =
  ps_id :: nat
  ps_io :: "conn_io option"
  ps_codec :: "'s client_codec"
  ps_created :: nat
  ps_http_10 :: bool
  ps_pool :: "pool_key option"

definition pl_new :: "nat \<Rightarrow> conn_io \<Rightarrow> 's client_codec \<Rightarrow> nat \<Rightarrow> pool_key option \<Rightarrow> bool \<Rightarrow> 's pl_stream" where
  "pl_new n io c created guard http_10 =
     \<lparr>ps_id = n, ps_io = Some io, ps_codec = c, ps_created = created, ps_http_10 = http_10, ps_pool = guard\<rparr>"

lemma poll_flush_events: "io_poll_flush io = (r, io') \<Longrightarrow> ci_events io' = ci_events io"
  by (auto simp: io_poll_flush_def split: list.splits)

function pl_poll_next ::
  "'s client_env \<Rightarrow> 's pl_stream \<Rightarrow> conn_pool \<Rightarrow> ((payload_error + bytes) option poll \<times> 's pl_stream \<times> conn_pool) option" where
  "pl_poll_next env s p =
     (case ps_io s of
        None \<Rightarrow> None
      | Some io \<Rightarrow>
          (case poll_recv (clp_decode (cv_pcs env)) (ps_codec s) io of
             None \<Rightarrow> None
           | Some (r, c, io) \<Rightarrow>
               (let s = s\<lparr>ps_codec := c, ps_io := Some io\<rparr>
                in case r of
                     Pending \<Rightarrow> Some (Pending, s, p)
                   | Ready (Ok (Some chunk)) \<Rightarrow> Some (Ready (Some (Ok chunk)), s, p)
                   | Ready (Ok None) \<Rightarrow>
                       map_option (\<lambda>p. (Ready None, s\<lparr>ps_io := None, ps_pool := None\<rparr>, p))
                         (release_connection (ps_id s) io (\<not> clc_keepalive c) (ps_created s) (ps_pool s) p)
                   | Ready (Err RcvKeepAlive) \<Rightarrow> Some (Ready (Some (Err (PeIo (IoTimedOut ''Keep-alive'')))), s, p)
                   | Ready (Err RcvBackpressure) \<Rightarrow>
                       (case io_poll_flush io of
                          (Pending, io) \<Rightarrow> Some (Pending, s\<lparr>ps_io := Some io\<rparr>, p)
                        | (Ready (Err e), io) \<Rightarrow> Some (Ready (Some (Err (PeIo e))), s\<lparr>ps_io := Some io\<rparr>, p)
                        | (Ready (Ok _), io) \<Rightarrow> pl_poll_next env (s\<lparr>ps_io := Some io\<rparr>) p)
                   | Ready (Err (RcvDecoder e)) \<Rightarrow> Some (Ready (Some (Err e)), s, p)
                   | Ready (Err (RcvPeerGone (Some e))) \<Rightarrow> Some (Ready (Some (Err (PeIncomplete (Some e)))), s, p)
                   | Ready (Err (RcvPeerGone None)) \<Rightarrow>
                       if ps_http_10 s then Some (Ready None, s, p)
                       else Some (Ready (Some (Err (PeIncomplete None))), s, p))))"
  by pat_completeness auto
termination
  by (relation "measure (\<lambda>(env, s, p). case ps_io s of None \<Rightarrow> 0 | Some io \<Rightarrow> length (ci_events io))")
    (auto simp: poll_recv_def dest!: poll_recv_on_events dest: poll_flush_events [OF sym])

declare pl_poll_next.simps [simp del]

text \<open>Dropping the stream drops the guard, if it still has it.\<close>

definition pl_drop :: "'s pl_stream \<Rightarrow> conn_pool \<Rightarrow> conn_pool option" where
  "pl_drop s p = (case ps_pool s of Some _ \<Rightarrow> acquired_drop p | None \<Rightarrow> Some p)"

section \<open>The exchange\<close>

text \<open>A failed exchange drops the stream and the guard.\<close>

definition fail_request ::
  "pool_key option \<Rightarrow> client_error \<Rightarrow> conn_pool \<Rightarrow> ((client_error + response_head \<times> 's pl_stream option) poll \<times> conn_pool) option" where
  "fail_request guard e p =
     map_option (Pair (Ready (Err e))) (case guard of Some _ \<Rightarrow> acquired_drop p | None \<Rightarrow> Some p)"

text \<open>The part after the request has been sent; \<open>late\<close> says that the timeout, if there is one, passes first.\<close>

definition read_response ::
  "'s client_env \<Rightarrow> nat \<Rightarrow> bool \<Rightarrow> nat \<Rightarrow> pool_key option \<Rightarrow> nat \<Rightarrow> 's client_codec \<Rightarrow> conn_io \<Rightarrow> conn_pool \<Rightarrow>
   ((client_error + response_head \<times> 's pl_stream option) poll \<times> conn_pool) option" where
  "read_response env timeout late created guard n c io p =
     (if timeout \<noteq> 0 \<and> late then fail_request guard ClTimeout p
      else
        (case recv_await (cv_ka_error env) (clc_decode (cv_debug env) (cv_parse env)) c io of
           None \<Rightarrow> None
         | Some (Pending, c, io) \<Rightarrow> Some (Pending, p)
         | Some (Ready (Err e), c, io) \<Rightarrow> fail_request guard (cl_from_decode e) p
         | Some (Ready (Ok None), c, io) \<Rightarrow> fail_request guard (ClConnect (CeDisconnected None)) p
         | Some (Ready (Ok (Some head)), c, io) \<Rightarrow>
             if clc_message_type c = MkNone then
               map_option (Pair (Ready (Ok (head, None)))) (release_connection n io (\<not> clc_keepalive c) created guard p)
             else Some (Ready (Ok (head, Some (pl_new n io c created guard (rs_version head = HTTP_10)))), p)))"

definition send_request ::
  "'s client_env \<Rightarrow> date_service \<Rightarrow> client_raw_request \<Rightarrow> body \<Rightarrow> nat \<Rightarrow> bool \<Rightarrow> nat \<Rightarrow> pool_key option \<Rightarrow> nat \<Rightarrow> conn_io \<Rightarrow> conn_pool \<Rightarrow>
   ((client_error + response_head \<times> 's pl_stream option) poll \<times> conn_pool) option" where
  "send_request env ds req body timeout late created guard n io p =
     (let req = set_request_host env req
      in case send_item env ds req (clc_new (cv_parse env) True (cv_cfg env)) io of
           None \<Rightarrow> None
         | Some (Err e, c, io, ds) \<Rightarrow> fail_request guard e p
         | Some (Ok _, c, io, ds) \<Rightarrow>
             (if body_size_of body \<in> {SzNone, SzEmpty, SzSized 0} then read_response env timeout late created guard n c io p
              else
                (case send_body env ds body c io of
                   None \<Rightarrow> None
                 | Some (Err e, c, io) \<Rightarrow> fail_request guard e p
                 | Some (Ok _, c, io) \<Rightarrow> read_response env timeout late created guard n c io p)))"

text \<open>\<^verbatim>\<open>Connection::send_request\<close>; the IO object of the stream is an argument.\<close>

definition connection_send_request ::
  "'s client_env \<Rightarrow> date_service \<Rightarrow> client_raw_request \<Rightarrow> body \<Rightarrow> nat \<Rightarrow> bool \<Rightarrow> (nat \<Rightarrow> conn_io) \<Rightarrow> client_connection \<Rightarrow> conn_pool \<Rightarrow>
   ((client_error + response_head \<times> 's pl_stream option) poll \<times> conn_pool) option" where
  "connection_send_request env ds req body timeout late ios conn p =
     (case cx_io conn of
        None \<Rightarrow> None
      | Some (H1 n) \<Rightarrow>
          send_request env ds (req\<lparr>cr_head := (cr_head req)\<lparr>rq_version := HTTP_11\<rparr>\<rparr>) body timeout late
            (cx_created conn) (cx_pool conn) n (ios n) p)"

end
