(* ===== verification/Client_Exchange.thy ===== *)
theory Client_Exchange
  imports Client_H1
begin

text \<open>
  What an exchange of the client delivers and what it leaves behind: the body of a response arrives
  unchanged however it is cut, and a connection goes back to the pool for another request only after a complete
  response with nothing left unread, if both sides keep it.
\<close>

section \<open>Reading a stream to its end\<close>

fun codec_rank :: "'s client_codec \<Rightarrow> bytes \<Rightarrow> nat" where
  "codec_rank c buf = 3 * length buf + (case cl_payload c of None \<Rightarrow> 0 | Some pd \<Rightarrow> pd_measure pd)"

lemma clp_decode_progress:
  "clp_decode pcs c src = Some (Ok (Some (Some b)), c', src') \<Longrightarrow> codec_rank c' src' < codec_rank c src"
  by (auto simp: clp_decode_def simp del: pd_decode.simps pd_measure.simps
      split: option.splits sum.splits payload_item.splits dest!: pd_decode_chunk_progress)

lemma poll_recv_on_progress:
  assumes "poll_recv_on (clp_decode pcs) evs c io = Some (Ready (Ok (Some b)), c', io')"
  shows "length (ci_events io') < length evs \<or>
    length (ci_events io') = length evs \<and> codec_rank c' (ci_rbuf io') < codec_rank c (ci_rbuf io)"
  using assms
  by (subst (asm) poll_recv_on.simps)
    (auto simp del: codec_rank.simps split: option.splits sum.splits list.splits io_event.splits
      dest!: clp_decode_progress poll_recv_on_events)

definition stream_rank :: "'s pl_stream \<Rightarrow> nat \<times> nat" where
  "stream_rank s =
     (case ps_io s of None \<Rightarrow> (0, 0) | Some io \<Rightarrow> (length (ci_events io), codec_rank (ps_codec s) (ci_rbuf io)))"

lemma pl_poll_next_progress:
  "pl_poll_next env s p = Some (Ready (Some (Ok b)), s', p') \<Longrightarrow> (stream_rank s', stream_rank s) \<in> less_than <*lex*> less_than"
proof (induction env s p rule: pl_poll_next.induct)
  case (1 env s p)
  obtain io r c io1 where io: "ps_io s = Some io" "poll_recv (clp_decode (cv_pcs env)) (ps_codec s) io = Some (r, c, io1)"
    using "1.prems" by (auto simp: pl_poll_next.simps [of env s p] split: option.splits)
  note recv = io(2) [unfolded poll_recv_def]
  show ?case
  proof (cases "r = Ready (Err RcvBackpressure)")
    case True
    then obtain io2 where f: "io_poll_flush io1 = (Ready (Ok ()), io2)"
      "pl_poll_next env (s\<lparr>ps_codec := c, ps_io := Some io2\<rparr>) p = Some (Ready (Some (Ok b)), s', p')"
      using "1.prems" io by (auto simp: pl_poll_next.simps [of env s p] Let_def split: prod.splits poll.splits sum.splits)
    have "(stream_rank s', stream_rank (s\<lparr>ps_codec := c, ps_io := Some io2\<rparr>)) \<in> less_than <*lex*> less_than"
      using "1.IH" [OF io(1) io(2) _ _ _ True] f by simp
    moreover have "(stream_rank (s\<lparr>ps_codec := c, ps_io := Some io2\<rparr>), stream_rank s) \<in> less_than <*lex*> less_than"
      using poll_recv_on_events [OF recv] True poll_flush_events [OF f(1)] io(1) by (simp add: stream_rank_def)
    ultimately show ?thesis by (rule transD [OF trans_lex_prod [OF trans_less_than trans_less_than]])
  next
    case False
    then have "r = Ready (Ok (Some b))" "s' = s\<lparr>ps_codec := c, ps_io := Some io1\<rparr>"
      using "1.prems" io
      by (auto simp: pl_poll_next.simps [of env s p] Let_def split: option.splits poll.splits sum.splits rcv_error.splits if_splits)
    with poll_recv_on_progress [of "cv_pcs env" "ci_events io" "ps_codec s" io b c io1] recv io(1) show ?thesis
      by (auto simp: stream_rank_def simp del: codec_rank.simps)
  qed
qed

datatype pl_end = PlWaiting | PlDone | PlFailed payload_error

function pl_run ::
  "'s client_env \<Rightarrow> 's pl_stream \<Rightarrow> conn_pool \<Rightarrow> (bytes list \<times> pl_end \<times> 's pl_stream \<times> conn_pool) option" where
  "pl_run env s p =
     (case pl_poll_next env s p of
        None \<Rightarrow> None
      | Some (Pending, s, p) \<Rightarrow> Some ([], PlWaiting, s, p)
      | Some (Ready None, s, p) \<Rightarrow> Some ([], PlDone, s, p)
      | Some (Ready (Some (Err e)), s, p) \<Rightarrow> Some ([], PlFailed e, s, p)
      | Some (Ready (Some (Ok chunk)), s, p) \<Rightarrow> prepend [chunk] (pl_run env s p))"
  by pat_completeness auto
termination
  by (relation "inv_image (less_than <*lex*> less_than) (\<lambda>(env, s, p). stream_rank s)")
    (auto intro: pl_poll_next_progress)

declare pl_run.simps [simp del]

section \<open>The bytes of a body\<close>

lemma feed_first_chunk:
  assumes "pd_decode pcs pd buf = Some (Ok (Some (Chunk b)), pd', buf')"
  shows "feed (drain pcs) pd [] (buf # fs) = prepend b (feed (drain pcs) pd' [] (buf' # fs))"
  using drain_prepend [OF assms]
  by (cases "drain pcs pd' buf'") (auto split: drain_end.split)

lemma feed_need_more:
  assumes "pd_decode pcs pd buf = Some (Ok None, pd', buf')"
  shows "feed (drain pcs) pd [] [buf] = Some ([], NeedMore, pd', buf')"
    and "feed (drain pcs) pd [] (buf # f # fs) = feed (drain pcs) pd' [] ((buf' @ f) # fs)"
  using assms by (simp_all add: drain.simps [of pcs pd buf] del: pd_decode.simps)

text \<open>What has been read and not consumed when a body ends whose bytes arrive piece by piece.\<close>

fun unread :: "chunk_size_fun \<Rightarrow> payload_decoder \<Rightarrow> bytes \<Rightarrow> bytes list \<Rightarrow> bytes" where
  "unread pcs pd buf fs =
     (case drain pcs pd buf of
        Some (_, NeedMore, pd', buf') \<Rightarrow> (case fs of [] \<Rightarrow> buf' | f # fs \<Rightarrow> unread pcs pd' (buf' @ f) fs)
      | Some (_, _, _, buf') \<Rightarrow> buf'
      | None \<Rightarrow> [])"

declare unread.simps [simp del]

lemma unread_chunk: "pd_decode pcs pd buf = Some (Ok (Some (Chunk b)), pd', buf') \<Longrightarrow> unread pcs pd buf fs = unread pcs pd' buf' fs"
  using drain_prepend [of pcs pd buf b pd' buf']
  by (simp add: unread.simps [of pcs pd buf] unread.simps [of pcs pd' buf'] prepend_def split: option.split drain_end.split)

lemma unread_eof: "pd_decode pcs pd buf = Some (Ok (Some Eof), pd', buf') \<Longrightarrow> unread pcs pd buf fs = buf'"
  by (simp add: unread.simps [of pcs pd buf] drain.simps [of pcs pd buf] del: pd_decode.simps)

lemma unread_need_more: "pd_decode pcs pd buf = Some (Ok None, pd', buf') \<Longrightarrow> unread pcs pd buf (f # fs) = unread pcs pd' (buf' @ f) fs"
  by (simp add: unread.simps [of pcs pd buf] drain.simps [of pcs pd buf] del: pd_decode.simps)

text \<open>The body ends with the read \<open>m\<close>, counted from the bytes already buffered, and this read brings \<open>rest\<close> in addition.\<close>

definition ends_in :: "chunk_size_fun \<Rightarrow> payload_decoder \<Rightarrow> bytes \<Rightarrow> bytes list \<Rightarrow> nat \<Rightarrow> bytes \<Rightarrow> bool" where
  "ends_in pcs pd buf fs m rest \<longleftrightarrow> m \<le> length fs \<and>
     (\<exists>data pd'. drain pcs pd (buf @ concat (take m fs)) = Some (data, AtEof, pd', rest)) \<and>
     (\<forall>j < m. \<nexists>data pd' rest. drain pcs pd (buf @ concat (take j fs)) = Some (data, AtEof, pd', rest))"

lemma unread_ends_in:
  assumes "chunk_size_contract pcs" "drain pcs pd (buf @ concat fs) = Some (data, AtEof, pd', left)"
  shows "\<exists>m. ends_in pcs pd buf fs m (unread pcs pd buf fs)"
  using assms(2)
proof (induction fs arbitrary: pd buf data)
  case Nil
  then show ?case by (auto simp: ends_in_def unread.simps [of pcs pd buf] intro!: exI [of _ 0])
next
  case (Cons f fs)
  note app = payload.run_append [OF assms(1), of pd buf]
  obtain d e pd1 b where d: "drain pcs pd buf = Some (d, e, pd1, b)"
    using Cons.prems app [of "concat (f # fs)"] by (auto simp: resume_def split: option.splits)
  show ?case
  proof (cases "e = NeedMore")
    case True
    have eq: "drain pcs pd (buf @ x) = prepend d (drain pcs pd1 (b @ x))" for x
      using app [of x] d True by (simp add: resume_def)
    with Cons.prems obtain d1 where "drain pcs pd1 ((b @ f) @ concat fs) = Some (d1, AtEof, pd', left)"
      by (auto simp: prepend_def split: option.splits)
    from Cons.IH [OF this] obtain m where m: "ends_in pcs pd1 (b @ f) fs m (unread pcs pd1 (b @ f) fs)" by blast
    have "ends_in pcs pd buf (f # fs) (Suc m) (unread pcs pd1 (b @ f) fs)"
      using m d True eq [of "f @ concat (take j fs)" for j]
      by (auto simp: ends_in_def less_Suc_eq_0_disj prepend_def split: option.splits)
    then show ?thesis using d True by (auto simp: unread.simps [of pcs pd buf])
  next
    case False
    with d Cons.prems app [of "concat (f # fs)"] have "e = AtEof"
      by (auto simp: resume_def split: drain_end.splits)
    with d show ?thesis by (auto simp: ends_in_def unread.simps [of pcs pd buf] intro!: exI [of _ 0])
  qed
qed

text \<open>
  One poll on a stream of reads: it waits at the end of the reads, delivers a chunk, reports the end or fails, as
  the decoder does on the same bytes.
\<close>

definition poll_agrees ::
  "chunk_size_fun \<Rightarrow> (payload_error rcv_error + bytes option) poll \<Rightarrow> 's client_codec \<Rightarrow> conn_io \<Rightarrow>
   bytes \<times> decode_error drain_end \<times> payload_decoder \<times> bytes \<Rightarrow> bytes \<Rightarrow> bool" where
  "poll_agrees pcs r c io d rest \<longleftrightarrow>
     (case r of
        Pending \<Rightarrow> fst d = [] \<and> fst (snd d) = NeedMore
      | Ready (Ok (Some b)) \<Rightarrow>
          (\<exists>pd fs data. cl_payload c = Some pd \<and> ci_events io = map EvRead fs \<and> fst d = b @ data \<and>
             feed (drain pcs) pd [] (ci_rbuf io # fs) = Some (data, snd d) \<and> unread pcs pd (ci_rbuf io) fs = rest)
      | Ready (Ok None) \<Rightarrow>
          fst d = [] \<and> fst (snd d) = AtEof \<and> ci_rbuf io = rest
      | Ready (Err (RcvDecoder (PeDecode err))) \<Rightarrow> fst d = [] \<and> fst (snd d) = Failed err
      | _ \<Rightarrow> False)"

lemma poll_recv_on_now:
  assumes "clp_decode pcs c (ci_rbuf io) = Some (r, c', buf)" "r \<noteq> Ok None"
  shows "poll_recv_on (clp_decode pcs) evs c io =
    Some (Ready (map_sum RcvDecoder the r), c', io\<lparr>ci_rbuf := buf, ci_events := evs\<rparr>)"
  using assms by (cases r) (auto simp: poll_recv_on.simps [of "clp_decode pcs" evs])

lemma poll_recv_reads_now:
  assumes "feed (drain pcs) pd [] (ci_rbuf io # fs) = Some d" "cl_payload c = Some pd"
    and "\<nexists>pd' buf. pd_decode pcs pd (ci_rbuf io) = Some (Ok None, pd', buf)"
  shows "\<exists>r c' io'. poll_recv_on (clp_decode pcs) (map EvRead fs) c io = Some (r, c', io') \<and> poll_agrees pcs r c' io' d (unread pcs pd (ci_rbuf io) fs) \<and>
    ci_closed io' = ci_closed io \<and> cl_ctype c' = cl_ctype c"
proof (cases "pd_decode pcs pd (ci_rbuf io)")
  case None
  then have "drain pcs pd (ci_rbuf io) = None" by (simp add: drain.simps [of pcs pd] del: pd_decode.simps)
  with assms(1) show ?thesis by simp
next
  case (Some y)
  then obtain x pd' buf where y: "pd_decode pcs pd (ci_rbuf io) = Some (x, pd', buf)" by (cases y) auto
  show ?thesis
  proof (cases x)
    case (Inl err)
    then have "clp_decode pcs c (ci_rbuf io) = Some (Err (PeDecode err), c\<lparr>cl_payload := Some pd'\<rparr>, buf)"
      using y assms(2) by (simp add: clp_decode_def del: pd_decode.simps)
    from poll_recv_on_now [OF this] y Inl assms(1) show ?thesis
      by (auto simp: poll_agrees_def drain.simps [of pcs pd "ci_rbuf io"] simp del: pd_decode.simps)
  next
    case (Inr i)
    with y assms(3) obtain j where x: "x = Ok (Some j)" by (cases i) auto
    show ?thesis
    proof (cases j)
      case (Chunk b)
      then have "clp_decode pcs c (ci_rbuf io) = Some (Ok (Some (Some b)), c\<lparr>cl_payload := Some pd'\<rparr>, buf)"
        using y x assms(2) by (simp add: clp_decode_def del: pd_decode.simps)
      moreover obtain data where "feed (drain pcs) pd' [] (buf # fs) = Some (data, snd d)" "fst d = b @ data"
        using feed_first_chunk [of pcs pd "ci_rbuf io" b pd' buf fs] y x Chunk assms(1)
        by (auto simp: prepend_def simp del: feed.simps pd_decode.simps split: option.splits)
      moreover have "unread pcs pd (ci_rbuf io) fs = unread pcs pd' buf fs"
        using unread_chunk y x Chunk by simp
      ultimately show ?thesis
        using poll_recv_on_now [of pcs c io "Ok (Some (Some b))"] by (auto simp: poll_agrees_def simp del: feed.simps)
    next
      case Eof
      then have "clp_decode pcs c (ci_rbuf io) = Some (Ok (Some None), c\<lparr>cl_payload := None\<rparr>, buf)"
        using y x assms(2) by (simp add: clp_decode_def del: pd_decode.simps)
      from poll_recv_on_now [OF this] y x Eof assms(1) unread_eof [of pcs pd "ci_rbuf io"] show ?thesis
        by (auto simp: poll_agrees_def drain.simps [of pcs pd "ci_rbuf io"] simp del: pd_decode.simps)
    qed
  qed
qed

lemma poll_recv_reads:
  assumes "feed (drain pcs) pd [] (ci_rbuf io # fs) = Some d" "cl_payload c = Some pd"
  shows "\<exists>r c' io'. poll_recv_on (clp_decode pcs) (map EvRead fs) c io = Some (r, c', io') \<and> poll_agrees pcs r c' io' d (unread pcs pd (ci_rbuf io) fs) \<and>
    ci_closed io' = ci_closed io \<and> cl_ctype c' = cl_ctype c"
  using assms
proof (induction fs arbitrary: pd c io)
  case Nil
  show ?case
  proof (cases "\<exists>pd' buf. pd_decode pcs pd (ci_rbuf io) = Some (Ok None, pd', buf)")
    case True
    then obtain pd' buf where y: "pd_decode pcs pd (ci_rbuf io) = Some (Ok None, pd', buf)" by blast
    then have "clp_decode pcs c (ci_rbuf io) = Some (Ok None, c\<lparr>cl_payload := Some pd'\<rparr>, buf)"
      using Nil by (simp add: clp_decode_def del: pd_decode.simps)
    with feed_need_more(1) [OF y] Nil show ?thesis
      by (auto simp: poll_recv_on.simps [of _ "[]"] poll_agrees_def simp del: feed.simps)
  next
    case False
    with poll_recv_reads_now [OF Nil.prems] show ?thesis by blast
  qed
next
  case (Cons f fs)
  show ?case
  proof (cases "\<exists>pd' buf. pd_decode pcs pd (ci_rbuf io) = Some (Ok None, pd', buf)")
    case True
    then obtain pd' buf where y: "pd_decode pcs pd (ci_rbuf io) = Some (Ok None, pd', buf)" by blast
    then have c: "clp_decode pcs c (ci_rbuf io) = Some (Ok None, c\<lparr>cl_payload := Some pd'\<rparr>, buf)"
      using Cons.prems by (simp add: clp_decode_def del: pd_decode.simps)
    have "feed (drain pcs) pd' [] (ci_rbuf (io\<lparr>ci_rbuf := buf @ f\<rparr>) # fs) = Some d"
      using feed_need_more(2) [OF y, of f fs] Cons.prems by (simp del: feed.simps)
    from Cons.IH [OF this, of "c\<lparr>cl_payload := Some pd'\<rparr>"] c unread_need_more [OF y, of f fs] show ?thesis
      by (simp add: poll_recv_on.simps [of _ "EvRead f # _"] del: feed.simps)
  next
    case False
    with poll_recv_reads_now [OF Cons.prems] show ?thesis by blast
  qed
qed

section \<open>Giving a connection back\<close>

lemma idle_cong: "po_available p' = po_available p \<Longrightarrow> idle p' k = idle p k"
  by (simp add: idle_def)

lemma acquired_release_idle:
  assumes "acquired_release key (connection_new (H1 n) created None) close p = Some p'"
  shows "idle p' k = (if k = key \<and> \<not> close then idle p key @ [\<lparr>av_io = H1 n, av_used = rt_now p, av_created = created\<rparr>] else idle p k)"
proof (cases close)
  case True
  with assms show ?thesis
    by (auto simp: acquired_release_def connection_new_def dec_acquired_def Let_def
      intro!: idle_cong split: if_splits)
next
  case False
  with assms have "po_available p' = AList.update key (idle p key @ [\<lparr>av_io = H1 n, av_used = rt_now p, av_created = created\<rparr>]) (po_available p)"
    by (auto simp: acquired_release_def connection_new_def dec_acquired_def Let_def idle_def
      split: if_splits)
  with False show ?thesis by (simp add: idle_def update_conv')
qed

lemma acquired_release_total:
  "0 < po_acquired p \<Longrightarrow> \<exists>p'. acquired_release key (connection_new (H1 n) created None) close p = Some p'"
  by (simp add: acquired_release_def connection_new_def dec_acquired_def)

lemma acquired_drop_idle: "acquired_drop p = Some p' \<Longrightarrow> idle p' k = idle p k"
  by (auto simp: acquired_drop_def dec_acquired_def intro!: idle_cong split: if_splits)

section \<open>The run of a stream\<close>

fun pl_end_of :: "decode_error drain_end \<Rightarrow> pl_end" where
  "pl_end_of NeedMore = PlWaiting"
| "pl_end_of AtEof = PlDone"
| "pl_end_of (Failed e) = PlFailed (PeDecode e)"

text \<open>What happens to the pool when the bytes \<open>rest\<close> are still in the buffer at the end of a body.\<close>

definition stream_released :: "'s pl_stream \<Rightarrow> bool \<Rightarrow> bytes \<Rightarrow> conn_pool \<Rightarrow> conn_pool \<Rightarrow> bool" where
  "stream_released s closed rest p p' \<longleftrightarrow>
     (case ps_pool s of
        None \<Rightarrow> p' = p
      | Some key \<Rightarrow>
          acquired_release key (connection_new (H1 (ps_id s)) (ps_created s) None)
            (\<not> clc_keepalive (ps_codec s) \<or> closed \<or> rest \<noteq> []) p = Some p')"

lemma pl_run_reads:
  assumes "ps_io s = Some io" "cl_payload (ps_codec s) = Some pd" "ci_events io = map EvRead fs"
    and "feed (drain (cv_pcs env)) pd [] (ci_rbuf io # fs) = Some (data, e, pd', left)"
    and "ps_pool s \<noteq> None \<longrightarrow> 0 < po_acquired p"
  shows "\<exists>chunks s' p'. pl_run env s p = Some (chunks, pl_end_of e, s', p') \<and> concat chunks = data \<and>
    (if e = AtEof then stream_released s (ci_closed io) (unread (cv_pcs env) pd (ci_rbuf io) fs) p p' else p' = p)"
  using assms
proof (induction env s p arbitrary: io pd fs data rule: pl_run.induct)
  case (1 env s p)
  from poll_recv_reads [OF "1.prems"(4,2)] "1.prems"(3) obtain r c io1 where
    recv: "poll_recv (clp_decode (cv_pcs env)) (ps_codec s) io = Some (r, c, io1)"
    and agrees: "poll_agrees (cv_pcs env) r c io1 (data, e, pd', left) (unread (cv_pcs env) pd (ci_rbuf io) fs)"
    and same: "ci_closed io1 = ci_closed io" "cl_ctype c = cl_ctype (ps_codec s)"
    by (auto simp: poll_recv_def)
  let ?s = "s\<lparr>ps_codec := c, ps_io := Some io1\<rparr>"
  note next_eq = pl_poll_next.simps [of env s p] Let_def "1.prems"(1) recv
  note run_eq = pl_run.simps [of env s p]
  consider "r = Pending" | b where "r = Ready (Ok (Some b))" | "r = Ready (Ok None)"
    | err where "r = Ready (Err (RcvDecoder (PeDecode err)))"
    using agrees by (auto simp: poll_agrees_def split: poll.splits sum.splits option.splits rcv_error.splits payload_error.splits)
  then show ?case
  proof cases
    case 1
    then show ?thesis using agrees by (simp add: next_eq run_eq poll_agrees_def)
  next
    case (2 b)
    then have n: "pl_poll_next env s p = Some (Ready (Some (Ok b)), ?s, p)" by (simp add: next_eq)
    from agrees 2 obtain pd1 fs1 data1 where d: "cl_payload c = Some pd1" "ci_events io1 = map EvRead fs1" "data = b @ data1"
      "feed (drain (cv_pcs env)) pd1 [] (ci_rbuf io1 # fs1) = Some (data1, e, pd', left)"
      "unread (cv_pcs env) pd1 (ci_rbuf io1) fs1 = unread (cv_pcs env) pd (ci_rbuf io) fs"
      by (auto simp: poll_agrees_def simp del: feed.simps)
    have rel: "stream_released ?s (ci_closed io1) rest p p' = stream_released s (ci_closed io) rest p p'" for rest p'
      using same by (simp add: stream_released_def clc_keepalive_def split: option.split)
    have "\<exists>chunks s' p'. pl_run env ?s p = Some (chunks, pl_end_of e, s', p') \<and> concat chunks = data1 \<and>
      (if e = AtEof then stream_released ?s (ci_closed io1) (unread (cv_pcs env) pd1 (ci_rbuf io1) fs1) p p' else p' = p)"
      by (rule "1.IH" [OF n refl refl refl refl refl _ _ d(2,4)]) (use d(1) "1.prems"(5) in simp_all)
    then obtain chunks s' p' where "pl_run env ?s p = Some (chunks, pl_end_of e, s', p')" "concat chunks = data1"
      "if e = AtEof then stream_released s (ci_closed io) (unread (cv_pcs env) pd (ci_rbuf io) fs) p p' else p' = p"
      unfolding rel d(5) by (elim exE conjE) (rule that)
    then show ?thesis by (intro exI [of _ "b # chunks"] exI [of _ s'] exI [of _ p']) (simp add: n run_eq d(3))
  next
    case 3
    from agrees 3 have d: "data = []" "e = AtEof" "unread (cv_pcs env) pd (ci_rbuf io) fs = ci_rbuf io1"
      by (auto simp: poll_agrees_def)
    have "\<exists>p'. release_connection (ps_id s) io1 (\<not> clc_keepalive c) (ps_created s) (ps_pool s) p = Some p' \<and>
      stream_released s (ci_closed io) (ci_rbuf io1) p p'"
    proof (cases "ps_pool s")
      case None
      then show ?thesis by (simp add: release_connection_def stream_released_def)
    next
      case (Some key)
      with "1.prems"(5) acquired_release_total [of p key] same show ?thesis
        by (simp add: release_connection_def stream_released_def clc_keepalive_def)
    qed
    then obtain p' where "release_connection (ps_id s) io1 (\<not> clc_keepalive c) (ps_created s) (ps_pool s) p = Some p'"
      "stream_released s (ci_closed io) (ci_rbuf io1) p p'" by blast
    with 3 d show ?thesis by (auto simp: next_eq run_eq)
  next
    case 4
    then show ?thesis using agrees by (simp add: next_eq run_eq poll_agrees_def)
  qed
qed

section \<open>What is left of the exchange\<close>

text \<open>The connection type after a response: the peer may end the connection, not extend it.\<close>

definition agreed_ctype :: "connection_type \<Rightarrow> response_head \<Rightarrow> connection_type" where
  "agreed_ctype ct res = (case rs_ctype res of Some c \<Rightarrow> if c \<noteq> KeepAlive then c else ct | None \<Rightarrow> ct)"

lemma poll_recv_head_ctype:
  "poll_recv_on (clc_decode dbg env) evs c io = Some (r, c', io') \<Longrightarrow>
   cl_ctype c' = (case r of Ready (Ok res) \<Rightarrow> agreed_ctype (cl_ctype c) res | _ \<Rightarrow> cl_ctype c)"
proof (induction evs arbitrary: c io r)
  case Nil
  then show ?case
    by (subst (asm) poll_recv_on.simps) (auto simp: agreed_ctype_def split: option.splits sum.splits dest!: clc_decode_ctype)
next
  case (Cons ev evs)
  from Cons.prems show ?case
    by (subst (asm) poll_recv_on.simps)
      (auto simp: agreed_ctype_def split: option.splits sum.splits io_event.splits poll.splits dest!: clc_decode_ctype Cons.IH)
qed

lemma recv_await_ctype:
  "recv_await ka (clc_decode dbg env) c io = Some (Ready (Ok (Some head)), c', io') \<Longrightarrow>
   cl_ctype c' = agreed_ctype (cl_ctype c) head"
proof (induction ka "clc_decode dbg env" c io rule: recv_await.induct)
  case (1 ka c io)
  from "1.prems" obtain r c1 io1 where r: "poll_recv (clc_decode dbg env) c io = Some (r, c1, io1)"
    by (auto simp: recv_await.simps [of ka _ c io] split: option.splits)
  note ct = poll_recv_head_ctype [OF r [unfolded poll_recv_def]]
  show ?case
  proof (cases "r = Ready (Err RcvBackpressure)")
    case True
    with "1.prems" r obtain io2 where f: "flush_await io1 = (Ok (), io2)"
      "recv_await ka (clc_decode dbg env) c1 io2 = Some (Ready (Ok (Some head)), c', io')"
      by (auto simp: recv_await.simps [of ka _ c io] split: prod.splits sum.splits)
    with "1.hyps" [OF r refl True] ct True show ?thesis by simp
  next
    case False
    with "1.prems" r ct show ?thesis
      by (auto simp: recv_await.simps [of ka _ c io] split: poll.splits sum.splits rcv_error.splits option.splits)
  qed
qed

lemma poll_recv_body_ctype:
  "poll_recv_on (clp_decode pcs) evs c io = Some (r, c', io') \<Longrightarrow> cl_ctype c' = cl_ctype c"
proof (induction evs arbitrary: c io r)
  case Nil
  then show ?case
    by (subst (asm) poll_recv_on.simps) (auto split: option.splits sum.splits dest!: clp_decode_ctype)
next
  case (Cons ev evs)
  from Cons.prems show ?case
    by (subst (asm) poll_recv_on.simps)
      (auto split: option.splits sum.splits io_event.splits dest!: clp_decode_ctype Cons.IH)
qed

text \<open>Polling leaves the pool alone until the end of the body, where the connection is released.\<close>

definition released :: "'s pl_stream \<Rightarrow> conn_pool \<Rightarrow> conn_pool \<Rightarrow> bool" where
  "released s p p' \<longleftrightarrow>
     (\<exists>io. release_connection (ps_id s) io (\<not> clc_keepalive (ps_codec s)) (ps_created s) (ps_pool s) p = Some p')"

definition same_stream :: "'s pl_stream \<Rightarrow> 's pl_stream \<Rightarrow> bool" where
  "same_stream s s' \<longleftrightarrow> ps_id s' = ps_id s \<and> ps_created s' = ps_created s \<and> ps_pool s' = ps_pool s \<and>
     cl_ctype (ps_codec s') = cl_ctype (ps_codec s)"

lemma released_same: "same_stream s s' \<Longrightarrow> released s' p p' = released s p p'"
  by (simp add: released_def same_stream_def clc_keepalive_def)

lemma pl_poll_next_pool:
  "pl_poll_next env s p = Some (r, s', p') \<Longrightarrow> (p' = p \<and> same_stream s s') \<or> (r = Ready None \<and> released s p p' \<and> ps_io s' = None)"
proof (induction env s p rule: pl_poll_next.induct)
  case (1 env s p)
  obtain io x c io1 where io: "ps_io s = Some io" "poll_recv (clp_decode (cv_pcs env)) (ps_codec s) io = Some (x, c, io1)"
    using "1.prems" by (auto simp: pl_poll_next.simps [of env s p] split: option.splits)
  note ct = poll_recv_body_ctype [OF io(2) [unfolded poll_recv_def]]
  have same: "same_stream s (s\<lparr>ps_codec := c, ps_io := i\<rparr>)" for i using ct by (simp add: same_stream_def)
  show ?case
  proof (cases "x = Ready (Err RcvBackpressure) \<and> (\<exists>io2. io_poll_flush io1 = (Ready (Ok ()), io2))")
    case True
    then obtain io2 where f: "io_poll_flush io1 = (Ready (Ok ()), io2)" by blast
    with True io "1.prems" have "pl_poll_next env (s\<lparr>ps_codec := c, ps_io := Some io2\<rparr>) p = Some (r, s', p')"
      by (simp add: pl_poll_next.simps [of env s p])
    with "1.IH" [OF io refl refl refl True [THEN conjunct1] refl refl f [symmetric] refl refl]
    have "(p' = p \<and> same_stream (s\<lparr>ps_codec := c, ps_io := Some io2\<rparr>) s') \<or>
        (r = Ready None \<and> released (s\<lparr>ps_codec := c, ps_io := Some io2\<rparr>) p p' \<and> ps_io s' = None)" by simp
    with same [of "Some io2"] show ?thesis
      using released_same [OF same [of "Some io2"]] by (auto simp: same_stream_def)
  next
    case False
    with "1.prems" io same show ?thesis
      by (auto simp: pl_poll_next.simps [of env s p] Let_def released_def clc_keepalive_def ct
        split: poll.splits sum.splits option.splits rcv_error.splits prod.splits if_splits)
  qed
qed

text \<open>A number of polls. The connection leaves the stream with its end, and a further poll panics.\<close>

fun pl_polls ::
  "'s client_env \<Rightarrow> nat \<Rightarrow> 's pl_stream \<Rightarrow> conn_pool \<Rightarrow> ((payload_error + bytes) option poll list \<times> 's pl_stream \<times> conn_pool) option" where
  "pl_polls env 0 s p = Some ([], s, p)"
| "pl_polls env (Suc m) s p =
     (case pl_poll_next env s p of
        None \<Rightarrow> None
      | Some (a, s, p) \<Rightarrow> map_option (\<lambda>(as, sp). (a # as, sp)) (pl_polls env m s p))"

lemma pl_polls_pool:
  "pl_polls env m s p = Some (as, s', p') \<Longrightarrow> (p' = p \<and> same_stream s s') \<or> (Ready None \<in> set as \<and> released s p p')"
proof (induction m arbitrary: s p as)
  case 0
  then show ?case by (simp add: same_stream_def)
next
  case (Suc m)
  then obtain a s1 p1 as1 where n: "pl_poll_next env s p = Some (a, s1, p1)" "pl_polls env m s1 p1 = Some (as1, s', p')" "as = a # as1"
    by (auto split: option.splits)
  from pl_poll_next_pool [OF n(1)] show ?case
  proof (elim disjE conjE)
    assume "p1 = p" "same_stream s s1"
    with Suc.IH [OF n(2)] released_same [of s s1] n(3) show ?thesis by (auto simp: same_stream_def)
  next
    assume r: "a = Ready None" "released s p p1" "ps_io s1 = None"
    with n(2) have "p' = p1" by (cases m) (auto simp: pl_poll_next.simps [of env s1])
    with r n(3) show ?thesis by simp
  qed
qed

lemma pl_drop_idle: "pl_drop s p = Some p' \<Longrightarrow> idle p' k = idle p k"
  by (auto simp: pl_drop_def acquired_drop_idle split: option.splits)

text \<open>
  An exchange to its end: the request, and if the response has a body, a number of polls of it before the application
  drops it. A request that is still under way is given up, which drops its guard.
\<close>

definition exchange ::
  "'s client_env \<Rightarrow> date_service \<Rightarrow> client_raw_request \<Rightarrow> body \<Rightarrow> nat \<Rightarrow> bool \<Rightarrow> nat \<Rightarrow> pool_key option \<Rightarrow> nat \<Rightarrow> conn_io \<Rightarrow> nat \<Rightarrow>
   conn_pool \<Rightarrow>
   ((client_error + response_head \<times> 's pl_stream option) poll \<times> (payload_error + bytes) option poll list \<times> conn_pool) option" where
  "exchange env ds req body timeout late created guard n io polls p =
     (case send_request env ds req body timeout late created guard n io p of
        None \<Rightarrow> None
      | Some (Pending, p) \<Rightarrow> map_option (\<lambda>p. (Pending, [], p)) (case guard of Some _ \<Rightarrow> acquired_drop p | None \<Rightarrow> Some p)
      | Some (Ready (Ok (head, Some s)), p) \<Rightarrow>
          (case pl_polls env polls s p of
             None \<Rightarrow> None
           | Some (answers, s', p) \<Rightarrow> map_option (\<lambda>p. (Ready (Ok (head, Some s)), answers, p)) (pl_drop s' p))
      | Some (r, p) \<Rightarrow> Some (r, [], p))"

lemma send_item_ctype:
  assumes "send_item env ds req c io = Some (r, c', io', ds')"
  shows "cl_ctype c' = cl_ctype (clc_request c (cr_head req))"
  using assms by (auto simp: send_item_def split: option.splits sum.splits prod.splits dest!: clc_encodev_ctype)

lemma send_chunk_ctype: "send_chunk env ds b c io = Some (r, c', io') \<Longrightarrow> cl_ctype c' = cl_ctype c"
  by (auto simp: send_chunk_def Let_def split: option.splits sum.splits prod.splits if_splits dest!: clc_encodev_ctype)

lemma send_chunks_ctype: "send_chunks env ds bs c io = Some (r, c', io') \<Longrightarrow> cl_ctype c' = cl_ctype c"
  by (induction bs arbitrary: c io) (auto split: option.splits sum.splits dest!: send_chunk_ctype)

lemma send_body_ctype: "send_body env ds body c io = Some (r, c', io') \<Longrightarrow> cl_ctype c' = cl_ctype c"
  by (auto simp: send_body_def send_eof_def Let_def split: option.splits sum.splits prod.splits
      dest!: clc_encodev_ctype send_chunks_ctype)

lemma set_request_host_ctype:
  "rq_connection_type (cr_head (set_request_host env req)) = rq_connection_type (cr_head req)"
  by (simp add: set_request_host_def rq_connection_type_def Let_def split: option.split sum.split)

lemma read_response_Ok:
  assumes "read_response env timeout late created guard n c io p = Some (Ready (Ok (head, strm)), p')"
  shows "\<exists>c' io'. cl_ctype c' = agreed_ctype (cl_ctype c) head \<and>
    (strm = None \<and> release_connection n io' (\<not> clc_keepalive c') created guard p = Some p' \<or>
     strm = Some (pl_new n io' c' created guard (rs_version head = HTTP_10)) \<and> p' = p)"
proof -
  obtain c' io' where r: "recv_await (cv_ka_error env) (clc_decode (cv_debug env) (cv_parse env)) c io = Some (Ready (Ok (Some head)), c', io')"
    "strm = None \<and> release_connection n io' (\<not> clc_keepalive c') created guard p = Some p' \<or>
     strm = Some (pl_new n io' c' created guard (rs_version head = HTTP_10)) \<and> p' = p"
    using assms
    by (auto simp: read_response_def fail_request_def split: if_splits option.splits poll.splits sum.splits)
  from recv_await_ctype [OF r(1)] r(2) show ?thesis by (intro exI conjI)
qed

lemma send_request_Ok:
  assumes "send_request env ds req body timeout late created guard n io p = Some (Ready (Ok (head, strm)), p')"
  shows "\<exists>c io'. (cl_ctype c = KeepAlive \<longleftrightarrow> rq_connection_type (cr_head req) = KeepAlive \<and> rs_ctype head \<in> {None, Some KeepAlive}) \<and>
    (strm = None \<and> release_connection n io' (\<not> clc_keepalive c) created guard p = Some p' \<or>
     strm = Some (pl_new n io' c created guard (rs_version head = HTTP_10)) \<and> p' = p)"
proof -
  obtain c1 io1 where c: "cl_ctype c1 = cl_ctype (clc_request (clc_new (cv_parse env) True (cv_cfg env)) (cr_head (set_request_host env req)))"
    "read_response env timeout late created guard n c1 io1 p = Some (Ready (Ok (head, strm)), p')"
    using assms
    by (auto simp: send_request_def Let_def fail_request_def split: option.splits sum.splits if_splits
      dest!: send_item_ctype send_body_ctype)
  from read_response_Ok [OF c(2)] obtain c' io' where r: "cl_ctype c' = agreed_ctype (cl_ctype c1) head"
    "strm = None \<and> release_connection n io' (\<not> clc_keepalive c') created guard p = Some p' \<or>
     strm = Some (pl_new n io' c' created guard (rs_version head = HTTP_10)) \<and> p' = p" by (elim exE conjE) (rule that)
  have "cl_ctype c1 = KeepAlive \<longleftrightarrow> rq_connection_type (cr_head req) = KeepAlive"
    using c(1) clc_request_ctype [of "clc_new (cv_parse env) True (cv_cfg env)"]
    by (simp add: set_request_host_ctype clc_new_def fl_contains_def)
  with r(1) have "cl_ctype c' = KeepAlive \<longleftrightarrow> rq_connection_type (cr_head req) = KeepAlive \<and> rs_ctype head \<in> {None, Some KeepAlive}"
    by (auto simp: agreed_ctype_def split: option.splits if_splits)
  with r(2) show ?thesis by (intro exI conjI)
qed

lemma release_idle:
  assumes "release_connection n io close created guard p = Some p'" "idle p' k \<noteq> idle p k"
  shows "guard = Some k \<and> \<not> close \<and> idle p' k = idle p k @ [\<lparr>av_io = H1 n, av_used = rt_now p, av_created = created\<rparr>]"
  using assms acquired_release_idle
  by (fastforce simp: release_connection_def split: option.splits if_splits)

lemma fail_request_idle: "fail_request guard e p = Some (r, p') \<Longrightarrow> idle p' k = idle p k \<and> (\<exists>e. r = Ready (Err e))"
  by (auto simp: fail_request_def acquired_drop_idle split: option.splits)

lemma read_response_idle:
  "read_response env timeout late created guard n c io p = Some (r, p') \<Longrightarrow> (\<exists>x. r = Ready (Ok x)) \<or> idle p' k = idle p k"
  by (auto simp: read_response_def split: if_splits option.splits poll.splits sum.splits dest!: fail_request_idle [where k = k])

lemma send_request_idle:
  "send_request env ds req body timeout late created guard n io p = Some (r, p') \<Longrightarrow> (\<exists>x. r = Ready (Ok x)) \<or> idle p' k = idle p k"
  by (auto simp: send_request_def Let_def split: if_splits option.splits sum.splits
    dest!: fail_request_idle [where k = k] read_response_idle [where k = k])

lemma exchange_idle_response:
  assumes "exchange env ds req body timeout late created guard n io polls p = Some (r, answers, p')" "idle p' k \<noteq> idle p k"
  obtains head strm where "r = Ready (Ok (head, strm))"
  using assms send_request_idle [of env ds req body timeout late created guard n io p _ _ k]
  by (auto simp: exchange_def acquired_drop_idle split: option.splits poll.splits sum.splits)

section \<open>Properties\<close>

text \<open>
  C11: The body of a response reaches the application unchanged: however its bytes arrive, the chunks of the
  stream are, put together, the data the framing prescribes; the stream ends exactly when the body is complete, fails
  exactly when the framing is broken, and waits otherwise. Only at the end is the connection given back. It is then put
  among the idle connections exactly if both sides agreed to keep it, it is open, and the read that completed the body
  brought no byte beyond its end.
\<close>

theorem response_body_delivered:
  assumes "chunk_size_contract (cv_pcs env)" "ps_io s = Some io" "cl_payload (ps_codec s) = Some pd" "ci_events io = map EvRead fs"
    and "drain (cv_pcs env) pd (ci_rbuf io @ concat fs) = Some (data, e, pd', left)"
    and "ps_pool s = Some key" "0 < po_acquired p"
  shows "\<exists>chunks s' p'. pl_run env s p = Some (chunks, pl_end_of e, s', p') \<and> concat chunks = data \<and>
    (e \<noteq> AtEof \<longrightarrow> p' = p) \<and>
    (e = AtEof \<longrightarrow> (\<exists>m rest. ends_in (cv_pcs env) pd (ci_rbuf io) fs m rest \<and>
       (\<forall>k. idle p' k = (if k = key \<and> clc_keepalive (ps_codec s) \<and> \<not> ci_closed io \<and> rest = []
          then idle p key @ [\<lparr>av_io = H1 (ps_id s), av_used = rt_now p, av_created = ps_created s\<rparr>] else idle p k))))"
proof -
  let ?rest = "unread (cv_pcs env) pd (ci_rbuf io) fs"
  have "feed (drain (cv_pcs env)) pd [] (ci_rbuf io # fs) = Some (data, e, pd', left)"
    using payload.feed_eq_run [OF assms(1), of pd "[]" "ci_rbuf io" fs] assms(5) by simp
  from pl_run_reads [OF assms(2-4) this] assms(7) obtain chunks s' p' where
    r: "pl_run env s p = Some (chunks, pl_end_of e, s', p')" "concat chunks = data"
    "if e = AtEof then stream_released s (ci_closed io) ?rest p p' else p' = p"
    by blast
  have "idle p' k = (if k = key \<and> clc_keepalive (ps_codec s) \<and> \<not> ci_closed io \<and> ?rest = []
      then idle p key @ [\<lparr>av_io = H1 (ps_id s), av_used = rt_now p, av_created = ps_created s\<rparr>] else idle p k)"
    if "e = AtEof" for k
    using that r(3) assms(6) acquired_release_idle by (simp add: stream_released_def)
  moreover have "\<exists>m. ends_in (cv_pcs env) pd (ci_rbuf io) fs m ?rest" if "e = AtEof"
    using unread_ends_in [OF assms(1)] assms(5) that by blast
  ultimately show ?thesis using r by (intro exI [of _ chunks] exI [of _ s'] exI [of _ p']) auto
qed

text \<open>
  C10: A connection is put back for reuse only after a complete and persistent exchange. Whatever the network, the timeouts
  and the flushes do, whether the request fails, is given up or succeeds, and however often the application polls the body
  before it drops it: if the exchange changes the idle connections at all, it has got a response, it adds its own
  connection to those of its host, the request asked for a persistent connection, the response did not ask to close or
  upgrade, and either it has no body or a poll has reported the end of it.
\<close>

theorem connection_reuse_clean:
  assumes "exchange env ds req body timeout late created guard n io polls p = Some (r, answers, p')"
    and "idle p' k \<noteq> idle p k"
  shows "guard = Some k \<and> idle p' k = idle p k @ [\<lparr>av_io = H1 n, av_used = rt_now p, av_created = created\<rparr>] \<and>
    rq_connection_type (cr_head req) = KeepAlive \<and>
    (\<exists>head strm. r = Ready (Ok (head, strm)) \<and> rs_ctype head \<in> {None, Some KeepAlive} \<and> (strm \<noteq> None \<longrightarrow> Ready None \<in> set answers))"
proof -
  from assms obtain head strm where r: "r = Ready (Ok (head, strm))" by (rule exchange_idle_response)
  with assms(1) obtain p1 where sent: "send_request env ds req body timeout late created guard n io p = Some (Ready (Ok (head, strm)), p1)"
    and rest: "case strm of None \<Rightarrow> p' = p1
      | Some s \<Rightarrow> \<exists>s' p2. pl_polls env polls s p1 = Some (answers, s', p2) \<and> pl_drop s' p2 = Some p'"
    by (auto simp: exchange_def split: option.splits poll.splits sum.splits)
  from send_request_Ok [OF sent] obtain c io' where
    c: "cl_ctype c = KeepAlive \<longleftrightarrow> rq_connection_type (cr_head req) = KeepAlive \<and> rs_ctype head \<in> {None, Some KeepAlive}"
    "strm = None \<and> release_connection n io' (\<not> clc_keepalive c) created guard p = Some p1 \<or>
     strm = Some (pl_new n io' c created guard (rs_version head = HTTP_10)) \<and> p1 = p" by (elim exE conjE) (rule that)
  have "\<exists>io q. release_connection n io (\<not> clc_keepalive c) created guard p = Some q \<and> idle p' k = idle q k \<and>
      (strm \<noteq> None \<longrightarrow> Ready None \<in> set answers)"
  proof (cases strm)
    case None
    with c(2) rest show ?thesis by auto
  next
    case (Some s)
    with rest obtain s' p2 where s: "pl_polls env polls s p1 = Some (answers, s', p2)" "pl_drop s' p2 = Some p'" by auto
    note d = pl_drop_idle [OF s(2), of k]
    from pl_polls_pool [OF s(1)] c(2) Some assms(2) d have "Ready None \<in> set answers" "released s p p2" by auto
    with c(2) Some d show ?thesis by (auto simp: released_def pl_new_def)
  qed
  then obtain io2 q where e: "release_connection n io2 (\<not> clc_keepalive c) created guard p = Some q" "idle p' k = idle q k"
    "strm \<noteq> None \<longrightarrow> Ready None \<in> set answers" by blast
  from release_idle [OF e(1), of k] e(2,3) assms(2) c(1) r show ?thesis by (auto simp: clc_keepalive_def)
qed

section \<open>Instances\<close>

text \<open>The parameters of the decoder, with a response line of one byte.\<close>

fun tiny_response :: "bytes \<Rightarrow> httparse_error + (nat \<times> hp_response) hp_status" where
  "tiny_response [] = Ok Partial"
| "tiny_response (c # cs) = Ok (Complete (1, \<lparr>hr_version = 1, hr_code = 200\<rparr>))"

definition sample_client_env :: "unit client_env" where
  "sample_client_env =
     \<lparr>cv_parse = tiny_env\<lparr>pe_response := tiny_response\<rparr>, cv_pcs = simple_chunk_size,
      cv_uri = \<lparr>uo_parse = Some, uo_scheme = (\<lambda>_. Some ''http''), uo_authority = (\<lambda>_. None), uo_host = (\<lambda>a. a), uo_port = (\<lambda>_. None)\<rparr>,
      cv_path = Some, cv_parse_name = Some, cv_enc = sample_ee, cv_cfg = small_cfg, cv_debug = True,
      cv_backpressure = (\<lambda>_. False), cv_ka_error = IoTimedOut []\<rparr>"

definition sample_conn_io :: "bytes \<Rightarrow> io_event list \<Rightarrow> conn_io" where
  "sample_conn_io buf evs =
     \<lparr>ci_closed = False, ci_rbuf = buf, ci_out = [], ci_timer = None, ci_events = evs, ci_flush = [], ci_updates = []\<rparr>"

definition busy_pool :: conn_pool where
  "busy_pool = (pool_new cc_new 5)\<lparr>po_acquired := 1\<rparr>"

definition sample_stream :: "unit pl_stream" where
  "sample_stream =
     pl_new 3 (sample_conn_io [] [EvRead ''ab'', EvRead ''c''])
       ((clc_new tiny_env True small_cfg)\<lparr>cl_payload := Some (pd_length 3), cl_ctype := KeepAlive\<rparr>) 1 (Some (Key ''h'')) False"

theorem response_body_delivered_witness:
  "\<exists>chunks s' p'. pl_run sample_client_env sample_stream busy_pool = Some (chunks, PlDone, s', p') \<and> concat chunks = ''abc'' \<and>
     idle p' (Key ''h'') = [\<lparr>av_io = H1 3, av_used = 5, av_created = 1\<rparr>]"
proof -
  have "drain (cv_pcs sample_client_env) (pd_length 3) (ci_rbuf (sample_conn_io [] [EvRead ''ab'', EvRead ''c'']) @ concat [''ab'', ''c'']) =
      Some (''abc'', AtEof, \<lparr>pd_kind = KLength 0\<rparr>, [])"
    by (simp add: pd_length_def drain_length sample_conn_io_def)
  moreover have "rest = []" if "ends_in simple_chunk_size (pd_length 3) [] [''ab'', ''c''] m rest" for m rest
    using that by (cases m; cases "m - 1") (auto simp: ends_in_def pd_length_def drain_length)
  ultimately show ?thesis
    using simple_chunk_size_contract
      response_body_delivered [of sample_client_env sample_stream "sample_conn_io [] [EvRead ''ab'', EvRead ''c'']" "pd_length 3" "[''ab'', ''c'']"
        "''abc''" AtEof "\<lparr>pd_kind = KLength 0\<rparr>" "[]" "Key ''h''" busy_pool]
    by (auto simp: sample_stream_def sample_client_env_def sample_conn_io_def pl_new_def busy_pool_def pool_new_def idle_def
      clc_keepalive_def)
qed

definition sample_get :: client_raw_request where
  "sample_get = \<lparr>cr_head = rq_default, cr_headers = None, cr_size = SzNone\<rparr>"

lemma sample_get_sent:
  "\<exists>c out ds. send_item sample_client_env date_new sample_get (clc_new (cv_parse sample_client_env) True small_cfg) (sample_conn_io ''RE'' []) =
     Some (Ok (), c, (sample_conn_io ''RE'' [])\<lparr>ci_out := out\<rparr>, ds) \<and>
     cl_decoder c = md_new (cv_parse sample_client_env) small_cfg \<and> cl_payload c = None \<and> \<not> fl_contains (cl_flags c) CF_HEAD \<and>
     \<not> fl_contains (cl_flags c) CF_STREAM \<and> cl_ctype c = KeepAlive"
proof -
  define c where "c = clc_request (clc_new (cv_parse sample_client_env) True small_cfg :: unit client_codec) rq_default"
  have c: "cl_decoder c = md_new (cv_parse sample_client_env) small_cfg" "cl_payload c = None" "\<not> fl_contains (cl_flags c) CF_HEAD"
    "\<not> fl_contains (cl_flags c) CF_STREAM" "cl_ctype c = KeepAlive" "cl_encoder c = me_default"
    by (simp_all add: c_def clc_request_def clc_new_def rq_default_def Let_def rq_connection_type_def fl_set_def fl_contains_def
      fl_insert_def fl_remove_def less_version_def)
  obtain st where st: "et_encode_status (enc_request Some) rq_default [] = Some st"
    by (simp add: enc_request_def rq_encode_status_def)
  from encode_headers_render [of "ee_junk sample_ee" SzNone date_new "ee_httpdate sample_ee", where T = "enc_request Some" and
      msg = rq_default and dst = st and version = "cl_version c" and ctype = "cl_ctype c" and extra = None] sample_ee_ok date_new_wf
  obtain out ds where "encode_headers (enc_request Some) rq_default (ee_junk sample_ee) (ee_httpdate sample_ee) date_new st
      (cl_version c) SzNone (cl_ctype c) None = Some (out, ds)"
    by (auto simp: enc_env_ok_def sized_ok_def)
  then have "me_encode me_default (enc_request Some) rq_default (ee_junk sample_ee) (ee_httpdate sample_ee) date_new [] False False
      (cl_version c) SzNone (cl_ctype c) None = Some (me_default\<lparr>me_te := te_empty\<rparr>, out, ds)"
    using st by (simp add: me_encode_def me_transfer_def Let_def)
  then have "clc_encodev Some sample_ee date_new (clc_new (cv_parse sample_client_env) True small_cfg) (MItem sample_get) [] =
      Some (Ok (), c\<lparr>cl_encoder := me_default\<lparr>me_te := te_empty\<rparr>\<rparr>, out, ds)"
    using c(6) unfolding clc_encodev_def sample_get_def c_def by (simp add: Let_def)
  with c show ?thesis
    by (simp add: send_item_def sample_conn_io_def flush_await_def sample_client_env_def)
qed

theorem connection_reuse_clean_witness:
  "\<exists>head p1. exchange sample_client_env date_new sample_get BNone 0 False 1 (Some (Key ''h'')) 3 (sample_conn_io ''RE'' []) 0 busy_pool =
       Some (Ready (Ok (head, None)), [], p1) \<and>
     idle p1 (Key ''h'') = [\<lparr>av_io = H1 3, av_used = 5, av_created = 1\<rparr>] \<and> rs_ctype head \<in> {None, Some KeepAlive}"
proof -
  obtain c out ds where sent: "send_item sample_client_env date_new sample_get (clc_new (cv_parse sample_client_env) True small_cfg) (sample_conn_io ''RE'' []) =
     Some (Ok (), c, (sample_conn_io ''RE'' [])\<lparr>ci_out := out\<rparr>, ds)" and c:
     "cl_decoder c = md_new (cv_parse sample_client_env) small_cfg" "cl_payload c = None" "\<not> fl_contains (cl_flags c) CF_HEAD"
     "\<not> fl_contains (cl_flags c) CF_STREAM" "cl_ctype c = KeepAlive"
    using sample_get_sent by (elim exE conjE) (rule that)
  obtain c' where dec: "clc_decode True (cv_parse sample_client_env) c ''RE'' = Some (Ok (Some (rs_new 200 HTTP_11)), c', [])"
    and c': "clc_message_type c' = MkNone" "clc_keepalive c'"
    using c
    by (simp add: clc_decode_def md_decode_def md_new_def in_new_def md_decode_rest_def decode_headers.simps
      sample_client_env_def tiny_env_def response_type_def rs_decode_def Let_def small_cfg_def rs_new_def hm_new_def st_default_def
      st_payload_length_def rs_set_payload_length_def pl_is_zero_def clc_response_def rs_ctype_def fl_contains_def clc_message_type_def
      clc_keepalive_def)
  have "set_request_host sample_client_env sample_get = sample_get"
    by (simp add: set_request_host_def sample_get_def sample_client_env_def host_text_def uri_host_def Let_def)
  moreover have "recv_await (cv_ka_error sample_client_env) (clc_decode True (cv_parse sample_client_env)) c ((sample_conn_io ''RE'' [])\<lparr>ci_out := out\<rparr>) =
      Some (Ready (Ok (Some (rs_new 200 HTTP_11))), c', (sample_conn_io [] [])\<lparr>ci_out := out\<rparr>)"
    using dec by (simp add: recv_await.simps poll_recv_def poll_recv_on.simps sample_conn_io_def)
  moreover obtain p1 where p1: "release_connection 3 ((sample_conn_io [] [])\<lparr>ci_out := out\<rparr>) False 1 (Some (Key ''h'')) busy_pool = Some p1"
    using acquired_release_total [of busy_pool "Key ''h''" 3 1 False] by (auto simp: release_connection_def sample_conn_io_def busy_pool_def)
  ultimately have run: "send_request sample_client_env date_new sample_get BNone 0 False 1 (Some (Key ''h'')) 3 (sample_conn_io ''RE'' []) busy_pool =
      Some (Ready (Ok (rs_new 200 HTTP_11, None)), p1)"
    using sent c' by (simp add: send_request_def read_response_def sample_client_env_def)
  then have ex: "exchange sample_client_env date_new sample_get BNone 0 False 1 (Some (Key ''h'')) 3 (sample_conn_io ''RE'' []) 0 busy_pool =
      Some (Ready (Ok (rs_new 200 HTTP_11, None)), [], p1)"
    by (simp add: exchange_def)
  have "idle p1 (Key ''h'') \<noteq> idle busy_pool (Key ''h'')"
    using acquired_release_idle [of "Key ''h''" 3 1 False busy_pool p1] p1 by (simp add: release_connection_def sample_conn_io_def)
  from connection_reuse_clean [OF ex this] ex show ?thesis
    by (auto simp: busy_pool_def pool_new_def idle_def)
qed

end
