(* ===== verification/Client_Request.thy ===== *)
theory Client_Request
  imports Client_H1 Ws_Handshake
begin

text \<open>
  Requests of the HTTP client and their way to a connection: the builder (\<^verbatim>\<open>geario-http/src/client/request.rs\<close>), the request
  the services pass on (\<^verbatim>\<open>client/service.rs\<close>), the sender (\<^verbatim>\<open>client/sender.rs\<close>), the choice of the pool
  (\<^verbatim>\<open>client/connector.rs\<close>) and \<^verbatim>\<open>Client::request\<close> (\<^verbatim>\<open>client/mod.rs\<close>).

  As for responses, a conversion to a header name or value has happened in the argument. The features \<^verbatim>\<open>cookie\<close> and \<^verbatim>\<open>compress\<close>
  are on, the latter by an argument; uris, cookies and their encodings are those of \<open>ws_env\<close>, as the code for cookies is
  the same. What \<^verbatim>\<open>serde\<close> makes of a value is an argument. \<^const>\<open>None\<close> is a panic.
\<close>

section \<open>Requests between the services\<close>

record service_request =
  sr_head :: request_head
  sr_headers :: "header_map option"
  sr_addr :: "string option"
  sr_body :: body
  sr_timeout :: nat
  sr_response_decompress :: bool

definition sr_new :: "request_head list \<Rightarrow> service_request" where
  "sr_new pool =
     \<lparr>sr_head = fst (get_message rq_clear rq_default pool), sr_headers = None, sr_addr = None, sr_body = BNone, sr_timeout = 0,
      sr_response_decompress = True\<rparr>"

definition on_headers :: "(header_map \<Rightarrow> header_map) \<Rightarrow> service_request \<Rightarrow> service_request" where
  "on_headers f r = r\<lparr>sr_head := (sr_head r)\<lparr>rq_headers := f (rq_headers (sr_head r))\<rparr>\<rparr>"

definition sr_set_header_if_none ::
  "(string \<Rightarrow> header_name option) \<Rightarrow> header_name \<Rightarrow> error_kind + header_value \<Rightarrow> service_request \<Rightarrow> (error_kind + unit) \<times> service_request" where
  "sr_set_header_if_none pn key value r =
     (if \<not> hm_contains_key pn (rq_headers (sr_head r)) (Left key) then
        (case value of
           Ok v \<Rightarrow> (Ok (), on_headers (\<lambda>hs. hm_insert hs key v) r)
         | Err e \<Rightarrow> (Err e, r))
      else (Ok (), r))"

text \<open>A value that cannot be serialised gives the number of its error.\<close>

definition sr_set_text :: "(string \<Rightarrow> header_name option) \<Rightarrow> string \<Rightarrow> nat + string \<Rightarrow> service_request \<Rightarrow> client_error + service_request" where
  "sr_set_text pn ctype serialized r =
     (case serialized of
        Err e \<Rightarrow> Err (ClError e)
      | Ok s \<Rightarrow>
          (case sr_set_header_if_none pn H_CONTENT_TYPE (text_value ctype) (r\<lparr>sr_body := BBytes s\<rparr>) of
             (Err e, _) \<Rightarrow> Err (ClHttp e)
           | (Ok _, r) \<Rightarrow> Ok r))"

definition sr_set_json :: "(string \<Rightarrow> header_name option) \<Rightarrow> nat + string \<Rightarrow> service_request \<Rightarrow> client_error + service_request" where
  "sr_set_json pn = sr_set_text pn ''application/json''"

definition sr_set_form :: "(string \<Rightarrow> header_name option) \<Rightarrow> nat + string \<Rightarrow> service_request \<Rightarrow> client_error + service_request" where
  "sr_set_form pn = sr_set_text pn ''application/x-www-form-urlencoded''"

section \<open>The builder\<close>

record 'j client_request =
  cq_request :: service_request
  cq_err :: "error_kind option"
  cq_cookies :: "'j option"

definition on_request :: "(service_request \<Rightarrow> service_request) \<Rightarrow> 'j client_request \<Rightarrow> 'j client_request" where
  "on_request f q = q\<lparr>cq_request := f (cq_request q)\<rparr>"

definition on_head :: "(request_head \<Rightarrow> request_head) \<Rightarrow> 'j client_request \<Rightarrow> 'j client_request" where
  "on_head f = on_request (\<lambda>r. r\<lparr>sr_head := f (sr_head r)\<rparr>)"

definition cq_uri :: "error_kind + uri \<Rightarrow> 'j client_request \<Rightarrow> 'j client_request" where
  "cq_uri u q =
     (case u of
        Ok uri \<Rightarrow> on_head (\<lambda>h. h\<lparr>rq_uri := uri\<rparr>) q
      | Err e \<Rightarrow> q\<lparr>cq_err := Some e\<rparr>)"

definition cq_address :: "string \<Rightarrow> 'j client_request \<Rightarrow> 'j client_request" where
  "cq_address addr = on_request (\<lambda>r. r\<lparr>sr_addr := Some addr\<rparr>)"

definition cq_method :: "http_method \<Rightarrow> 'j client_request \<Rightarrow> 'j client_request" where
  "cq_method m = on_head (\<lambda>h. h\<lparr>rq_method := m\<rparr>)"

definition cq_new :: "request_head list \<Rightarrow> http_method \<Rightarrow> error_kind + uri \<Rightarrow> 'j client_request" where
  "cq_new pool m u = cq_uri u (cq_method m \<lparr>cq_request = sr_new pool, cq_err = None, cq_cookies = None\<rparr>)"

definition cq_header :: "error_kind + header_name \<Rightarrow> error_kind + header_value \<Rightarrow> 'j client_request \<Rightarrow> 'j client_request" where
  "cq_header key value q =
     (case key of
        Ok k \<Rightarrow>
          (case value of
             Ok v \<Rightarrow> on_request (on_headers (\<lambda>hs. hm_append hs k v)) q
           | Err e \<Rightarrow> q\<lparr>cq_err := Some e\<rparr>)
      | Err e \<Rightarrow> q\<lparr>cq_err := Some e\<rparr>)"

definition cq_set_header :: "error_kind + header_name \<Rightarrow> error_kind + header_value \<Rightarrow> 'j client_request \<Rightarrow> 'j client_request" where
  "cq_set_header key value q =
     (case key of
        Ok k \<Rightarrow>
          (case value of
             Ok v \<Rightarrow> on_request (on_headers (\<lambda>hs. hm_insert hs k v)) q
           | Err e \<Rightarrow> q\<lparr>cq_err := Some e\<rparr>)
      | Err e \<Rightarrow> q\<lparr>cq_err := Some e\<rparr>)"

definition cq_set_header_if_none ::
  "(string \<Rightarrow> header_name option) \<Rightarrow> error_kind + header_name \<Rightarrow> error_kind + header_value \<Rightarrow> 'j client_request \<Rightarrow> 'j client_request" where
  "cq_set_header_if_none pn key value q =
     (case key of
        Ok k \<Rightarrow>
          (if \<not> hm_contains_key pn (rq_headers (sr_head (cq_request q))) (Left k) then
             (case value of
                Ok v \<Rightarrow> on_request (on_headers (\<lambda>hs. hm_insert hs k v)) q
              | Err e \<Rightarrow> q\<lparr>cq_err := Some e\<rparr>)
           else q)
      | Err e \<Rightarrow> q\<lparr>cq_err := Some e\<rparr>)"

definition cq_set_connection_type :: "connection_type \<Rightarrow> 'j client_request \<Rightarrow> 'j client_request" where
  "cq_set_connection_type ct = on_head (rq_set_connection_type ct)"

definition cq_force_close :: "'j client_request \<Rightarrow> 'j client_request" where
  "cq_force_close = on_head (rq_set_connection_type Close)"

definition cq_content_type :: "error_kind + header_value \<Rightarrow> 'j client_request \<Rightarrow> 'j client_request" where
  "cq_content_type value q =
     (case value of
        Ok v \<Rightarrow> on_request (on_headers (\<lambda>hs. hm_insert hs H_CONTENT_TYPE v)) q
      | Err e \<Rightarrow> q\<lparr>cq_err := Some e\<rparr>)"

definition cq_content_length :: "nat \<Rightarrow> 'j client_request \<Rightarrow> 'j client_request" where
  "cq_content_length len = cq_header (Ok H_CONTENT_LENGTH) (Ok (hv_from_int len))"

definition cq_basic_auth :: "(string \<Rightarrow> string) \<Rightarrow> string \<Rightarrow> string option \<Rightarrow> 'j client_request \<Rightarrow> 'j client_request" where
  "cq_basic_auth b64 username password = cq_header (Ok H_AUTHORIZATION) (text_value (basic_auth b64 username password))"

definition cq_bearer_auth :: "string \<Rightarrow> 'j client_request \<Rightarrow> 'j client_request" where
  "cq_bearer_auth token = cq_header (Ok H_AUTHORIZATION) (text_value (''Bearer '' @ token))"

definition cq_cookie :: "'j cookie_ops \<Rightarrow> string \<Rightarrow> 'j client_request \<Rightarrow> 'j client_request" where
  "cq_cookie co c q =
     (case cq_cookies q of
        Some jar \<Rightarrow> q\<lparr>cq_cookies := Some (cj_add co c jar)\<rparr>
      | None \<Rightarrow> q\<lparr>cq_cookies := Some (cj_add co c (cj_new co))\<rparr>)"

definition cq_no_decompress :: "'j client_request \<Rightarrow> 'j client_request" where
  "cq_no_decompress = on_request (\<lambda>r. r\<lparr>sr_response_decompress := False\<rparr>)"

definition cq_timeout :: "nat \<Rightarrow> 'j client_request \<Rightarrow> 'j client_request" where
  "cq_timeout timeout = on_request (\<lambda>r. r\<lparr>sr_timeout := timeout\<rparr>)"

section \<open>Sending\<close>

definition check_uri :: "uri_ops \<Rightarrow> uri \<Rightarrow> client_error + unit" where
  "check_uri uo u =
     (if uri_host uo u = None then Err (ClUrl IuMissingHost)
      else (case uo_scheme uo u of
              None \<Rightarrow> Err (ClUrl IuMissingScheme)
            | Some scheme \<Rightarrow>
                if scheme \<in> {''http'', ''ws'', ''https'', ''wss''} then Ok () else Err (ClUrl IuUnknownScheme)))"

definition H_ACCEPT_ENCODING :: header_name where "H_ACCEPT_ENCODING = ''accept-encoding''"

definition cq_prep :: "'j ws_env \<Rightarrow> bool \<Rightarrow> 'j client_request \<Rightarrow> ((client_error + unit) \<times> 'j client_request) option" where
  "cq_prep env compress q =
     (case cq_err q of
        Some e \<Rightarrow> Some (Err (ClHttp e), q\<lparr>cq_err := None\<rparr>)
      | None \<Rightarrow>
          (case check_uri (ws_uri env) (rq_uri (sr_head (cq_request q))) of
             Err e \<Rightarrow> Some (Err e, q)
           | Ok _ \<Rightarrow>
               (case set_cookies env (cq_cookies q) (rq_headers (sr_head (cq_request q))) of
                  None \<Rightarrow> None
                | Some hs \<Rightarrow>
                    (let q = on_request (on_headers (\<lambda>_. hs)) q;
                         add = compress \<and> sr_response_decompress (cq_request q) \<and>
                               \<not> hm_contains_key (ws_parse_name env) hs (Left H_ACCEPT_ENCODING)
                     in Some (Ok (), if add
                          then on_request (on_headers (\<lambda>hs. hm_insert hs H_ACCEPT_ENCODING (the (hv_from_static ''gzip, deflate'')))) q
                          else q)))))"

text \<open>The request the service is called with.\<close>

definition cq_ready ::
  "'j ws_env \<Rightarrow> bool \<Rightarrow> (service_request \<Rightarrow> client_error + service_request) \<Rightarrow> 'j client_request \<Rightarrow> (client_error + service_request) option" where
  "cq_ready env compress fill q =
     (case cq_prep env compress q of
        None \<Rightarrow> None
      | Some (Err e, _) \<Rightarrow> Some (Err e)
      | Some (Ok _, q) \<Rightarrow> Some (fill (cq_request q)))"

definition cq_send_body :: "'j ws_env \<Rightarrow> bool \<Rightarrow> body \<Rightarrow> 'j client_request \<Rightarrow> (client_error + service_request) option" where
  "cq_send_body env compress body = cq_ready env compress (\<lambda>r. Ok (r\<lparr>sr_body := body\<rparr>))"

definition cq_send_json :: "'j ws_env \<Rightarrow> bool \<Rightarrow> nat + string \<Rightarrow> 'j client_request \<Rightarrow> (client_error + service_request) option" where
  "cq_send_json env compress value = cq_ready env compress (sr_set_json (ws_parse_name env) value)"

definition cq_send_form :: "'j ws_env \<Rightarrow> bool \<Rightarrow> nat + string \<Rightarrow> 'j client_request \<Rightarrow> (client_error + service_request) option" where
  "cq_send_form env compress value = cq_ready env compress (sr_set_form (ws_parse_name env) value)"

definition cq_send_stream :: "'j ws_env \<Rightarrow> bool \<Rightarrow> stream_poll list \<Rightarrow> 'j client_request \<Rightarrow> (client_error + service_request) option" where
  "cq_send_stream env compress stream = cq_ready env compress (\<lambda>r. Ok (r\<lparr>sr_body := body_from_message (MBStream stream)\<rparr>))"

definition cq_send :: "'j ws_env \<Rightarrow> bool \<Rightarrow> 'j client_request \<Rightarrow> (client_error + service_request) option" where
  "cq_send env compress = cq_ready env compress Ok"

text \<open>\<^verbatim>\<open>Client::request\<close> and \<^verbatim>\<open>Client::request_from\<close>.\<close>

definition set_unset :: "(string \<Rightarrow> header_name option) \<Rightarrow> header_map \<Rightarrow> 'j client_request \<Rightarrow> 'j client_request" where
  "set_unset pn hs q = foldl (\<lambda>q (key, value). cq_set_header_if_none pn (Ok key) (Ok value) q) q (it_collect (hm_iter_new hs))"

definition cl_request ::
  "(string \<Rightarrow> header_name option) \<Rightarrow> request_head list \<Rightarrow> client_config \<Rightarrow> http_method \<Rightarrow> error_kind + uri \<Rightarrow> 'j client_request" where
  "cl_request pn pool cfg m url = set_unset pn (cc_headers cfg) (cq_new pool m url)"

definition cl_request_from ::
  "(string \<Rightarrow> header_name option) \<Rightarrow> request_head list \<Rightarrow> client_config \<Rightarrow> error_kind + uri \<Rightarrow> request_head \<Rightarrow> 'j client_request" where
  "cl_request_from pn pool cfg url head = set_unset pn (rq_headers head) (cl_request pn pool cfg (rq_method head) url)"

section \<open>The sender and the pools\<close>

text \<open>Before the connection is asked for, and with the connection.\<close>

definition sender_start :: "uri_ops \<Rightarrow> proxy_target option \<Rightarrow> service_request \<Rightarrow> client_error + connect \<times> service_request" where
  "sender_start uo proxy req =
     (let uri = rq_uri (sr_head req)
      in if proxy \<noteq> None \<and> px_needs_tunnel uo uri then Err ClProxyTunnelNotSupported
         else Ok (\<lparr>cn_uri = uri, cn_addr = sr_addr req\<rparr>,
                  if proxy \<noteq> None then req\<lparr>sr_head := rq_set_absolute_uri True (sr_head req)\<rparr> else req))"

definition sender_finish ::
  "'s client_env \<Rightarrow> date_service \<Rightarrow> client_config \<Rightarrow> bool \<Rightarrow> (nat \<Rightarrow> conn_io) \<Rightarrow> service_request \<Rightarrow> client_error + client_connection \<Rightarrow> conn_pool \<Rightarrow>
   ((client_error + response_head \<times> 's pl_stream option) poll \<times> conn_pool) option" where
  "sender_finish env ds cfg late ios req con p =
     (case con of
        Err e \<Rightarrow> Some (Ready (Err e), p)
      | Ok conn \<Rightarrow>
          (let timeout = (if sr_timeout req = 0 then cc_timeout cfg else sr_timeout req);
               raw = \<lparr>cr_head = sr_head req, cr_headers = sr_headers req, cr_size = body_size_of (sr_body req)\<rparr>
           in connection_send_request env ds raw (sr_body req) timeout late ios conn p))"

record connector =
  ct_tcp :: conn_pool
  ct_ssl :: "conn_pool option"

definition connector_call :: "uri_ops \<Rightarrow> connect \<Rightarrow> connector \<Rightarrow> (client_error + pool_outcome) \<times> connector" where
  "connector_call uo req c =
     (if uo_scheme uo (cn_uri req) \<in> {Some ''https'', Some ''wss''} then
        (case ct_ssl c of
           Some pool \<Rightarrow> (let (r, pool) = pool_call uo req pool in (Ok r, c\<lparr>ct_ssl := Some pool\<rparr>))
         | None \<Rightarrow> (Err (ClConnect CeSslIsNotSupported), c))
      else (let (r, pool) = pool_call uo req (ct_tcp c) in (Ok r, c\<lparr>ct_tcp := pool\<rparr>)))"

definition connector_shutdown :: "connector \<Rightarrow> connector" where
  "connector_shutdown c = c\<lparr>ct_tcp := pool_shutdown (ct_tcp c), ct_ssl := map_option pool_shutdown (ct_ssl c)\<rparr>"

text \<open>With a proxy, a request either names its whole uri or is refused: it never goes to the server itself.\<close>

lemma sender_start_proxied:
  assumes "sender_start uo (Some t) req = Ok (con, req')"
  shows "\<not> px_needs_tunnel uo (rq_uri (sr_head req))" "rq_absolute_uri (sr_head req')" "cn_uri con = rq_uri (sr_head req)"
  using assms by (auto simp: sender_start_def Let_def rq_set_absolute_uri_def rq_absolute_uri_def flag_simps split: if_splits)

text \<open>A request for a secure scheme never takes a connection of the plain pool, and the other way round.\<close>

lemma connector_call_secure:
  "uo_scheme uo (cn_uri req) \<in> {Some ''https'', Some ''wss''} \<Longrightarrow> ct_tcp (snd (connector_call uo req c)) = ct_tcp c"
  "uo_scheme uo (cn_uri req) \<notin> {Some ''https'', Some ''wss''} \<Longrightarrow> ct_ssl (snd (connector_call uo req c)) = ct_ssl c"
  by (auto simp: connector_call_def split: option.splits prod.splits)

section \<open>Well-formed headers\<close>

definition safe_value :: "header_value \<Rightarrow> bool" where
  "safe_value v = list_all is_valid (hv_inner v)"

definition safe_headers :: "header_map \<Rightarrow> bool" where
  "safe_headers hs \<longleftrightarrow> hm_invar hs \<and> (\<forall>k. list_all safe_value (hm_values hs k))"

lemma safe_value_lines: "safe_value v \<Longrightarrow> CR \<notin> set (hv_inner v) \<and> LF \<notin> set (hv_inner v)"
proof -
  have "\<not> is_valid CR" "\<not> is_valid LF" by (simp_all add: is_valid_def byte_val_def)
  then show "safe_value v \<Longrightarrow> CR \<notin> set (hv_inner v) \<and> LF \<notin> set (hv_inner v)" by (auto simp: safe_value_def list_all_iff)
qed

lemma text_value_safe: "text_value s = Ok v \<Longrightarrow> safe_value v"
  by (auto simp: text_value_def hv_checks safe_value_def split: if_splits)

lemma hv_from_str_safe: "hv_from_str s = Ok v \<Longrightarrow> safe_value v"
  by (auto simp: hv_checks safe_value_def split: if_splits)

lemma safe_insert: "safe_headers hs \<Longrightarrow> safe_value v \<Longrightarrow> safe_headers (hm_insert hs k v)"
  by (simp add: safe_headers_def hm.invar_insert hm.vals_insert)

lemma safe_append: "safe_headers hs \<Longrightarrow> safe_value v \<Longrightarrow> safe_headers (hm_append hs k v)"
  by (simp add: safe_headers_def hm.invar_append hm.vals_append)

lemma hv_from_int_safe: "safe_value (hv_from_int n)"
  using dec_visible [of n] by (auto simp: hv_from_int_def safe_value_def plain_def hv_checks list_all_iff visible_is_valid split: if_splits)

section \<open>Calls of the builder\<close>

text \<open>The calls an application can make; texts become header values by the conversion of the library.\<close>

datatype cq_op =
    QUri "error_kind + uri"
  | QAddress string
  | QMethod http_method
  | QHeader "error_kind + header_name" string
  | QSetHeader "error_kind + header_name" string
  | QSetHeaderIfNone "error_kind + header_name" string
  | QConnectionType connection_type
  | QForceClose
  | QContentType string
  | QContentLength nat
  | QBasicAuth string "string option"
  | QBearerAuth string
  | QCookie string
  | QNoDecompress
  | QTimeout nat

fun cq_apply :: "'j ws_env \<Rightarrow> (string \<Rightarrow> string) \<Rightarrow> cq_op \<Rightarrow> 'j client_request \<Rightarrow> 'j client_request" where
  "cq_apply env b64 (QUri u) = cq_uri u"
| "cq_apply env b64 (QAddress a) = cq_address a"
| "cq_apply env b64 (QMethod m) = cq_method m"
| "cq_apply env b64 (QHeader k s) = cq_header k (text_value s)"
| "cq_apply env b64 (QSetHeader k s) = cq_set_header k (text_value s)"
| "cq_apply env b64 (QSetHeaderIfNone k s) = cq_set_header_if_none (ws_parse_name env) k (text_value s)"
| "cq_apply env b64 (QConnectionType ct) = cq_set_connection_type ct"
| "cq_apply env b64 QForceClose = cq_force_close"
| "cq_apply env b64 (QContentType s) = cq_content_type (text_value s)"
| "cq_apply env b64 (QContentLength n) = cq_content_length n"
| "cq_apply env b64 (QBasicAuth u pw) = cq_basic_auth b64 u pw"
| "cq_apply env b64 (QBearerAuth t) = cq_bearer_auth t"
| "cq_apply env b64 (QCookie c) = cq_cookie (ws_jar env) c"
| "cq_apply env b64 QNoDecompress = cq_no_decompress"
| "cq_apply env b64 (QTimeout n) = cq_timeout n"

lemmas cq_defs = cq_uri_def cq_address_def cq_method_def cq_header_def cq_set_header_def cq_set_header_if_none_def
  cq_set_connection_type_def cq_force_close_def cq_content_type_def cq_content_length_def cq_basic_auth_def cq_bearer_auth_def
  cq_cookie_def cq_no_decompress_def cq_timeout_def on_head_def on_request_def on_headers_def

abbreviation request_headers :: "'j client_request \<Rightarrow> header_map" where
  "request_headers q \<equiv> rq_headers (sr_head (cq_request q))"

lemma cq_apply_safe: "safe_headers (request_headers q) \<Longrightarrow> safe_headers (request_headers (cq_apply env b64 op q))"
  by (cases op)
    (auto simp: cq_defs hv_from_int_safe split: sum.splits option.splits intro!: safe_insert safe_append dest: text_value_safe)

lemma cq_run_safe:
  "safe_headers (request_headers q) \<Longrightarrow> safe_headers (request_headers (foldl (\<lambda>q op. cq_apply env b64 op q) q ops))"
  by (induction ops arbitrary: q) (simp_all add: cq_apply_safe)

lemma set_unset_safe:
  assumes "safe_headers hs" "safe_headers (request_headers q)"
  shows "safe_headers (request_headers (set_unset pn hs q))"
proof -
  have vals: "safe_value v" if "(k, v) \<in> set (it_collect (hm_iter_new hs))" for k v
  proof -
    have "v \<in> set (map snd (filter (\<lambda>kv. fst kv = k) (it_collect (hm_iter_new hs))))" using that by force
    with assms(1) header_map_iteration [of hs k] show ?thesis by (simp add: safe_headers_def list_all_iff)
  qed
  have one: "safe_headers (request_headers (cq_set_header_if_none pn (Ok k) (Ok v) q))"
    if "safe_headers (request_headers q)" "safe_value v" for k v and q :: "'a client_request"
    using that by (auto simp: cq_defs intro!: safe_insert)
  have "safe_headers (request_headers (foldl (\<lambda>q (key, value). cq_set_header_if_none pn (Ok key) (Ok value) q) q kvs))"
    if "set kvs \<subseteq> set (it_collect (hm_iter_new hs))" for kvs
    using that assms(2)
    by (induction kvs arbitrary: q) (auto simp: vals one)
  then show ?thesis by (simp add: set_unset_def)
qed

lemma cq_new_safe: "safe_headers (request_headers (cq_new pool m u))"
  using pooled_request [of pool]
  by (auto simp: cq_new_def sr_new_def cq_defs safe_headers_def hm_invar_def hm_values_def simp del: get_message.simps split: sum.split)

lemma set_cookies_safe: "set_cookies env ck hs = Some hs' \<Longrightarrow> safe_headers hs \<Longrightarrow> safe_headers hs'"
  by (auto simp: set_cookies_def split: option.splits sum.splits intro!: safe_insert dest: hv_from_str_safe)

lemma cq_prep_safe:
  assumes "cq_prep env compress q = Some (Ok u, q')" "safe_headers (request_headers q)"
  shows "safe_headers (request_headers q')" "cq_err q = None"
    "check_uri (ws_uri env) (rq_uri (sr_head (cq_request q'))) = Ok ()"
proof -
  have "safe_value (the (hv_from_static ''gzip, deflate''))" by code_simp
  with assms show "safe_headers (request_headers q')" "cq_err q = None"
    "check_uri (ws_uri env) (rq_uri (sr_head (cq_request q'))) = Ok ()"
    by (auto simp: cq_prep_def on_request_def on_headers_def Let_def split: option.splits sum.splits if_splits
      intro!: safe_insert dest: set_cookies_safe)
qed

text \<open>The ways to fill in a body keep the headers well formed.\<close>

lemma sr_set_text_uri: "sr_set_text pn ctype s r = Ok r' \<Longrightarrow> P (rq_uri (sr_head r)) \<Longrightarrow> P (rq_uri (sr_head r'))"
  by (auto simp: sr_set_text_def sr_set_header_if_none_def on_headers_def split: sum.splits if_splits)

lemma sr_set_text_safe:
  assumes "sr_set_text pn ctype s r = Ok r'" "safe_headers (rq_headers (sr_head r))"
  shows "safe_headers (rq_headers (sr_head r'))"
  using assms
  by (auto simp: sr_set_text_def sr_set_header_if_none_def on_headers_def split: sum.splits if_splits
      intro!: safe_insert dest: text_value_safe)

text \<open>The sends of an application.\<close>

datatype cq_body = QbBody body | QbJson "nat + string" | QbForm "nat + string" | QbStream "stream_poll list" | QbNone

fun cq_send_any :: "'j ws_env \<Rightarrow> bool \<Rightarrow> cq_body \<Rightarrow> 'j client_request \<Rightarrow> (client_error + service_request) option" where
  "cq_send_any env compress (QbBody b) = cq_send_body env compress b"
| "cq_send_any env compress (QbJson v) = cq_send_json env compress v"
| "cq_send_any env compress (QbForm v) = cq_send_form env compress v"
| "cq_send_any env compress (QbStream s) = cq_send_stream env compress s"
| "cq_send_any env compress QbNone = cq_send env compress"

lemmas cq_send_defs = cq_send_body_def cq_send_json_def cq_send_form_def cq_send_stream_def cq_send_def sr_set_json_def sr_set_form_def

lemma cq_send_any_safe:
  assumes "cq_send_any env compress b q = Some (Ok r)" "safe_headers (request_headers q)"
  shows "safe_headers (rq_headers (sr_head r)) \<and> check_uri (ws_uri env) (rq_uri (sr_head r)) = Ok () \<and> cq_err q = None"
  using assms cq_prep_safe [of env compress q]
  by (cases b) (auto simp: cq_send_defs cq_ready_def split: option.splits sum.splits dest: sr_set_text_safe
      sr_set_text_uri [where P = "\<lambda>u. check_uri (ws_uri env) u = Ok ()"])

section \<open>Properties\<close>

text \<open>
  C12: A request the client sends is well formed, whatever calls built it and whatever texts they were given: its header map
  satisfies its invariant, no header value contains a line end, so that no text can add a header or end the head, its uri has a
  host and one of the four known schemes, and no call had failed. Required is that the headers of the configuration are
  well formed.
\<close>

theorem client_request_well_formed:
  assumes "safe_headers (cc_headers cfg)"
    and "cq_send_any env compress b (foldl (\<lambda>q op. cq_apply env b64 op q) (cl_request pn pool cfg m url) ops) = Some (Ok r)"
  shows "hm_invar (rq_headers (sr_head r)) \<and>
    (\<forall>k. \<forall>v\<in>set (hm_values (rq_headers (sr_head r)) k). CR \<notin> set (hv_inner v) \<and> LF \<notin> set (hv_inner v)) \<and>
    uri_host (ws_uri env) (rq_uri (sr_head r)) \<noteq> None \<and>
    uo_scheme (ws_uri env) (rq_uri (sr_head r)) \<in> {Some ''http'', Some ''ws'', Some ''https'', Some ''wss''} \<and>
    cq_err (foldl (\<lambda>q op. cq_apply env b64 op q) (cl_request pn pool cfg m url) ops) = None"
proof -
  have "safe_headers (request_headers (cl_request pn pool cfg m url :: 'a client_request))"
    unfolding cl_request_def by (rule set_unset_safe [OF assms(1) cq_new_safe])
  from cq_send_any_safe [OF assms(2) cq_run_safe [OF this]]
  have "safe_headers (rq_headers (sr_head r))" "check_uri (ws_uri env) (rq_uri (sr_head r)) = Ok ()"
    "cq_err (foldl (\<lambda>q op. cq_apply env b64 op q) (cl_request pn pool cfg m url) ops) = None" by simp_all
  then show ?thesis
    by (auto simp: safe_headers_def list_all_iff check_uri_def split: if_splits option.splits dest!: bspec safe_value_lines)
qed

definition sample_calls :: "cq_op list" where
  "sample_calls = [QHeader (Ok ''x-a'') ''b'', QBearerAuth ''t'', QForceClose]"

theorem client_request_well_formed_witness:
  "\<exists>r. cq_send_any sample_env False (QbBody (BBytes ''hi''))
       (foldl (\<lambda>q op. cq_apply sample_env id op q) (cl_request Some [] cc_new ''PUT'' (Ok ''localhost'')) sample_calls) = Some (Ok r) \<and>
     (\<forall>v\<in>set (hm_values (rq_headers (sr_head r)) ''x-a''). CR \<notin> set (hv_inner v))"
proof -
  let ?q = "foldl (\<lambda>q op. cq_apply sample_env id op q) (cl_request Some [] cc_new ''PUT'' (Ok ''localhost'')) sample_calls :: unit client_request"
  have headers: "safe_headers (cc_headers cc_new)"
    by (simp add: cc_new_def safe_headers_def hm_new_def hm_invar_def hm_values_def)
  have tv: "text_value ''b'' = Ok \<lparr>hv_inner = ''b'', hv_is_sensitive = False\<rparr>"
    "text_value ''Bearer t'' = Ok \<lparr>hv_inner = ''Bearer t'', hv_is_sensitive = False\<rparr>" by code_simp+
  have "cq_err ?q = None" "cq_cookies ?q = None" "rq_uri (sr_head (cq_request ?q)) = ''localhost''"
    by (simp_all add: sample_calls_def cl_request_def set_unset_def cc_new_def hm_new_def hm_iter_new_def it_collect.simps it_next.simps
      cq_new_def cq_defs tv)
  then obtain r where r: "cq_send_any sample_env False (QbBody (BBytes ''hi'')) ?q = Some (Ok r)"
    by (auto simp: cq_send_body_def cq_ready_def cq_prep_def check_uri_def uri_host_def sample_env_def set_cookies_def Let_def)
  from client_request_well_formed [OF headers r] r show ?thesis by blast
qed

end
