(* ===== verification/Client_Response.thy ===== *)
theory Client_Response
  imports Client_Types
begin

text \<open>
  Responses of the HTTP client (\<^verbatim>\<open>geario-http/src/client/response.rs\<close>): the payload they hold and the two futures that read it to
  the end, one for the bytes and one for a JSON value. The payload is given by its answers to the polls still to come, none
  left being the end; whether the deadline has passed at a poll is an argument of the poll. The mime type and the JSON parser
  are arguments. \<^const>\<open>None\<close> is a panic, which only a poll after the end can cause.
\<close>

section \<open>Definitions\<close>

record client_response =
  cp_head :: response_head
  cp_payload :: "recv_answer list option"
  cp_config :: client_config

definition cp_take_payload :: "client_response \<Rightarrow> recv_answer list \<times> client_response" where
  "cp_take_payload res = ((case cp_payload res of Some pl \<Rightarrow> pl | None \<Rightarrow> []), res\<lparr>cp_payload := None\<rparr>)"

text \<open>\<^verbatim>\<open>str::parse::<usize>\<close>: decimal digits after at most one plus sign, no overflow.\<close>

definition is_digit :: "char \<Rightarrow> bool" where
  "is_digit c = (48 \<le> byte_val c \<and> byte_val c \<le> 57)"

definition parse_usize :: "string \<Rightarrow> nat option" where
  "parse_usize s =
     (let ds = (if take 1 s = ''+'' then drop 1 s else s);
          n = foldl (\<lambda>n c. 10 * n + (byte_val c - 48)) 0 ds
      in if ds \<noteq> [] \<and> list_all is_digit ds \<and> n < 2 ^ 64 then Some n else None)"

text \<open>\<^verbatim>\<open>ReadBody\<close>: the loop of its poll; \<open>late\<close> says that the deadline has passed.\<close>

record body_reader =
  br_stream :: "recv_answer list"
  br_buf :: bytes
  br_limit :: nat

definition br_new :: "recv_answer list \<Rightarrow> nat \<Rightarrow> body_reader" where
  "br_new stream limit = \<lparr>br_stream = stream, br_buf = [], br_limit = limit\<rparr>"

fun br_loop :: "bool \<Rightarrow> nat \<Rightarrow> bytes \<Rightarrow> recv_answer list \<Rightarrow> (payload_error + bytes) poll \<times> bytes \<times> recv_answer list" where
  "br_loop late limit buf [] = (Ready (Ok buf), [], [])"
| "br_loop late limit buf (Ready None # s) = (Ready (Ok buf), [], s)"
| "br_loop late limit buf (Ready (Some (Inr chunk)) # s) =
     (if limit > 0 \<and> length buf + length chunk > limit then (Ready (Err PeOverflow), buf, s)
      else br_loop late limit (buf @ chunk) s)"
| "br_loop late limit buf (Ready (Some (Inl e)) # s) = (Ready (Err e), buf, s)"
| "br_loop late limit buf (Pending # s) =
     (if late then (Ready (Err (PeIncomplete (Some (IoTimedOut ''Operation timed out'')))), buf, s) else (Pending, buf, s))"

definition br_poll :: "bool \<Rightarrow> body_reader \<Rightarrow> (payload_error + bytes) poll \<times> body_reader" where
  "br_poll late b =
     (let (r, buf, s) = br_loop late (br_limit b) (br_buf b) (br_stream b) in (r, b\<lparr>br_buf := buf, br_stream := s\<rparr>))"

text \<open>\<^verbatim>\<open>MessageBody\<close>. The content length is \<^verbatim>\<open>Err\<close> if it is no number.\<close>

record message_body =
  mg_length :: "nat option"
  mg_err :: "payload_error option"
  mg_fut :: "body_reader option"

definition content_length :: "(string \<Rightarrow> header_name option) \<Rightarrow> header_map \<Rightarrow> payload_error + nat option" where
  "content_length pn hs =
     (case hm_get pn hs (Left H_CONTENT_LENGTH) of
        None \<Rightarrow> Ok None
      | Some l \<Rightarrow>
          (case hv_to_str l of
             Err _ \<Rightarrow> Err PeUnknownLength
           | Ok s \<Rightarrow> (case parse_usize s of Some n \<Rightarrow> Ok (Some n) | None \<Rightarrow> Err PeUnknownLength)))"

definition mg_new :: "(string \<Rightarrow> header_name option) \<Rightarrow> client_response \<Rightarrow> message_body \<times> client_response" where
  "mg_new pn res =
     (case content_length pn (rs_headers (cp_head res)) of
        Err e \<Rightarrow> (\<lparr>mg_length = None, mg_err = Some e, mg_fut = None\<rparr>, res)
      | Ok len \<Rightarrow>
          (let (pl, res') = cp_take_payload res
           in (\<lparr>mg_length = len, mg_err = None, mg_fut = Some (br_new pl (cc_pl_limit (cp_config res)))\<rparr>, res')))"

definition mg_limit :: "nat \<Rightarrow> message_body \<Rightarrow> message_body" where
  "mg_limit limit m = m\<lparr>mg_fut := map_option (\<lambda>f. f\<lparr>br_limit := limit\<rparr>) (mg_fut m)\<rparr>"

definition mg_poll :: "bool \<Rightarrow> message_body \<Rightarrow> ((payload_error + bytes) poll \<times> message_body) option" where
  "mg_poll late m =
     (case mg_err m of
        Some e \<Rightarrow> Some (Ready (Err e), m\<lparr>mg_err := None\<rparr>)
      | None \<Rightarrow>
          (case mg_fut m of
             None \<Rightarrow> None
           | Some f \<Rightarrow>
               (if (case mg_length m of Some len \<Rightarrow> br_limit f > 0 \<and> len > br_limit f | None \<Rightarrow> False)
                then Some (Ready (Err PeOverflow), m\<lparr>mg_length := None\<rparr>)
                else
                  let (r, f') = br_poll late f
                  in Some (r, m\<lparr>mg_length := None, mg_fut := Some f'\<rparr>))))"

text \<open>\<^verbatim>\<open>JsonBody\<close>: \<open>is_json\<close> says whether the mime type is one for JSON. A length that is no number is ignored.\<close>

record json_body =
  js_length :: "nat option"
  js_err :: "json_payload_error option"
  js_fut :: "body_reader option"

definition js_new ::
  "(string \<Rightarrow> header_name option) \<Rightarrow> (string \<Rightarrow> 'm option) \<Rightarrow> ('m \<Rightarrow> bool) \<Rightarrow> client_response \<Rightarrow> json_body \<times> client_response" where
  "js_new pn parse_mime is_json res =
     (if \<not> (case msg_mime_type pn parse_mime (rs_headers (cp_head res)) of Ok (Some mime) \<Rightarrow> is_json mime | _ \<Rightarrow> False)
      then (\<lparr>js_length = None, js_err = Some JpContentType, js_fut = None\<rparr>, res)
      else
        (let (pl, res') = cp_take_payload res
         in (\<lparr>js_length = (case content_length pn (rs_headers (cp_head res)) of Ok len \<Rightarrow> len | Err _ \<Rightarrow> None), js_err = None,
              js_fut = Some (br_new pl (cc_pl_limit (cp_config res)))\<rparr>, res')))"

definition js_poll :: "(bytes \<Rightarrow> nat + 'u) \<Rightarrow> bool \<Rightarrow> json_body \<Rightarrow> ((json_payload_error + 'u) poll \<times> json_body) option" where
  "js_poll from_slice late m =
     (case js_err m of
        Some e \<Rightarrow> Some (Ready (Err e), m\<lparr>js_err := None\<rparr>)
      | None \<Rightarrow>
          (case js_fut m of
             None \<Rightarrow> None
           | Some f \<Rightarrow>
               (if (case js_length m of Some len \<Rightarrow> br_limit f > 0 \<and> len > br_limit f | None \<Rightarrow> False)
                then Some (Ready (Err (JpPayload PeOverflow)), m\<lparr>js_length := None\<rparr>)
                else
                  let (r, f') = br_poll late f;
                      m = m\<lparr>js_length := None, js_fut := Some f'\<rparr>
                  in Some (case r of
                             Pending \<Rightarrow> Pending
                           | Ready (Err e) \<Rightarrow> Ready (Err (JpPayload e))
                           | Ready (Ok body) \<Rightarrow> Ready (map_sum jp_from_json id (from_slice body)), m))))"

section \<open>Awaiting a body\<close>

text \<open>A future is polled until it is ready; the list says for each poll whether the deadline has passed.\<close>

fun mg_await :: "bool list \<Rightarrow> message_body \<Rightarrow> (payload_error + bytes) poll option" where
  "mg_await [] m = Some Pending"
| "mg_await (late # ls) m =
     (case mg_poll late m of
        None \<Rightarrow> None
      | Some (Ready r, _) \<Rightarrow> Some (Ready r)
      | Some (Pending, m) \<Rightarrow> mg_await ls m)"

text \<open>The data of a payload up to its end or its error.\<close>

fun payload_data :: "recv_answer list \<Rightarrow> bytes \<times> payload_error option" where
  "payload_data [] = ([], None)"
| "payload_data (Ready None # s) = ([], None)"
| "payload_data (Ready (Some (Inr chunk)) # s) = (let (d, e) = payload_data s in (chunk @ d, e))"
| "payload_data (Ready (Some (Inl e)) # s) = ([], Some e)"
| "payload_data (Pending # s) = payload_data s"

definition read_outcome :: "nat \<Rightarrow> bytes \<times> payload_error option \<Rightarrow> payload_error + bytes" where
  "read_outcome limit d =
     (if limit > 0 \<and> length (fst d) > limit then Err PeOverflow
      else case snd d of Some e \<Rightarrow> Err e | None \<Rightarrow> Ok (fst d))"

definition waits :: "recv_answer list \<Rightarrow> nat" where
  "waits s = length (filter (\<lambda>a. a = Pending) s)"

lemma read_outcome_over:
  "0 < limit \<Longrightarrow> limit < length buf \<Longrightarrow> read_outcome limit (buf @ d, e) = Err PeOverflow"
  by (simp add: read_outcome_def)

abbreviation timed_out :: payload_error where
  "timed_out \<equiv> PeIncomplete (Some (IoTimedOut ''Operation timed out''))"

lemma payload_data_chunk: "payload_data (Ready (Some (Inr chunk)) # s) = (chunk @ fst (payload_data s), snd (payload_data s))"
  by (simp add: case_prod_unfold Let_def)

text \<open>One poll: a result is the outcome for all the data, unless the deadline has passed; otherwise some data has been moved into the buffer.\<close>

lemma br_loop_spec:
  assumes "limit > 0 \<longrightarrow> length buf \<le> limit" "br_loop late limit buf s = (r, buf', s')"
  shows "(case r of
      Ready x \<Rightarrow> x = read_outcome limit (buf @ fst (payload_data s), snd (payload_data s)) \<or> (late \<and> x = Err timed_out)
    | Pending \<Rightarrow> waits s' < waits s \<and> (limit > 0 \<longrightarrow> length buf' \<le> limit) \<and>
        buf' @ fst (payload_data s') = buf @ fst (payload_data s) \<and> snd (payload_data s') = snd (payload_data s))"
  using assms
proof (induction late limit buf s rule: br_loop.induct)
  case (3 late limit buf chunk s)
  show ?case
  proof (cases "limit > 0 \<and> length buf + length chunk > limit")
    case True
    with 3 show ?thesis
      using read_outcome_over [of limit "buf @ chunk" "fst (payload_data s)" "snd (payload_data s)"]
      by (auto simp: payload_data_chunk simp del: payload_data.simps)
  next
    case False
    have "waits (Ready (Some (Ok chunk)) # s) = waits s" by (simp add: waits_def)
    with 3 False show ?thesis by (cases r) (auto simp: payload_data_chunk simp del: payload_data.simps)
  qed
qed (auto simp: read_outcome_def waits_def split: if_splits)

definition reader_ok :: "body_reader \<Rightarrow> bool" where
  "reader_ok f \<longleftrightarrow> (br_limit f > 0 \<longrightarrow> length (br_buf f) \<le> br_limit f)"

definition reader_outcome :: "body_reader \<Rightarrow> payload_error + bytes" where
  "reader_outcome f = read_outcome (br_limit f) (br_buf f @ fst (payload_data (br_stream f)), snd (payload_data (br_stream f)))"

lemma br_poll_spec:
  assumes "reader_ok f" "br_poll late f = (r, f')"
  shows "(case r of
      Ready x \<Rightarrow> x = reader_outcome f \<or> (late \<and> x = Err timed_out)
    | Pending \<Rightarrow> waits (br_stream f') < waits (br_stream f) \<and> reader_ok f' \<and> reader_outcome f' = reader_outcome f)"
  using br_loop_spec [of "br_limit f" "br_buf f" late "br_stream f"] assms
  by (auto simp: br_poll_def reader_ok_def reader_outcome_def Let_def split: prod.splits poll.splits)

lemma mg_await_ready:
  assumes "mg_err m = None" "mg_length m = None" "mg_fut m = Some f" "reader_ok f" "waits (br_stream f) < n"
  shows "mg_await (replicate n False) m = Some (Ready (reader_outcome f))"
  using assms
proof (induction n arbitrary: m f)
  case (Suc n)
  obtain r f' where p: "br_poll False f = (r, f')" by fastforce
  show ?case
  proof (cases r)
    case Pending
    with br_poll_spec [OF Suc.prems(4) p] Suc.prems p show ?thesis
      using Suc.IH [of "m\<lparr>mg_length := None, mg_fut := Some f'\<rparr>" f'] by (simp add: mg_poll_def)
  next
    case (Ready x)
    with br_poll_spec [OF Suc.prems(4) p] Suc.prems p show ?thesis by (simp add: mg_poll_def)
  qed
qed simp

lemma mg_await_ok:
  assumes "mg_err m = None" "mg_fut m = Some f" "reader_ok f" "mg_await ls m = Some (Ready (Ok body))"
  shows "reader_outcome f = Ok body"
  using assms
proof (induction ls arbitrary: m f)
  case (Cons late ls)
  obtain r f' where p: "br_poll late f = (r, f')" by fastforce
  note spec = br_poll_spec [OF Cons.prems(3) p]
  show ?case
  proof (cases r)
    case Pending
    with spec Cons.prems p show ?thesis
      using Cons.IH [of "m\<lparr>mg_length := None, mg_fut := Some f'\<rparr>" f']
      by (auto simp: mg_poll_def split: if_splits)
  next
    case (Ready x)
    with spec Cons.prems p show ?thesis by (auto simp: mg_poll_def split: if_splits)
  qed
qed simp

section \<open>Properties\<close>

text \<open>
  C13: Reading the body of a response respects the limit exactly. Awaited long enough before the deadline, the future for a response
  without a malformed length returns the whole body if it fits the limit (0 is none), the error of the stream if it fits and ends
  in one, and an overflow if the announced or the real length exceeds the limit. And whenever it returns a body, however the
  deadline falls, that body is complete and fits.
\<close>

theorem message_body_limit:
  assumes "mg_new pn res = (m, res')" "content_length pn (rs_headers (cp_head res)) = Ok len" "cp_payload res = Some pl" "waits pl < n"
  shows "mg_await (replicate n False) m =
      Some (Ready (if cc_pl_limit (cp_config res) > 0 \<and> (\<exists>l. len = Some l \<and> l > cc_pl_limit (cp_config res)) then Err PeOverflow
        else read_outcome (cc_pl_limit (cp_config res)) (payload_data pl))) \<and>
    (mg_await ls m = Some (Ready (Ok body)) \<longrightarrow>
       payload_data pl = (body, None) \<and> (cc_pl_limit (cp_config res) > 0 \<longrightarrow> length body \<le> cc_pl_limit (cp_config res)))"
proof -
  let ?f = "br_new pl (cc_pl_limit (cp_config res))"
  have m: "m = \<lparr>mg_length = len, mg_err = None, mg_fut = Some ?f\<rparr>"
    using assms(1-3) by (simp add: mg_new_def cp_take_payload_def)
  have f: "reader_ok ?f" "reader_outcome ?f = read_outcome (cc_pl_limit (cp_config res)) (payload_data pl)" "waits (br_stream ?f) < n"
    using assms(4) by (simp_all add: reader_ok_def reader_outcome_def br_new_def)
  have "mg_await (replicate n False) m =
      Some (Ready (if cc_pl_limit (cp_config res) > 0 \<and> (\<exists>l. len = Some l \<and> l > cc_pl_limit (cp_config res)) then Err PeOverflow
        else reader_outcome ?f))"
  proof -
    obtain k where n: "n = Suc k" using assms(4) by (cases n) auto
    show ?thesis
    proof (cases "cc_pl_limit (cp_config res) > 0 \<and> (\<exists>l. len = Some l \<and> l > cc_pl_limit (cp_config res))")
      case True
      then show ?thesis by (auto simp: m n mg_poll_def br_new_def)
    next
      case False
      then have "mg_poll False m = mg_poll False (m\<lparr>mg_length := None\<rparr>)"
        by (auto simp: m mg_poll_def br_new_def split: option.split)
      then have "mg_await (replicate n False) m = mg_await (replicate n False) (m\<lparr>mg_length := None\<rparr>)" by (simp add: n)
      with mg_await_ready [of "m\<lparr>mg_length := None\<rparr>" ?f n] f False show ?thesis by (auto simp: m)
    qed
  qed
  moreover have "payload_data pl = (body, None) \<and> (cc_pl_limit (cp_config res) > 0 \<longrightarrow> length body \<le> cc_pl_limit (cp_config res))"
    if "mg_await ls m = Some (Ready (Ok body))"
    using mg_await_ok [OF _ _ f(1) that] f(2)
    by (auto simp: m read_outcome_def prod_eq_iff split: if_splits option.splits)
  ultimately show ?thesis unfolding f(2) by blast
qed

definition sample_answer :: client_response where
  "sample_answer =
     \<lparr>cp_head = rs_new 200 HTTP_11, cp_payload = Some [Pending, Ready (Some (Ok ''ab'')), Pending, Ready (Some (Ok ''c''))],
      cp_config = cc_set_response_payload_limit 3 cc_new\<rparr>"

theorem message_body_limit_witness:
  "mg_await [False, False, False] (fst (mg_new Some sample_answer)) = Some (Ready (Ok ''abc''))"
proof -
  have "content_length Some (rs_headers (cp_head sample_answer)) = Ok None"
    by (simp add: content_length_def sample_answer_def rs_new_def hm_new_def hm_get_def)
  from message_body_limit [OF surjective_pairing this, of "[Pending, Ready (Some (Ok ''ab'')), Pending, Ready (Some (Ok ''c''))]" 3]
  show ?thesis
    by (simp add: sample_answer_def waits_def read_outcome_def cc_set_response_payload_limit_def numeral_3_eq_3)
qed

end
